(* ===== verification/Js_Collections.thy ===== *)
theory Js_Collections
  imports Js_Prelude
begin

text \<open>
  Two interfaces of the runtime that several components rely on, each with the client lemmas
  proved once: \<open>keyed_store\<close> (an insertion-ordered \<^verbatim>\<open>Map\<close> filled by the read-modify-write loops
  that group rows by a key) and \<open>comparator\<close> (what \<^verbatim>\<open>Array.prototype.sort\<close> gives for a consistent
  comparison function). The order \<open>localeCompare\<close> gives is decided by the host's collation
  tables, so it is a parameter of the definitions that use it; \<open>collation\<close> states what
  ECMA-402 promises of it.
\<close>

section \<open>Grouping rows in a keyed store\<close>

locale keyed_store =
  fixes empty :: "'m"
    and get :: "'m \<Rightarrow> 'k \<Rightarrow> 'v option"
    and put :: "'k \<Rightarrow> 'v \<Rightarrow> 'm \<Rightarrow> 'm"
    and keys :: "'m \<Rightarrow> 'k list"
  assumes get_empty: "get empty k = None"
    and get_put: "get (put k v m) k' = (if k' = k then Some v else get m k')"
    and keys_empty: "keys empty = []"
    and keys_put: "keys (put k v m) = (if get m k = None then keys m @ [k] else keys m)"
    and keys_get: "k \<in> set (keys m) \<longleftrightarrow> get m k \<noteq> None"
begin

definition upsert :: "('x \<Rightarrow> 'k) \<Rightarrow> ('x \<Rightarrow> 'v) \<Rightarrow> ('x \<Rightarrow> 'v \<Rightarrow> 'v) \<Rightarrow> 'm \<Rightarrow> 'x \<Rightarrow> 'm" where
  "upsert key ini upd m x =
     put (key x) (upd x (case get m (key x) of None \<Rightarrow> ini x | Some v \<Rightarrow> v)) m"

definition grouped :: "('x \<Rightarrow> 'k) \<Rightarrow> ('x \<Rightarrow> 'v) \<Rightarrow> ('x \<Rightarrow> 'v \<Rightarrow> 'v) \<Rightarrow> 'x list \<Rightarrow> 'k \<Rightarrow> 'v option" where
  "grouped key ini upd xs k =
     (case filter (\<lambda>x. key x = k) xs of
        [] \<Rightarrow> None
      | y # ys \<Rightarrow> Some (foldl (\<lambda>v x. upd x v) (ini y) (y # ys)))"

lemma get_upsert:
  "get (upsert key ini upd m x) k =
     (if key x = k then Some (upd x (case get m k of None \<Rightarrow> ini x | Some v \<Rightarrow> v)) else get m k)"
  by (auto simp: upsert_def get_put)

lemma get_fold_present:
  "get m k = Some v \<Longrightarrow>
     get (foldl (upsert key ini upd) m xs) k =
       Some (foldl (\<lambda>v x. upd x v) v (filter (\<lambda>x. key x = k) xs))"
  by (induction xs arbitrary: m v) (auto simp: get_upsert)

lemma get_fold_absent:
  "get m k = None \<Longrightarrow>
     get (foldl (upsert key ini upd) m xs) k = grouped key ini upd xs k"
proof (induction xs arbitrary: m)
  case Nil
  then show ?case by (simp add: grouped_def)
next
  case (Cons x xs)
  show ?case
  proof (cases "key x = k")
    case True
    then have "get (upsert key ini upd m x) k = Some (upd x (ini x))"
      using Cons.prems by (simp add: get_upsert)
    from get_fold_present [OF this] True show ?thesis by (simp add: grouped_def)
  next
    case False
    then have "get (upsert key ini upd m x) k = None"
      using Cons.prems by (simp add: get_upsert)
    from Cons.IH [OF this] False show ?thesis by (simp add: grouped_def)
  qed
qed

lemma get_group: "get (foldl (upsert key ini upd) empty xs) k = grouped key ini upd xs k"
  by (rule get_fold_absent) (rule get_empty)

lemma keys_upsert:
  "keys (upsert key ini upd m x) = set_add (key x) (keys m)"
  using keys_get [of "key x" m] by (auto simp: upsert_def keys_put set_add_def)

lemma keys_fold:
  "keys (foldl (upsert key ini upd) m xs) = foldl (\<lambda>s x. set_add x s) (keys m) (map key xs)"
  by (induction xs arbitrary: m) (auto simp: keys_upsert)

lemma keys_group: "keys (foldl (upsert key ini upd) empty xs) = uniq (map key xs)"
  by (simp add: keys_fold keys_empty uniq_def)

end

interpretation jm: keyed_store "[]" map_get map_set map_keys
proof (unfold_locales, goal_cases)
  case (4 k v m)
  then show ?case by (simp add: map_keys_set map_get_None)
next
  case (5 k m)
  then show ?case by (simp add: map_get_None)
qed (simp_all add: store_simps)

section \<open>Sorting by a comparator\<close>

text \<open>
  A comparator returns a number; only its sign matters. Insertion of the elements from the right,
  each before the first one that does not compare below it, is stable. For a consistent
  comparator every stable sort gives this list (\<open>js_sort_unique\<close>).
\<close>

fun ins_by :: "('a \<Rightarrow> 'a \<Rightarrow> num) \<Rightarrow> 'a \<Rightarrow> 'a list \<Rightarrow> 'a list" where
  "ins_by cmp x [] = [x]"
| "ins_by cmp x (y # ys) = (if cmp x y \<le> 0 then x # y # ys else y # ins_by cmp x ys)"

definition js_sort :: "('a \<Rightarrow> 'a \<Rightarrow> num) \<Rightarrow> 'a list \<Rightarrow> 'a list" where
  "js_sort cmp xs = foldr (ins_by cmp) xs []"

lemma mset_ins_by [simp]: "mset (ins_by cmp x xs) = add_mset x (mset xs)"
  by (induction xs) auto

lemma mset_js_sort [simp]: "mset (js_sort cmp xs) = mset xs"
  by (induction xs) (auto simp: js_sort_def)

lemma set_js_sort [simp]: "set (js_sort cmp xs) = set xs"
  by (metis mset_js_sort set_mset_mset)

lemma length_js_sort [simp]: "length (js_sort cmp xs) = length xs"
  by (metis mset_js_sort size_mset)

lemma distinct_js_sort [simp]: "distinct (js_sort cmp xs) = distinct xs"
  by (metis mset_js_sort mset_eq_imp_distinct_iff)

lemma js_sort_Nil [simp]: "js_sort cmp [] = []"
  by (simp add: js_sort_def)

lemma js_sort_Cons: "js_sort cmp (x # xs) = ins_by cmp x (js_sort cmp xs)"
  by (simp add: js_sort_def)

lemma set_ins_by [simp]: "set (ins_by cmp x xs) = insert x (set xs)"
  by (induction xs) auto

locale comparator =
  fixes cmp :: "'a \<Rightarrow> 'a \<Rightarrow> num"
  assumes total: "cmp a b \<le> 0 \<or> cmp b a \<le> 0"
    and trans: "cmp a b \<le> 0 \<Longrightarrow> cmp b c \<le> 0 \<Longrightarrow> cmp a c \<le> 0"
begin

lemma ins_by_sorted:
  "sorted_wrt (\<lambda>a b. cmp a b \<le> 0) xs \<Longrightarrow> sorted_wrt (\<lambda>a b. cmp a b \<le> 0) (ins_by cmp x xs)"
proof (induction xs)
  case (Cons y ys)
  show ?case
  proof (cases "cmp x y \<le> 0")
    case True
    then show ?thesis using Cons.prems trans [of x y] by auto
  next
    case False
    then have "cmp y x \<le> 0" using total by blast
    then show ?thesis using Cons False by auto
  qed
qed simp

lemma js_sort_sorted: "sorted_wrt (\<lambda>a b. cmp a b \<le> 0) (js_sort cmp xs)"
  by (induction xs) (simp_all add: js_sort_Cons ins_by_sorted)

definition same :: "'a \<Rightarrow> 'a \<Rightarrow> bool" where
  "same a b \<longleftrightarrow> cmp a b \<le> 0 \<and> cmp b a \<le> 0"

lemma ins_by_stable:
  "filter (same a) (ins_by cmp x xs) = filter (same a) (x # xs)"
proof (induction xs)
  case (Cons y ys)
  show ?case
  proof (cases "cmp x y \<le> 0")
    case False
    then have "\<not> (same a x \<and> same a y)"
      using trans [of x a y] by (auto simp: same_def)
    then show ?thesis using Cons False by auto
  qed auto
qed simp

lemma js_sort_stable: "filter (same a) (js_sort cmp xs) = filter (same a) xs"
  by (induction xs) (simp_all add: js_sort_Cons ins_by_stable)

lemma same_refl: "same a a"
  using total [of a a] by (auto simp: same_def)

lemma sorted_stable_unique:
  assumes "sorted_wrt (\<lambda>a b. cmp a b \<le> 0) xs" "sorted_wrt (\<lambda>a b. cmp a b \<le> 0) ys"
    and "mset xs = mset ys" "\<And>a. filter (same a) xs = filter (same a) ys"
  shows "xs = ys"
  using assms
proof (induction xs arbitrary: ys)
  case Nil
  then show ?case by simp
next
  case (Cons x xs)
  then obtain y zs where ys: "ys = y # zs" by (cases ys) auto
  have "x \<in> set ys" "y \<in> set (x # xs)"
    using Cons.prems(3) ys by (metis list.set_intros(1) set_mset_mset)+
  then have "cmp y x \<le> 0" "cmp x y \<le> 0"
    using Cons.prems(1,2) ys total [of x x] by auto
  then have xy: "same x y" by (simp add: same_def)
  have "filter (same x) (x # xs) = filter (same x) (y # zs)"
    using Cons.prems(4) ys by blast
  with xy same_refl [of x] have "x = y" by simp
  moreover have "filter (same a) xs = filter (same a) zs" for a
    using Cons.prems(4) [of a] ys \<open>x = y\<close> by (simp split: if_splits)
  ultimately show ?case
    using Cons.IH [of zs] Cons.prems(1-3) ys by simp
qed

lemma js_sort_unique:
  assumes "sorted_wrt (\<lambda>a b. cmp a b \<le> 0) ys" "mset ys = mset xs"
    and "\<And>a. filter (same a) ys = filter (same a) xs"
  shows "ys = js_sort cmp xs"
proof (rule sorted_stable_unique)
  show "sorted_wrt (\<lambda>a b. cmp a b \<le> 0) (js_sort cmp xs)" by (rule js_sort_sorted)
  show "filter (same a) ys = filter (same a) (js_sort cmp xs)" for a
    by (simp add: js_sort_stable assms(3))
qed (simp_all add: assms)

end

lemma js_sort_map:
  assumes "\<And>a b. cmp' (f a) (f b) = cmp a b"
  shows "js_sort cmp' (map f xs) = map f (js_sort cmp xs)"
proof -
  have "ins_by cmp' (f x) (map f ys) = map f (ins_by cmp x ys)" for x ys
    by (induction ys) (auto simp: assms)
  then show ?thesis by (induction xs) (simp_all add: js_sort_Cons)
qed

text \<open>
  A comparator whose zero means that neither side comes first. Such comparators can be chained by
  \<^verbatim>\<open>x || y\<close> (\<open>then_cmp\<close>), and differences of numbers and projections give them.
\<close>

definition then_cmp :: "num \<Rightarrow> num \<Rightarrow> num" where
  "then_cmp a b = (if a \<noteq> 0 then a else b)"

locale consistent = comparator +
  assumes zero: "cmp a b = 0 \<longleftrightarrow> cmp a b \<le> 0 \<and> cmp b a \<le> 0"

lemma consistent_desc: "consistent (\<lambda>a b. f b - f a)" for f :: "'a \<Rightarrow> num"
  by unfold_locales auto

lemma consistent_asc: "consistent (\<lambda>a b. f a - f b)" for f :: "'a \<Rightarrow> num"
  by unfold_locales auto

lemma consistent_proj:
  assumes "consistent c"
  shows "consistent (\<lambda>a b. c (f a) (f b))"
proof -
  from assms have c: "c a b \<le> 0 \<or> c b a \<le> 0" "c a b \<le> 0 \<Longrightarrow> c b d \<le> 0 \<Longrightarrow> c a d \<le> 0"
    "c a b = 0 \<longleftrightarrow> c a b \<le> 0 \<and> c b a \<le> 0" for a b d
    by (simp_all add: consistent_def comparator_def consistent_axioms_def)
  show ?thesis by unfold_locales (use c in blast)+
qed

lemma consistent_then:
  assumes "consistent c" "consistent d"
  shows "consistent (\<lambda>a b. then_cmp (c a b) (d a b))"
proof -
  from assms have ct: "c x y \<le> 0 \<or> c y x \<le> 0" and cz: "c x y = 0 \<longleftrightarrow> c x y \<le> 0 \<and> c y x \<le> 0"
    and dt: "d x y \<le> 0 \<or> d y x \<le> 0" and dz: "d x y = 0 \<longleftrightarrow> d x y \<le> 0 \<and> d y x \<le> 0" for x y
    by (simp_all add: consistent_def comparator_def consistent_axioms_def)
  from assms have cr: "c x y \<le> 0 \<Longrightarrow> c y z \<le> 0 \<Longrightarrow> c x z \<le> 0"
    and dr: "d x y \<le> 0 \<Longrightarrow> d y z \<le> 0 \<Longrightarrow> d x z \<le> 0" for x y z
    by (auto simp: consistent_def comparator_def)
  have le: "then_cmp (c x y) (d x y) \<le> 0 \<longleftrightarrow> c x y \<le> 0 \<and> (c y x \<le> 0 \<longrightarrow> d x y \<le> 0)" for x y
    using cz [of x y] by (auto simp: then_cmp_def)
  show ?thesis
  proof
    show "then_cmp (c a b) (d a b) \<le> 0 \<or> then_cmp (c b a) (d b a) \<le> 0" for a b
      unfolding le using ct dt by blast
    show "then_cmp (c a b) (d a b) \<le> 0 \<Longrightarrow> then_cmp (c b e) (d b e) \<le> 0 \<Longrightarrow> then_cmp (c a e) (d a e) \<le> 0" for a b e
      unfolding le using cr dr by meson
    show "then_cmp (c a b) (d a b) = 0 \<longleftrightarrow> then_cmp (c a b) (d a b) \<le> 0 \<and> then_cmp (c b a) (d b a) \<le> 0" for a b
      unfolding le using cz dz by (auto simp: then_cmp_def)
  qed
qed

lemma consistent_sorted: "consistent cmp \<Longrightarrow> sorted_wrt (\<lambda>a b. cmp a b \<le> 0) (js_sort cmp xs)"
  by (simp add: consistent_def comparator.js_sort_sorted)

text \<open>The two orders of strings the sources use: by code units and by the host's collation.\<close>

definition str_cmp :: "string \<Rightarrow> string \<Rightarrow> num" where
  "str_cmp a b = (if str_less a b then -1 else if str_less b a then 1 else 0)"

locale collation =
  fixes localeCompare :: "string \<Rightarrow> string \<Rightarrow> num"
  assumes lc_total: "localeCompare a b \<le> 0 \<or> localeCompare b a \<le> 0"
    and lc_trans: "localeCompare a b \<le> 0 \<Longrightarrow> localeCompare b c \<le> 0 \<Longrightarrow> localeCompare a c \<le> 0"
    and lc_zero: "localeCompare a b = 0 \<longleftrightarrow> localeCompare a b \<le> 0 \<and> localeCompare b a \<le> 0"

sublocale collation \<subseteq> lc: consistent localeCompare
  by unfold_locales (use lc_total lc_trans lc_zero in blast)+

lemma str_less_irrefl [simp]: "\<not> str_less a a"
  by (induction a) auto

lemma str_less_trans: "str_less a b \<Longrightarrow> str_less b c \<Longrightarrow> str_less a c"
proof (induction a b arbitrary: c rule: str_less.induct)
  case (3 x xs d ds)
  then show ?case by (cases c) auto
next
  case (2 d ds)
  then show ?case by (cases c) auto
qed simp

lemma str_less_total: "str_less a b \<or> a = b \<or> str_less b a"
proof (induction a b rule: str_less.induct)
  case (1 a)
  then show ?case by (cases a) auto
next
  case (3 c cs d ds)
  then show ?case by (auto simp: linorder_neq_iff [symmetric])
qed simp

lemma str_less_asym: "str_less a b \<Longrightarrow> \<not> str_less b a"
  using str_less_trans by fastforce

lemma str_cmp_le: "str_cmp a b \<le> 0 \<longleftrightarrow> a = b \<or> str_less a b"
  using str_less_total [of a b] str_less_asym [of a b] by (auto simp: str_cmp_def)

lemma str_cmp_eq: "str_cmp a b = 0 \<longleftrightarrow> a = b"
  using str_less_total [of a b] str_less_asym [of a b] by (auto simp: str_cmp_def)

text \<open>Comparison by code units is a collation.\<close>

interpretation code_units: collation str_cmp
proof
  show "str_cmp a b \<le> 0 \<or> str_cmp b a \<le> 0" for a b
    using str_less_total [of a b] by (auto simp: str_cmp_le)
  show "str_cmp a b \<le> 0 \<Longrightarrow> str_cmp b c \<le> 0 \<Longrightarrow> str_cmp a c \<le> 0" for a b c
    using str_less_trans [of a b c] by (auto simp: str_cmp_le)
  show "str_cmp a b = 0 \<longleftrightarrow> str_cmp a b \<le> 0 \<and> str_cmp b a \<le> 0" for a b
    using str_less_asym [of a b] by (auto simp: str_cmp_le str_cmp_eq)
qed

end
