(* ===== verification/Status_Code_Rules.thy ===== *)
theory Status_Code_Rules
  imports Js_Collections
begin

text \<open>
  The rule language for HTTP status codes (\<^verbatim>\<open>web/src/lib/http-status-code-rules.ts\<close>): a comma
  separated list of codes and ranges is parsed, merged and printed back in a normal form. The
  lemmas show that merging keeps the set of covered codes, that the result is the one canonical
  list of ranges for that set, and that printing and parsing it again changes nothing.
\<close>

section \<open>The parser\<close>

record StatusCodeRange =
  start :: int
  end' :: int

record ParsedHttpStatusCodeRules =
  ok :: bool
  ranges :: "StatusCodeRange list"
  tokens :: "string list"
  normalized :: string
  invalidTokens :: "string list"

definition isValidCode :: "int \<Rightarrow> bool" where
  "isValidCode code \<longleftrightarrow> 100 \<le> code \<and> code \<le> 599"

definition parseToken :: "string \<Rightarrow> StatusCodeRange option" where
  "parseToken token =
     (let cleaned = filter (\<lambda>c. \<not> is_ws c) (trim token) in
      if cleaned = [] then None
      else if CHR ''-'' \<in> set cleaned then
        (let parts = split_on CHR ''-'' cleaned; a = parts ! 0; b = parts ! 1 in
         if \<not> all_digits a \<or> \<not> all_digits b then None
         else
           (let st = int (digits_val a); en = int (digits_val b) in
            if \<not> isValidCode st \<or> \<not> isValidCode en \<or> st > en then None
            else Some \<lparr>start = st, end' = en\<rparr>))
      else if \<not> all_digits cleaned then None
      else
        (let code = int (digits_val cleaned) in
         if \<not> isValidCode code then None else Some \<lparr>start = code, end' = code\<rparr>))"

definition range_cmp :: "StatusCodeRange \<Rightarrow> StatusCodeRange \<Rightarrow> num" where
  "range_cmp a b =
     (if start a \<noteq> start b then of_int (start a - start b) else of_int (end' a - end' b))"

definition merge_step :: "StatusCodeRange list \<Rightarrow> StatusCodeRange \<Rightarrow> StatusCodeRange list" where
  "merge_step merged current =
     (if merged = [] \<or> start current > end' (last merged) + 1 then merged @ [current]
      else butlast merged @ [(last merged)\<lparr>end' := max (end' (last merged)) (end' current)\<rparr>])"

definition mergeRanges :: "StatusCodeRange list \<Rightarrow> StatusCodeRange list" where
  "mergeRanges rs = (if rs = [] then [] else foldl merge_step [] (js_sort range_cmp rs))"

definition range_token :: "StatusCodeRange \<Rightarrow> string" where
  "range_token r =
     (if start r = end' r then int_str (start r) else int_str (start r) @ ''-'' @ int_str (end' r))"

definition fullwidth_comma :: string where
  "fullwidth_comma = [CHR 0xEF, CHR 0xBC, CHR 0x8C]"

definition segments :: "string \<Rightarrow> string list" where
  "segments raw =
     nonempty_strs (map trim (split_on CHR '','' (replace_all fullwidth_comma '','' raw)))"

definition parse_segments :: "string list \<Rightarrow> StatusCodeRange list \<times> string list" where
  "parse_segments segs =
     foldl (\<lambda>(rs, bad) seg. case parseToken seg of
              None \<Rightarrow> (rs, bad @ [seg])
            | Some r \<Rightarrow> (rs @ [r], bad)) ([], []) segs"

definition parseHttpStatusCodeRules :: "jsval \<Rightarrow> ParsedHttpStatusCodeRules" where
  "parseHttpStatusCodeRules input =
     (let raw = trim (case input of JUndefined \<Rightarrow> [] | JNull \<Rightarrow> [] | v \<Rightarrow> to_str v) in
      if raw = [] then
        \<lparr>ok = True, ranges = [], tokens = [], normalized = [], invalidTokens = []\<rparr>
      else
        (let (rs, bad) = parse_segments (segments raw) in
         if bad \<noteq> [] then
           \<lparr>ok = False, ranges = [], tokens = [], normalized = raw, invalidTokens = bad\<rparr>
         else
           (let merged = mergeRanges rs; toks = map range_token merged in
            \<lparr>ok = True, ranges = merged, tokens = toks, normalized = join '','' toks,
             invalidTokens = []\<rparr>)))"

section \<open>Covered codes and canonical range lists\<close>

definition covers :: "StatusCodeRange list \<Rightarrow> int \<Rightarrow> bool" where
  "covers rs c \<longleftrightarrow> (\<exists>r \<in> set rs. start r \<le> c \<and> c \<le> end' r)"

definition valid_range :: "StatusCodeRange \<Rightarrow> bool" where
  "valid_range r \<longleftrightarrow> 100 \<le> start r \<and> start r \<le> end' r \<and> end' r \<le> 599"

definition canonical :: "StatusCodeRange list \<Rightarrow> bool" where
  "canonical rs \<longleftrightarrow>
     (\<forall>r \<in> set rs. start r \<le> end' r) \<and> sorted_wrt (\<lambda>a b. end' a + 1 < start b) rs"

lemma covers_simps [simp]:
  "covers [] c = False"
  "covers (r # rs) c = (start r \<le> c \<and> c \<le> end' r \<or> covers rs c)"
  "covers (rs @ ts) c = (covers rs c \<or> covers ts c)"
  by (auto simp: covers_def)

lemma covers_above: "\<forall>b \<in> set rs. k < start b \<Longrightarrow> covers rs c \<Longrightarrow> k < c"
  by (auto simp: covers_def)

lemma canonical_Cons:
  "canonical (r # rs) \<longleftrightarrow>
     start r \<le> end' r \<and> (\<forall>b \<in> set rs. end' r + 1 < start b) \<and> canonical rs"
  by (auto simp: canonical_def)

lemma canonical_unique_aux:
  assumes "canonical (a # as)" "canonical (b # bs)"
    and same: "\<And>c. covers (a # as) c = covers (b # bs) c"
  shows "a = b \<and> (\<forall>c. covers as c = covers bs c)"
proof -
  have A: "start a \<le> end' a" "\<And>c. covers as c \<Longrightarrow> end' a + 1 < c"
    and B: "start b \<le> end' b" "\<And>c. covers bs c \<Longrightarrow> end' b + 1 < c"
    using assms(1,2) covers_above by (auto simp: canonical_Cons)
  have "start a \<le> start b" using same [of "start b"] A B by fastforce
  moreover have "start b \<le> start a" using same [of "start a"] A B by fastforce
  ultimately have st: "start a = start b" by simp
  have "\<not> covers (a # as) (end' a + 1)" using A(2) by fastforce
  then have "\<not> end' b > end' a" using same [of "end' a + 1"] A(1) st by auto
  moreover have "\<not> covers (b # bs) (end' b + 1)" using B(2) by fastforce
  then have "\<not> end' a > end' b" using same [of "end' b + 1"] B(1) st by auto
  ultimately have en: "end' a = end' b" by simp
  have "covers as c = covers bs c" for c
    using same [of c] A(2) [of c] B(2) [of c] st en by auto
  with st en show ?thesis by simp
qed

lemma canonical_unique:
  "canonical as \<Longrightarrow> canonical bs \<Longrightarrow> (\<And>c. covers as c = covers bs c) \<Longrightarrow> as = bs"
proof (induction as arbitrary: bs)
  case Nil
  then show ?case
    using Nil.prems(3) [of "start (hd bs)"] by (cases bs) (auto simp: canonical_Cons)
next
  case (Cons a as)
  show ?case
  proof (cases bs)
    case Nil
    with Cons.prems(1) Cons.prems(3) [of "start a"] show ?thesis by (simp add: canonical_Cons)
  next
    case bs: (Cons b bs')
    with canonical_unique_aux [of a as b bs'] Cons.prems
    have "a = b" "\<And>c. covers as c = covers bs' c" by auto
    with Cons bs show ?thesis by (simp add: canonical_Cons)
  qed
qed

section \<open>Merging\<close>

interpretation by_start: comparator range_cmp
  by unfold_locales (auto simp: range_cmp_def split: if_splits)

definition merge_inv :: "StatusCodeRange list \<Rightarrow> StatusCodeRange list \<Rightarrow> bool" where
  "merge_inv merged todo \<longleftrightarrow>
     canonical merged \<and> (\<forall>r \<in> set todo. start r \<le> end' r) \<and>
     sorted_wrt (\<lambda>a b. start a \<le> start b) todo \<and>
     (merged \<noteq> [] \<longrightarrow> (\<forall>r \<in> set todo. start (last merged) \<le> start r))"

lemma canonical_snoc:
  "canonical (rs @ [r]) \<longleftrightarrow>
     canonical rs \<and> start r \<le> end' r \<and> (\<forall>a \<in> set rs. end' a + 1 < start r)"
  by (auto simp: canonical_def sorted_wrt_append)

lemma canonical_last_bound:
  "canonical rs \<Longrightarrow> rs \<noteq> [] \<Longrightarrow> a \<in> set rs \<Longrightarrow> end' a \<le> end' (last rs)"
proof (induction rs rule: rev_induct)
  case (snoc x xs)
  then show ?case by (auto simp: canonical_snoc)
qed simp

lemma merge_step_inv:
  assumes "merge_inv merged (r # todo)"
  shows "merge_inv (merge_step merged r) todo"
proof (cases "merged = [] \<or> start r > end' (last merged) + 1")
  case True
  then have "\<forall>a \<in> set merged. end' a + 1 < start r"
    using assms canonical_last_bound [of merged] by (fastforce simp: merge_inv_def)
  with True assms show ?thesis
    by (auto simp: merge_inv_def merge_step_def canonical_snoc)
next
  case False
  then obtain ms l where m: "merged = ms @ [l]" by (metis rev_exhaust)
  with False assms show ?thesis
    by (auto simp: merge_inv_def merge_step_def canonical_snoc)
qed

lemma merge_step_covers:
  assumes "merge_inv merged (r # todo)"
  shows "covers (merge_step merged r) c = (covers merged c \<or> covers [r] c)"
proof (cases "merged = [] \<or> start r > end' (last merged) + 1")
  case True
  then show ?thesis by (auto simp: merge_step_def)
next
  case False
  then obtain ms l where m: "merged = ms @ [l]" by (metis rev_exhaust)
  with False assms show ?thesis
    by (auto simp: merge_inv_def merge_step_def canonical_snoc)
qed

lemma merge_fold:
  "merge_inv merged todo \<Longrightarrow>
     canonical (foldl merge_step merged todo) \<and>
     covers (foldl merge_step merged todo) c = (covers merged c \<or> covers todo c)"
proof (induction todo arbitrary: merged)
  case Nil
  then show ?case by (simp add: merge_inv_def)
next
  case (Cons r todo)
  from Cons.IH [OF merge_step_inv [OF Cons.prems]] merge_step_covers [OF Cons.prems, of c]
  show ?case by auto
qed

lemma range_sorted_starts:
  "sorted_wrt (\<lambda>a b. start a \<le> start b) (js_sort range_cmp rs)"
  by (rule sorted_wrt_mono_rel [OF _ by_start.js_sort_sorted])
     (auto simp: range_cmp_def split: if_splits)

lemma covers_js_sort [simp]: "covers (js_sort cmp rs) c = covers rs c"
  by (simp add: covers_def)

lemma mergeRanges_correct:
  assumes "\<forall>r \<in> set rs. start r \<le> end' r"
  shows "canonical (mergeRanges rs)" and "covers (mergeRanges rs) c = covers rs c"
proof -
  have "merge_inv [] (js_sort range_cmp rs)"
    using assms range_sorted_starts by (simp add: merge_inv_def canonical_def)
  from merge_fold [OF this, of c]
  show "canonical (mergeRanges rs)" "covers (mergeRanges rs) c = covers rs c"
    by (auto simp: mergeRanges_def canonical_def)
qed

section \<open>Parsing and printing tokens\<close>

lemma parseToken_valid: "parseToken t = Some r \<Longrightarrow> valid_range r"
  by (auto simp: parseToken_def Let_def isValidCode_def valid_range_def split: if_splits)

lemma mergeRanges_valid:
  assumes "\<forall>r \<in> set rs. valid_range r" and "r \<in> set (mergeRanges rs)"
  shows "valid_range r"
proof -
  have le: "\<forall>r \<in> set rs. start r \<le> end' r" using assms(1) by (simp add: valid_range_def)
  have "start r \<le> end' r" using mergeRanges_correct(1) [OF le] assms(2) by (simp add: canonical_def)
  then have "covers (mergeRanges rs) (start r)" "covers (mergeRanges rs) (end' r)"
    using assms(2) by (auto simp: covers_def)
  then have "covers rs (start r)" "covers rs (end' r)"
    by (simp_all add: mergeRanges_correct(2) [OF le])
  with assms(1) \<open>start r \<le> end' r\<close> show ?thesis
    by (fastforce simp: covers_def valid_range_def)
qed

lemma int_str_nonneg: "0 \<le> i \<Longrightarrow> int_str i = nat_str (nat i)"
  by (simp add: int_str_def)

lemma is_digit_neq: "is_digit c \<Longrightarrow> c \<noteq> CHR ''-'' \<and> c \<noteq> CHR '','' \<and> c \<noteq> CHR 0xEF"
  by (auto simp: is_digit_def)

lemma nat_str_free:
  "CHR ''-'' \<notin> set (nat_str n)" "CHR '','' \<notin> set (nat_str n)" "CHR 0xEF \<notin> set (nat_str n)"
  using nat_str_chars is_digit_neq by blast+

lemma range_token_shape:
  assumes "valid_range r"
  shows "range_token r =
    (if start r = end' r then nat_str (nat (start r))
     else nat_str (nat (start r)) @ CHR ''-'' # nat_str (nat (end' r)))"
  using assms by (simp add: range_token_def int_str_nonneg valid_range_def)

lemma range_token_chars:
  assumes "valid_range r" and "c \<in> set (range_token r)"
  shows "is_digit c \<or> c = CHR ''-''"
  using assms nat_str_chars by (auto simp: range_token_shape split: if_splits)

lemma range_token_clean:
  assumes "valid_range r"
  shows "\<forall>c \<in> set (range_token r). \<not> is_ws c \<and> c \<noteq> CHR '','' \<and> c \<noteq> CHR 0xEF"
proof
  fix c assume "c \<in> set (range_token r)"
  with range_token_chars [OF assms] have "is_digit c \<or> c = CHR ''-''" .
  then show "\<not> is_ws c \<and> c \<noteq> CHR '','' \<and> c \<noteq> CHR 0xEF"
    using is_digit_not_ws is_digit_neq by (auto simp: is_ws_def)
qed

lemma range_token_not_Nil: "valid_range r \<Longrightarrow> range_token r \<noteq> []"
  by (simp add: range_token_shape)

lemma trim_range_token: "valid_range r \<Longrightarrow> trim (range_token r) = range_token r"
  using range_token_clean by (intro trim_id) blast

lemma parseToken_range_token:
  assumes "valid_range r"
  shows "parseToken (range_token r) = Some r"
proof -
  have clean: "filter (\<lambda>c. \<not> is_ws c) (trim (range_token r)) = range_token r"
    using range_token_clean [OF assms] by (simp add: trim_range_token [OF assms] filter_id_conv)
  show ?thesis
    unfolding parseToken_def clean Let_def
    using assms by (cases r)
      (auto simp: range_token_shape split_on_append split_on_no_sep nat_str_free
        isValidCode_def valid_range_def)
qed

section \<open>The whole parser\<close>

lemma parse_segments_eq:
  "parse_segments segs =
     (List.map_filter parseToken segs, filter (\<lambda>s. parseToken s = None) segs)"
proof -
  have "foldl (\<lambda>(rs, bad) seg. case parseToken seg of
              None \<Rightarrow> (rs, bad @ [seg]) | Some r \<Rightarrow> (rs @ [r], bad)) (rs, bad) segs =
     (rs @ List.map_filter parseToken segs, bad @ filter (\<lambda>s. parseToken s = None) segs)" for rs bad
    by (induction segs arbitrary: rs bad) (auto simp: map_filter_simps split: option.split)
  then show ?thesis by (simp add: parse_segments_def)
qed

definition raw_rules :: "jsval \<Rightarrow> string" where
  "raw_rules input = trim (case input of JUndefined \<Rightarrow> [] | JNull \<Rightarrow> [] | v \<Rightarrow> to_str v)"

lemma raw_rules_simps [simp]: "raw_rules (JStr s) = trim s"
  by (simp add: raw_rules_def)

lemma segments_Nil [simp]: "segments [] = []"
  by (simp add: segments_def replace_all.simps)

lemma mergeRanges_Nil [simp]: "mergeRanges [] = []"
  by (simp add: mergeRanges_def)

lemma parse_rules_eq:
  "parseHttpStatusCodeRules input =
     (let segs = segments (raw_rules input); bad = filter (\<lambda>s. parseToken s = None) segs;
          merged = mergeRanges (List.map_filter parseToken segs) in
      if bad \<noteq> [] then
        \<lparr>ok = False, ranges = [], tokens = [], normalized = raw_rules input, invalidTokens = bad\<rparr>
      else
        \<lparr>ok = True, ranges = merged, tokens = map range_token merged,
         normalized = join '','' (map range_token merged), invalidTokens = []\<rparr>)"
  by (simp add: parseHttpStatusCodeRules_def raw_rules_def [symmetric] parse_segments_eq Let_def
      map_filter_simps)

lemma parsed_tokens_valid: "\<forall>r \<in> set (List.map_filter parseToken segs). valid_range r"
  by (auto simp: List.map_filter_def intro: parseToken_valid)

lemma parsed_tokens_le: "\<forall>r \<in> set (List.map_filter parseToken segs). start r \<le> end' r"
  using parsed_tokens_valid by (auto simp: valid_range_def)

lemma ok_ranges:
  assumes "ok (parseHttpStatusCodeRules input)"
  shows "ranges (parseHttpStatusCodeRules input) =
      mergeRanges (List.map_filter parseToken (segments (raw_rules input)))"
    and "normalized (parseHttpStatusCodeRules input) =
      join '','' (map range_token (ranges (parseHttpStatusCodeRules input)))"
  using assms by (simp_all add: parse_rules_eq Let_def split: if_splits)

lemma ok_canonical:
  assumes "ok (parseHttpStatusCodeRules input)"
  shows "canonical (ranges (parseHttpStatusCodeRules input))"
    and "\<forall>r \<in> set (ranges (parseHttpStatusCodeRules input)). valid_range r"
  using mergeRanges_correct(1) [OF parsed_tokens_le] mergeRanges_valid [OF parsed_tokens_valid]
  by (auto simp: ok_ranges(1) [OF assms])

lemma join_chars:
  "c \<in> set (join sep xs) \<Longrightarrow> c \<in> set sep \<or> (\<exists>x \<in> set xs. c \<in> set x)"
  by (induction sep xs rule: join.induct) auto

lemma join_tokens_props:
  assumes "\<forall>r \<in> set rs. valid_range r"
  shows "trim (join '','' (map range_token rs)) = join '','' (map range_token rs)"
    and "CHR 0xEF \<notin> set (join '','' (map range_token rs))"
proof -
  have clean: "\<not> is_ws c \<and> c \<noteq> CHR 0xEF" if "c \<in> set (join '','' (map range_token rs))" for c
  proof -
    from join_chars [OF that] have "c = CHR '','' \<or> (\<exists>r \<in> set rs. c \<in> set (range_token r))"
      by simp
    then show ?thesis
      using assms range_token_clean by (auto simp: is_ws_def)
  qed
  then show "trim (join '','' (map range_token rs)) = join '','' (map range_token rs)"
    by (intro trim_id) blast
  show "CHR 0xEF \<notin> set (join '','' (map range_token rs))" using clean by blast
qed

lemma segments_join_tokens:
  assumes "\<forall>r \<in> set rs. valid_range r"
  shows "segments (join '','' (map range_token rs)) = map range_token rs"
proof (cases "rs = []")
  case False
  have "split_on CHR '','' (join [CHR '',''] (map range_token rs)) = map range_token rs"
    using assms False range_token_clean by (intro split_on_join) auto
  then show ?thesis
    using assms join_tokens_props(2) [OF assms]
    by (simp add: segments_def fullwidth_comma_def replace_all_id trim_range_token
        range_token_not_Nil o_def filter_id_conv cong: map_cong)
qed (simp add: segments_def replace_all.simps)

lemma map_filter_tokens:
  assumes "\<forall>r \<in> set rs. valid_range r"
  shows "List.map_filter parseToken (map range_token rs) = rs"
  using assms by (induction rs) (simp_all add: map_filter_simps parseToken_range_token)

lemma mergeRanges_canonical: "canonical rs \<Longrightarrow> mergeRanges rs = rs"
  using mergeRanges_correct [of rs] by (intro canonical_unique) (auto simp: canonical_def)

section \<open>Properties\<close>

text \<open>
  C1: an accepted rule string yields ranges inside 100..599 that are sorted, disjoint and not
  adjacent, and a status code is covered by them exactly when one of the comma separated tokens
  covers it: merging neither loses nor adds a code.
\<close>

theorem rules_cover_exactly:
  assumes "ok (parseHttpStatusCodeRules input)"
  shows "canonical (ranges (parseHttpStatusCodeRules input)) \<and>
    (\<forall>r \<in> set (ranges (parseHttpStatusCodeRules input)). valid_range r) \<and>
    covers (ranges (parseHttpStatusCodeRules input)) c =
      (\<exists>seg \<in> set (segments (raw_rules input)). \<exists>r. parseToken seg = Some r \<and> start r \<le> c \<and> c \<le> end' r)"
proof -
  have "covers (ranges (parseHttpStatusCodeRules input)) c =
      covers (List.map_filter parseToken (segments (raw_rules input))) c"
    by (simp add: ok_ranges(1) [OF assms] mergeRanges_correct(2) [OF parsed_tokens_le])
  then show ?thesis
    using ok_canonical [OF assms] by (force simp: covers_def List.map_filter_def)
qed

theorem rules_cover_exactly_witness:
  "ok (parseHttpStatusCodeRules (JStr ''500-502, 429,503'')) \<and>
   covers (ranges (parseHttpStatusCodeRules (JStr ''500-502, 429,503''))) 503"
proof -
  have ok: "ok (parseHttpStatusCodeRules (JStr ''500-502, 429,503''))" by code_simp
  have "\<exists>seg \<in> set (segments (raw_rules (JStr ''500-502, 429,503''))).
      \<exists>r. parseToken seg = Some r \<and> start r \<le> 503 \<and> 503 \<le> end' r"
  proof (intro bexI exI conjI)
    show "parseToken ''503'' = Some \<lparr>start = 503, end' = 503\<rparr>" by code_simp
    show "''503'' \<in> set (segments (raw_rules (JStr ''500-502, 429,503'')))" by code_simp
  qed simp_all
  with rules_cover_exactly [OF ok, of 503] ok show ?thesis by blast
qed

text \<open>
  C13: the printed form is canonical. Two accepted rule strings that cover the same status codes
  normalise to the same string.
\<close>

theorem normalized_is_canonical:
  assumes "ok (parseHttpStatusCodeRules a)" "ok (parseHttpStatusCodeRules b)"
    and "\<forall>c. covers (ranges (parseHttpStatusCodeRules a)) c = covers (ranges (parseHttpStatusCodeRules b)) c"
  shows "normalized (parseHttpStatusCodeRules a) = normalized (parseHttpStatusCodeRules b)"
proof -
  have "ranges (parseHttpStatusCodeRules a) = ranges (parseHttpStatusCodeRules b)"
    using assms(3) ok_canonical(1) [OF assms(1)] ok_canonical(1) [OF assms(2)]
    by (intro canonical_unique) auto
  then show ?thesis by (simp add: ok_ranges(2) [OF assms(1)] ok_ranges(2) [OF assms(2)])
qed

theorem normalized_is_canonical_witness:
  "normalized (parseHttpStatusCodeRules (JStr ''502,500-501'')) =
   normalized (parseHttpStatusCodeRules (JStr ''500-502''))"
proof (rule normalized_is_canonical)
  show "ok (parseHttpStatusCodeRules (JStr ''502,500-501''))" by code_simp
  show "ok (parseHttpStatusCodeRules (JStr ''500-502''))" by code_simp
  have "ranges (parseHttpStatusCodeRules (JStr ''502,500-501'')) =
      ranges (parseHttpStatusCodeRules (JStr ''500-502''))" by code_simp
  then show "\<forall>c. covers (ranges (parseHttpStatusCodeRules (JStr ''502,500-501''))) c =
      covers (ranges (parseHttpStatusCodeRules (JStr ''500-502''))) c" by simp
qed

text \<open>
  C14: printing and parsing again is the identity: feeding the normalised string of an accepted
  input back to the parser gives the same result record.
\<close>

theorem parse_normalized_idempotent:
  assumes "ok (parseHttpStatusCodeRules input)"
  shows "parseHttpStatusCodeRules (JStr (normalized (parseHttpStatusCodeRules input))) =
    parseHttpStatusCodeRules input"
proof -
  let ?rs = "ranges (parseHttpStatusCodeRules input)"
  note can = ok_canonical [OF assms]
  have raw: "raw_rules (JStr (join '','' (map range_token ?rs))) = join '','' (map range_token ?rs)"
    by (simp add: join_tokens_props(1) [OF can(2)])
  have none: "filter (\<lambda>s. parseToken s = None) (map range_token ?rs) = []"
    using can(2) by (auto simp: filter_empty_conv parseToken_range_token)
  have "parseHttpStatusCodeRules (JStr (normalized (parseHttpStatusCodeRules input))) =
     \<lparr>ok = True, ranges = ?rs, tokens = map range_token ?rs,
      normalized = join '','' (map range_token ?rs), invalidTokens = []\<rparr>"
    unfolding ok_ranges(2) [OF assms] parse_rules_eq [of "JStr _"] raw
    by (simp add: segments_join_tokens [OF can(2)] none map_filter_tokens [OF can(2)]
        mergeRanges_canonical [OF can(1)] Let_def)
  also have "\<dots> = parseHttpStatusCodeRules input"
    using assms by (auto simp: parse_rules_eq Let_def split: if_splits)
  finally show ?thesis .
qed

theorem parse_normalized_idempotent_witness:
  "ok (parseHttpStatusCodeRules (JStr ''401, 400 - 402'')) \<and>
   parseHttpStatusCodeRules (JStr (normalized (parseHttpStatusCodeRules (JStr ''401, 400 - 402'')))) =
     parseHttpStatusCodeRules (JStr ''401, 400 - 402'')"
proof -
  have "ok (parseHttpStatusCodeRules (JStr ''401, 400 - 402''))" by code_simp
  with parse_normalized_idempotent [OF this] show ?thesis by blast
qed



end
