(* ===== verification/Auth_Store.thy ===== *)
theory Auth_Store
  imports Js_Prelude
begin

text \<open>
  The authentication store of one browser tab (\<^verbatim>\<open>web/src/stores/auth-store.ts\<close>) and the guards
  that decide whether a value received from the server is a credential bundle or a token rotation
  (\<^verbatim>\<open>web/src/lib/auth-session.ts\<close>). A guard of the source narrows an object without copying it;
  here \<open>as_AuthUser\<close>, \<open>as_LoginSession\<close>, \<open>as_AuthBundle\<close> and \<open>as_AuthTokenRotation\<close> give the
  narrowed view, and are defined exactly where the guard holds.
\<close>

section \<open>Data\<close>

record AuthUser =
  uid :: num
  username :: string
  role :: jsnum
  user_object :: jsval \<comment> \<open>the object itself, with its optional fields\<close>

record LoginSession =
  sid :: string
  current :: bool
  login_method :: string
  ip :: string
  user_agent :: string
  created_at :: jsnum
  last_active_at :: jsnum
  expires_at :: jsnum

record AuthBundle =
  access_token :: string
  token_type :: string
  access_expires_at :: num
  bundle_user :: AuthUser
  bundle_session :: LoginSession

record AuthTokenRotation =
  rot_access_token :: string
  rot_token_type :: string
  rot_access_expires_at :: num
  rot_session :: LoginSession

datatype AuthBootstrapState = Idle | Checking | Complete

record AuthStore =
  user :: "AuthUser option"
  accessToken :: "string option"
  accessExpiresAt :: "num option"
  session :: "LoginSession option"
  bootstrapState :: AuthBootstrapState

definition initial_store :: AuthStore where
  "initial_store = \<lparr>user = None, accessToken = None, accessExpiresAt = None, session = None,
     bootstrapState = Idle\<rparr>"

definition setBundle :: "AuthBundle \<Rightarrow> AuthStore \<Rightarrow> AuthStore" where
  "setBundle bundle s = s\<lparr>user := Some (bundle_user bundle), accessToken := Some (access_token bundle),
     accessExpiresAt := Some (access_expires_at bundle), session := Some (bundle_session bundle),
     bootstrapState := Complete\<rparr>"

definition setUser :: "AuthUser option \<Rightarrow> AuthStore \<Rightarrow> AuthStore" where
  "setUser u s = s\<lparr>user := u\<rparr>"

definition setBootstrapState :: "AuthBootstrapState \<Rightarrow> AuthStore \<Rightarrow> AuthStore" where
  "setBootstrapState b s = s\<lparr>bootstrapState := b\<rparr>"

definition reset :: "AuthBootstrapState \<Rightarrow> AuthStore \<Rightarrow> AuthStore" where
  "reset b s = s\<lparr>user := None, accessToken := None, accessExpiresAt := None, session := None,
     bootstrapState := b\<rparr>"

section \<open>Guards\<close>

definition isRecord :: "jsval \<Rightarrow> bool" where
  "isRecord v \<longleftrightarrow> truthy v \<and> typeof_object v"

fun str_of :: "jsval \<Rightarrow> string" where
  "str_of (JStr s) = s"
| "str_of _ = []"

fun num_of :: "jsval \<Rightarrow> jsnum" where
  "num_of (JNum n) = n"
| "num_of _ = NaN"

fun fin_of :: "jsval \<Rightarrow> num" where
  "fin_of (JNum (Fin r)) = r"
| "fin_of _ = 0"

fun isInteger :: "jsval \<Rightarrow> bool" where
  "isInteger (JNum (Fin r)) = (of_int \<lfloor>r\<rfloor> = r)"
| "isInteger _ = False"

fun isFiniteNum :: "jsval \<Rightarrow> bool" where
  "isFiniteNum (JNum (Fin r)) = True"
| "isFiniteNum _ = False"

definition isAuthUser :: "jsval \<Rightarrow> bool" where
  "isAuthUser v \<longleftrightarrow>
     isRecord v \<and> isInteger (field v ''id'') \<and> fin_of (field v ''id'') > 0 \<and>
     is_string (field v ''username'') \<and> is_number (field v ''role'')"

definition isLoginSession :: "jsval \<Rightarrow> bool" where
  "isLoginSession v \<longleftrightarrow>
     isRecord v \<and> is_string (field v ''sid'') \<and> str_of (field v ''sid'') \<noteq> [] \<and>
     is_boolean (field v ''current'') \<and> is_string (field v ''login_method'') \<and>
     is_string (field v ''ip'') \<and> is_string (field v ''user_agent'') \<and>
     is_number (field v ''created_at'') \<and> is_number (field v ''last_active_at'') \<and>
     is_number (field v ''expires_at'')"

definition hasValidTokenFields :: "jsval \<Rightarrow> bool" where
  "hasValidTokenFields v \<longleftrightarrow>
     is_string (field v ''access_token'') \<and> str_of (field v ''access_token'') \<noteq> [] \<and>
     is_string (field v ''token_type'') \<and> str_of (field v ''token_type'') \<noteq> [] \<and>
     is_number (field v ''access_expires_at'') \<and> isFiniteNum (field v ''access_expires_at'') \<and>
     fin_of (field v ''access_expires_at'') > 0"

definition isAuthBundle :: "jsval \<Rightarrow> bool" where
  "isAuthBundle v \<longleftrightarrow>
     isRecord v \<and> hasValidTokenFields v \<and> isAuthUser (field v ''user'') \<and>
     isLoginSession (field v ''session'')"

definition isAuthTokenRotation :: "jsval \<Rightarrow> bool" where
  "isAuthTokenRotation v \<longleftrightarrow>
     isRecord v \<and> hasValidTokenFields v \<and> field v ''token_type'' = JStr ''Bearer'' \<and>
     isLoginSession (field v ''session'') \<and> truthy (field (field v ''session'') ''current'')"

definition as_AuthUser :: "jsval \<Rightarrow> AuthUser" where
  "as_AuthUser v = \<lparr>uid = fin_of (field v ''id''), username = str_of (field v ''username''),
     role = num_of (field v ''role''), user_object = v\<rparr>"

definition as_LoginSession :: "jsval \<Rightarrow> LoginSession" where
  "as_LoginSession v = \<lparr>sid = str_of (field v ''sid''), current = truthy (field v ''current''),
     login_method = str_of (field v ''login_method''), ip = str_of (field v ''ip''),
     user_agent = str_of (field v ''user_agent''), created_at = num_of (field v ''created_at''),
     last_active_at = num_of (field v ''last_active_at''), expires_at = num_of (field v ''expires_at'')\<rparr>"

definition as_AuthBundle :: "jsval \<Rightarrow> AuthBundle option" where
  "as_AuthBundle v =
     (if isAuthBundle v then
        Some \<lparr>access_token = str_of (field v ''access_token''),
          token_type = str_of (field v ''token_type''),
          access_expires_at = fin_of (field v ''access_expires_at''),
          bundle_user = as_AuthUser (field v ''user''),
          bundle_session = as_LoginSession (field v ''session'')\<rparr>
      else None)"

definition as_AuthTokenRotation :: "jsval \<Rightarrow> AuthTokenRotation option" where
  "as_AuthTokenRotation v =
     (if isAuthTokenRotation v then
        Some \<lparr>rot_access_token = str_of (field v ''access_token''),
          rot_token_type = str_of (field v ''token_type''),
          rot_access_expires_at = fin_of (field v ''access_expires_at''),
          rot_session = as_LoginSession (field v ''session'')\<rparr>
      else None)"

section \<open>Well-formed credentials\<close>

definition bundle_wf :: "AuthBundle \<Rightarrow> bool" where
  "bundle_wf b \<longleftrightarrow> access_token b \<noteq> [] \<and> access_expires_at b > 0 \<and> sid (bundle_session b) \<noteq> []"

text \<open>
  Token, expiry and session of the store come and go together, and are never empty. The user may
  be replaced on its own (\<open>setUser\<close>), so it is not part of the invariant.
\<close>

definition store_wf :: "AuthStore \<Rightarrow> bool" where
  "store_wf s \<longleftrightarrow>
     (accessToken s = None \<and> accessExpiresAt s = None \<and> session s = None) \<or>
     (\<exists>tok ex se. accessToken s = Some tok \<and> tok \<noteq> [] \<and> accessExpiresAt s = Some ex \<and> ex > 0 \<and>
        session s = Some se \<and> sid se \<noteq> [])"

lemma as_AuthBundle_wf: "as_AuthBundle v = Some b \<Longrightarrow> bundle_wf b"
  by (auto simp: as_AuthBundle_def isAuthBundle_def hasValidTokenFields_def isLoginSession_def
      bundle_wf_def as_LoginSession_def split: if_splits)

lemma as_AuthTokenRotation_props:
  assumes "as_AuthTokenRotation v = Some r"
  shows "rot_access_token r \<noteq> []" "rot_token_type r = ''Bearer''" "rot_access_expires_at r > 0"
    "sid (rot_session r) \<noteq> []" "current (rot_session r)"
  using assms
  by (auto simp: as_AuthTokenRotation_def isAuthTokenRotation_def hasValidTokenFields_def
      isLoginSession_def as_LoginSession_def split: if_splits)

lemma store_wf_initial [simp]: "store_wf initial_store"
  by (simp add: store_wf_def initial_store_def)

lemma store_wf_setBundle [simp]: "bundle_wf b \<Longrightarrow> store_wf (setBundle b s)"
  by (simp add: store_wf_def setBundle_def bundle_wf_def)

lemma store_wf_setUser [simp]: "store_wf (setUser u s) = store_wf s"
  by (simp add: store_wf_def setUser_def)

lemma store_wf_setBootstrapState [simp]: "store_wf (setBootstrapState b s) = store_wf s"
  by (simp add: store_wf_def setBootstrapState_def)

lemma store_wf_reset [simp]: "store_wf (reset b s)"
  by (simp add: store_wf_def reset_def)

lemmas store_ops = setBundle_def setUser_def setBootstrapState_def reset_def

end
