(* ===== verification/Auth_Session.thy ===== *)
theory Auth_Session
  imports Auth_Store
begin

text \<open>
  Session coordination of one tab: \<^verbatim>\<open>web/src/lib/auth-session.ts\<close>, the cross-tab messages of
  \<^verbatim>\<open>web/src/lib/auth-session-sync.ts\<close> and the subscriber of \<^verbatim>\<open>web/src/routes/__root.tsx\<close>. The
  state \<open>Tab\<close> holds the store, the module variables \<^verbatim>\<open>authEpoch\<close> and \<^verbatim>\<open>refreshPromise\<close>, the
  messages published to other tabs and the query cache. The asynchronous refresh is a process
  with a program counter: it is suspended where the source awaits the browser lock, the response
  of the server or a timer, and any other operation of the tab may run in between.
\<close>

section \<open>State\<close>

datatype sync_kind = Authenticated_event | Signed_out_event

datatype transient_cause = Superseded | Cause jsval

datatype RefreshOutcome =
    Authenticated AuthBundle
  | Anonymous
  | Transient_error transient_cause
  | Out_of_sync "string option"

record AuthRefreshHTTPResponse =
  status :: nat
  data :: jsval
  error :: jsval

datatype promise = Resolved RefreshOutcome | Rejected jsval

datatype run_pc =
    Lock_wait
  | Await_response nat bool
  | Sleep nat bool
  | Settled promise

record Run =
  refreshEpoch :: nat
  pc :: run_pc
  sent :: "string option list" \<comment> \<open>the expected session of every request, oldest first\<close>

record Tab =
  auth :: AuthStore
  authEpoch :: nat
  refreshPromise :: "Run option"
  published :: "(sync_kind \<times> string) list"
  queryCache :: "string list"

definition initial_tab :: Tab where
  "initial_tab = \<lparr>auth = initial_store, authEpoch = 0, refreshPromise = None, published = [],
     queryCache = []\<rparr>"

section \<open>Cross-tab messages\<close>

definition publishAuthSessionEvent :: "sync_kind \<Rightarrow> string \<Rightarrow> Tab \<Rightarrow> Tab" where
  "publishAuthSessionEvent k s t = (if s = [] then t else t\<lparr>published := published t @ [(k, s)]\<rparr>)"

text \<open>The object that is posted for a published message.\<close>

definition sync_message :: "string \<Rightarrow> string \<Rightarrow> num \<Rightarrow> sync_kind \<times> string \<Rightarrow> jsval" where
  "sync_message authSyncSource nonce now e =
     JObj [(''kind'', JStr (case fst e of Authenticated_event \<Rightarrow> ''authenticated''
                            | Signed_out_event \<Rightarrow> ''signed_out'')),
           (''sid'', JStr (snd e)), (''source'', JStr authSyncSource), (''nonce'', JStr nonce),
           (''timestamp'', JNum (Fin now))]"

definition isAuthSessionSyncEvent :: "jsval \<Rightarrow> bool" where
  "isAuthSessionSyncEvent v \<longleftrightarrow>
     truthy v \<and> typeof_object v \<and>
     (field v ''kind'' = JStr ''authenticated'' \<or> field v ''kind'' = JStr ''signed_out'') \<and>
     is_string (field v ''sid'') \<and> str_of (field v ''sid'') \<noteq> [] \<and>
     is_string (field v ''source'') \<and> is_string (field v ''nonce'') \<and>
     is_number (field v ''timestamp'')"

text \<open>
  \<^verbatim>\<open>deliver\<close>: what a subscriber of tab \<open>me\<close> sees of a message at time \<open>now\<close> (milliseconds). The
  difference with a timestamp that is not finite is not below the limit.
\<close>

definition deliver :: "string \<Rightarrow> num \<Rightarrow> jsval \<Rightarrow> (sync_kind \<times> string) option" where
  "deliver me now v =
     (if isAuthSessionSyncEvent v \<and> field v ''source'' \<noteq> JStr me \<and>
         isFiniteNum (field v ''timestamp'') \<and> \<bar>now - fin_of (field v ''timestamp'')\<bar> < 60000
      then Some (if field v ''kind'' = JStr ''authenticated'' then Authenticated_event
                 else Signed_out_event, str_of (field v ''sid''))
      else None)"

section \<open>Operations on the session\<close>

abbreviation current_sid :: "Tab \<Rightarrow> string option" where
  "current_sid t \<equiv> map_option sid (session (auth t))"

definition applyAuthBundle :: "AuthBundle \<Rightarrow> bool \<Rightarrow> Tab \<Rightarrow> Tab" where
  "applyAuthBundle bundle synchronizeTabs t =
     (let previousSID = current_sid t;
          t' = t\<lparr>authEpoch := authEpoch t + 1, auth := setBundle bundle (auth t)\<rparr> in
      if synchronizeTabs \<and> previousSID \<noteq> Some (sid (bundle_session bundle))
      then publishAuthSessionEvent Authenticated_event (sid (bundle_session bundle)) t'
      else t')"

datatype AuthRotationError =
    Invalid_rotation_response
  | Rotation_no_active_session
  | Rotation_session_mismatch

definition applyAuthRotation :: "jsval \<Rightarrow> Tab \<Rightarrow> AuthRotationError + Tab" where
  "applyAuthRotation value t =
     (case as_AuthTokenRotation value of
        None \<Rightarrow> Inl Invalid_rotation_response
      | Some r \<Rightarrow>
          (case (user (auth t), session (auth t)) of
             (Some u, Some se) \<Rightarrow>
               if sid (rot_session r) \<noteq> sid se then Inl Rotation_session_mismatch
               else Inr (applyAuthBundle
                 \<lparr>access_token = rot_access_token r, token_type = rot_token_type r,
                  access_expires_at = rot_access_expires_at r, bundle_user = u,
                  bundle_session = rot_session r\<rparr> False t)
           | _ \<Rightarrow> Inl Rotation_no_active_session))"

definition clearAuthentication :: "bool \<Rightarrow> AuthBootstrapState \<Rightarrow> Tab \<Rightarrow> Tab" where
  "clearAuthentication synchronizeTabs b t =
     (let s = current_sid t;
          t' = t\<lparr>authEpoch := authEpoch t + 1, auth := reset b (auth t)\<rparr> in
      case s of
        None \<Rightarrow> t'
      | Some s' \<Rightarrow> if synchronizeTabs \<and> s' \<noteq> [] then publishAuthSessionEvent Signed_out_event s' t' else t')"

definition clearAuthenticatedClientState :: "bool \<Rightarrow> Tab \<Rightarrow> Tab" where
  "clearAuthenticatedClientState synchronizeTabs t =
     clearAuthentication synchronizeTabs Complete (t\<lparr>queryCache := []\<rparr>)"

text \<open>
  The subscriber of the root route. A reload of the page starts from the initial tab; navigation
  is not modelled.
\<close>

definition on_sync_event :: "sync_kind \<times> string \<Rightarrow> Tab \<Rightarrow> Tab \<times> bool" where
  "on_sync_event e t =
     (case e of
        (Authenticated_event, s) \<Rightarrow>
          if Some s = current_sid t then (t, False)
          else ((if current_sid t \<noteq> None \<and> current_sid t \<noteq> Some []
                 then clearAuthentication False Complete t else t), True)
      | (Signed_out_event, s) \<Rightarrow>
          if current_sid t \<noteq> None \<and> current_sid t \<noteq> Some [] \<and> Some s = current_sid t
          then (clearAuthenticatedClientState False t, False) else (t, False))"

section \<open>The refresh process\<close>

definition refreshRaceDelays :: "nat list" where
  "refreshRaceDelays = [80, 200, 500]"

definition isCurrent :: "Tab \<Rightarrow> Run \<Rightarrow> bool" where
  "isCurrent t r \<longleftrightarrow> authEpoch t = refreshEpoch r"

definition superseded :: promise where
  "superseded = Resolved (Transient_error Superseded)"

text \<open>The callback \<^verbatim>\<open>clear\<close> that \<^verbatim>\<open>runRefresh\<close> hands to the runner.\<close>

definition runtime_clear :: "bool \<Rightarrow> AuthBootstrapState option \<Rightarrow> Tab \<Rightarrow> Tab" where
  "runtime_clear synchronizeTabs b t =
     (if \<not> synchronizeTabs \<and> b = Some Idle then t\<lparr>auth := reset Idle (auth t)\<rparr>
      else clearAuthentication synchronizeTabs (case b of None \<Rightarrow> Complete | Some b' \<Rightarrow> b') t)"

text \<open>\<^verbatim>\<open>run(raceAttempt, allowMismatchRetry)\<close> up to the point where it awaits the response.\<close>

definition run_enter :: "nat \<Rightarrow> bool \<Rightarrow> Tab \<Rightarrow> Run \<Rightarrow> Run" where
  "run_enter raceAttempt allowMismatchRetry t r =
     (if \<not> isCurrent t r then r\<lparr>pc := Settled superseded\<rparr>
      else r\<lparr>pc := Await_response raceAttempt allowMismatchRetry, sent := sent r @ [current_sid t]\<rparr>)"

definition response_code :: "AuthRefreshHTTPResponse \<Rightarrow> string option" where
  "response_code resp =
     (if isRecord (data resp) \<and> is_string (field (data resp) ''code'')
      then Some (str_of (field (data resp) ''code'')) else None)"

definition response_bundle :: "AuthRefreshHTTPResponse \<Rightarrow> AuthBundle option" where
  "response_bundle resp =
     as_AuthBundle (if isRecord (data resp) then field (data resp) ''data'' else JUndefined)"

definition response_success :: "AuthRefreshHTTPResponse \<Rightarrow> bool" where
  "response_success resp \<longleftrightarrow> isRecord (data resp) \<and> field (data resp) ''success'' = JBool True"

definition nullish_or :: "jsval \<Rightarrow> jsval \<Rightarrow> jsval" where
  "nullish_or a b = (case a of JUndefined \<Rightarrow> b | JNull \<Rightarrow> b | _ \<Rightarrow> a)"

definition settle_with :: "RefreshOutcome \<Rightarrow> Run \<Rightarrow> Run" where
  "settle_with outcome r = r\<lparr>pc := Settled (Resolved outcome)\<rparr>"

text \<open>The rest of \<^verbatim>\<open>run\<close>, from the response on.\<close>

definition run_resume :: "nat \<Rightarrow> bool \<Rightarrow> AuthRefreshHTTPResponse \<Rightarrow> Tab \<Rightarrow> Run \<Rightarrow> Tab \<times> Run" where
  "run_resume raceAttempt allowMismatchRetry resp t r =
     (if \<not> isCurrent t r then (t, r\<lparr>pc := Settled superseded\<rparr>)
      else
        let code = response_code resp in
        case (response_success resp, response_bundle resp) of
          (True, Some bundle) \<Rightarrow>
            (applyAuthBundle bundle False t, settle_with (Authenticated bundle) r)
        | _ \<Rightarrow>
          if status resp = 409 \<and> code = Some ''AUTH_REFRESH_RACE'' then
            (if raceAttempt < length refreshRaceDelays then
               (t, r\<lparr>pc := Sleep raceAttempt allowMismatchRetry\<rparr>)
             else (runtime_clear False None t, settle_with (Out_of_sync code) r))
          else if status resp = 409 \<and> code = Some ''AUTH_SESSION_MISMATCH'' then
            (if allowMismatchRetry then
               (let t' = runtime_clear False (Some Idle) t in (t', run_enter 0 False t' r))
             else (runtime_clear False None t, settle_with (Out_of_sync code) r))
          else if status resp = 401 then
            (runtime_clear True None t, settle_with Anonymous r)
          else if status resp = 0 \<or> status resp \<ge> 500 \<or> status resp = 429 then
            (t\<lparr>auth := setBootstrapState Idle (auth t)\<rparr>,
             settle_with (Transient_error (Cause (nullish_or (error resp) (data resp)))) r)
          else
            (runtime_clear False None t,
             settle_with (Out_of_sync (Some (case code of None \<Rightarrow> ''AUTH_INVALID_REFRESH_RESPONSE''
                                             | Some c \<Rightarrow> c))) r))"

text \<open>\<^verbatim>\<open>refreshAuthentication\<close>: join the refresh in flight or start one.\<close>

definition refreshAuthentication :: "Tab \<Rightarrow> Tab" where
  "refreshAuthentication t =
     (case refreshPromise t of
        Some _ \<Rightarrow> t
      | None \<Rightarrow> t\<lparr>refreshPromise := Some \<lparr>refreshEpoch = authEpoch t, pc = Lock_wait, sent = []\<rparr>\<rparr>)"

text \<open>
  \<^verbatim>\<open>performRefreshWithBrowserLock\<close>. Its \<^verbatim>\<open>catch\<close> clause covers an exception thrown while the lock
  is requested (\<open>refresh_lock_throws\<close>). A lock request that is rejected later is returned, not
  awaited, so the rejection passes the clause by (\<open>lock_reject\<close>).
\<close>

definition refresh_lock_throws :: "jsval \<Rightarrow> Tab \<Rightarrow> Tab" where
  "refresh_lock_throws e t =
     t\<lparr>auth := setBootstrapState Idle (auth t),
       refreshPromise := Some \<lparr>refreshEpoch = authEpoch t,
         pc = Settled (Resolved (Transient_error (Cause e))), sent = []\<rparr>\<rparr>"

definition lock_grant :: "Tab \<Rightarrow> Run \<Rightarrow> Run" where
  "lock_grant t r = run_enter 0 True t r"

definition lock_reject :: "jsval \<Rightarrow> Run \<Rightarrow> Run" where
  "lock_reject e r = r\<lparr>pc := Settled (Rejected e)\<rparr>"

section \<open>Bootstrap and request headers\<close>

definition currentValidAuthBundle :: "num \<Rightarrow> Tab \<Rightarrow> AuthBundle option" where
  "currentValidAuthBundle now t =
     (case (user (auth t), accessToken (auth t), accessExpiresAt (auth t), session (auth t)) of
        (Some u, Some tok, Some ex, Some se) \<Rightarrow>
          if tok = [] \<or> ex = 0 \<or> ex \<le> of_int \<lfloor>now / 1000\<rfloor> then None
          else Some \<lparr>access_token = tok, token_type = ''Bearer'', access_expires_at = ex,
                 bundle_user = u, bundle_session = se\<rparr>
      | _ \<Rightarrow> None)"

text \<open>The result is an outcome, or \<open>None\<close> where the source awaits the refresh it started or joined.\<close>

definition bootstrapAuthentication :: "num \<Rightarrow> Tab \<Rightarrow> Tab \<times> RefreshOutcome option" where
  "bootstrapAuthentication now t =
     (case currentValidAuthBundle now t of
        Some bundle \<Rightarrow> (t\<lparr>auth := setBootstrapState Complete (auth t)\<rparr>, Some (Authenticated bundle))
      | None \<Rightarrow>
          if bootstrapState (auth t) = Complete \<and> \<not> (user (auth t) \<noteq> None \<and> session (auth t) \<noteq> None)
          then (t, Some Anonymous)
          else (refreshAuthentication (t\<lparr>auth := setBootstrapState Checking (auth t)\<rparr>), None))"

definition getCommonHeaders :: "Tab \<Rightarrow> (string \<times> string) list" where
  "getCommonHeaders t =
     [(''Content-Type'', ''application/json'')] @
     (case accessToken (auth t) of
        None \<Rightarrow> []
      | Some tok \<Rightarrow> if tok = [] then [] else [(''Authorization'', ''Bearer '' @ tok)])"

datatype headers_error = Request_failed transient_cause | Session_expired

definition token_valid_after :: "num \<Rightarrow> Tab \<Rightarrow> bool" where
  "token_valid_after limit t \<longleftrightarrow>
     (case (accessToken (auth t), accessExpiresAt (auth t)) of
        (Some tok, Some ex) \<Rightarrow> tok \<noteq> [] \<and> ex \<noteq> 0 \<and> ex > limit
      | _ \<Rightarrow> False)"

text \<open>\<^verbatim>\<open>getFreshAuthHeaders\<close> before and after it awaits the refresh.\<close>

definition fresh_headers_begin :: "num \<Rightarrow> Tab \<Rightarrow> Tab \<times> (string \<times> string) list option" where
  "fresh_headers_begin now t =
     (if token_valid_after (of_int \<lfloor>now / 1000\<rfloor> + 60) t then (t, Some (getCommonHeaders t))
      else (refreshAuthentication t, None))"

definition fresh_headers_resume ::
  "RefreshOutcome \<Rightarrow> num \<Rightarrow> Tab \<Rightarrow> headers_error + (string \<times> string) list" where
  "fresh_headers_resume outcome now t =
     (case outcome of
        Authenticated _ \<Rightarrow> Inr (getCommonHeaders t)
      | _ \<Rightarrow>
          if token_valid_after (of_int \<lfloor>now / 1000\<rfloor>) t then Inr (getCommonHeaders t)
          else (case outcome of Transient_error c \<Rightarrow> Inl (Request_failed c) | _ \<Rightarrow> Inl Session_expired))"

end
