(* ===== verification/Auth_Machine.thy ===== *)
theory Auth_Machine
  imports Auth_Session
begin

text \<open>
  The tab as a state machine. \<open>run_step\<close> are the steps of the refresh process, \<open>tab_step\<close> adds the
  operations other parts of the application and other tabs perform, in any order. The invariant
  \<open>tab_inv\<close> holds in every reachable state; the properties follow from it.
\<close>

section \<open>Steps\<close>

inductive run_step :: "Tab \<Rightarrow> Tab \<Rightarrow> bool" where
  lock_granted: "refreshPromise t = Some r \<Longrightarrow> pc r = Lock_wait \<Longrightarrow>
     run_step t (t\<lparr>refreshPromise := Some (lock_grant t r)\<rparr>)"
| lock_rejected: "refreshPromise t = Some r \<Longrightarrow> pc r = Lock_wait \<Longrightarrow>
     run_step t (t\<lparr>refreshPromise := Some (lock_reject e r)\<rparr>)"
| response: "refreshPromise t = Some r \<Longrightarrow> pc r = Await_response n b \<Longrightarrow>
     run_resume n b resp t r = (t', r') \<Longrightarrow> run_step t (t'\<lparr>refreshPromise := Some r'\<rparr>)"
| timer: "refreshPromise t = Some r \<Longrightarrow> pc r = Sleep n b \<Longrightarrow>
     run_step t (t\<lparr>refreshPromise := Some (run_enter (n + 1) b t r)\<rparr>)"
| cleanup: "refreshPromise t = Some r \<Longrightarrow> pc r = Settled p \<Longrightarrow>
     run_step t (t\<lparr>refreshPromise := None\<rparr>)"

inductive tab_step :: "Tab \<Rightarrow> Tab \<Rightarrow> bool" where
  refresh_process: "run_step t t' \<Longrightarrow> tab_step t t'"
| start_refresh: "tab_step t (refreshAuthentication t)"
| start_refresh_throws: "refreshPromise t = None \<Longrightarrow> tab_step t (refresh_lock_throws e t)"
| login: "bundle_wf b \<Longrightarrow> tab_step t (applyAuthBundle b sync t)"
| rotation: "applyAuthRotation v t = Inr t' \<Longrightarrow> tab_step t t'"
| sign_out: "tab_step t (clearAuthentication sync b t)"
| sign_out_client: "tab_step t (clearAuthenticatedClientState sync t)"
| sync_event: "tab_step t (fst (on_sync_event e t))"
| reload: "tab_step t initial_tab"
| bootstrap: "tab_step t (fst (bootstrapAuthentication now t))"
| headers: "tab_step t (fst (fresh_headers_begin now t))"
| replace_user: "tab_step t (t\<lparr>auth := setUser u (auth t)\<rparr>)"

inductive reachable :: "Tab \<Rightarrow> bool" where
  reach_initial: "reachable initial_tab"
| reach_step: "reachable t \<Longrightarrow> tab_step t t' \<Longrightarrow> reachable t'"

inductive_cases run_stepE: "run_step t t'"

section \<open>What the operations leave alone\<close>

lemma publish_frame [simp]:
  "auth (publishAuthSessionEvent k s t) = auth t"
  "authEpoch (publishAuthSessionEvent k s t) = authEpoch t"
  "refreshPromise (publishAuthSessionEvent k s t) = refreshPromise t"
  "queryCache (publishAuthSessionEvent k s t) = queryCache t"
  by (simp_all add: publishAuthSessionEvent_def)

lemma applyAuthBundle_frame [simp]:
  "auth (applyAuthBundle b sync t) = setBundle b (auth t)"
  "authEpoch (applyAuthBundle b sync t) = authEpoch t + 1"
  "refreshPromise (applyAuthBundle b sync t) = refreshPromise t"
  "published (applyAuthBundle b False t) = published t"
  by (simp_all add: applyAuthBundle_def Let_def)

lemma clearAuthentication_frame [simp]:
  "auth (clearAuthentication sync b t) = reset b (auth t)"
  "authEpoch (clearAuthentication sync b t) = authEpoch t + 1"
  "refreshPromise (clearAuthentication sync b t) = refreshPromise t"
  "queryCache (clearAuthentication sync b t) = queryCache t"
  "published (clearAuthentication False b t) = published t"
  by (simp_all add: clearAuthentication_def Let_def split: option.split)

lemma clearClient_frame [simp]:
  "auth (clearAuthenticatedClientState sync t) = reset Complete (auth t)"
  "authEpoch (clearAuthenticatedClientState sync t) = authEpoch t + 1"
  "refreshPromise (clearAuthenticatedClientState sync t) = refreshPromise t"
  "queryCache (clearAuthenticatedClientState sync t) = []"
  "published (clearAuthenticatedClientState False t) = published t"
  by (simp_all add: clearAuthenticatedClientState_def)

lemma runtime_clear_frame [simp]:
  "refreshPromise (runtime_clear sync b t) = refreshPromise t"
  "published (runtime_clear False b t) = published t"
  "auth (runtime_clear sync b t) = reset (case b of None \<Rightarrow> Complete | Some b' \<Rightarrow> b') (auth t)"
  "authEpoch (runtime_clear False (Some Idle) t) = authEpoch t"
  "authEpoch (runtime_clear sync None t) = authEpoch t + 1"
  by (auto simp: runtime_clear_def)

lemma run_enter_simps [simp]:
  "refreshEpoch (run_enter n b t r) = refreshEpoch r"
  by (simp add: run_enter_def)

lemma settle_with_simps [simp]:
  "refreshEpoch (settle_with oc r) = refreshEpoch r"
  "pc (settle_with oc r) = Settled (Resolved oc)"
  "sent (settle_with oc r) = sent r"
  by (simp_all add: settle_with_def)

text \<open>The branches of \<open>run_resume\<close>, one per \<^verbatim>\<open>return\<close> of the source.\<close>

lemma run_resume_cases:
  assumes "run_resume n b resp t r = (t', r')"
  obtains
    (superseded) "\<not> isCurrent t r" "t' = t" "r' = r\<lparr>pc := Settled superseded\<rparr>"
  | (authenticated) bd where "isCurrent t r" "response_bundle resp = Some bd"
      "t' = applyAuthBundle bd False t" "r' = settle_with (Authenticated bd) r"
  | (race) "isCurrent t r" "n < 3" "t' = t" "r' = r\<lparr>pc := Sleep n b\<rparr>"
  | (mismatch_retry) "isCurrent t r" "b" "status resp = 409"
      "response_code resp = Some ''AUTH_SESSION_MISMATCH''"
      "t' = runtime_clear False (Some Idle) t" "r' = run_enter 0 False t' r"
  | (anonymous) "isCurrent t r" "status resp = 401" "t' = runtime_clear True None t"
      "r' = settle_with Anonymous r"
  | (transient) cause where "isCurrent t r" "t' = t\<lparr>auth := setBootstrapState Idle (auth t)\<rparr>"
      "r' = settle_with (Transient_error (Cause cause)) r"
  | (out_of_sync) code where "isCurrent t r" "t' = runtime_clear False None t"
      "r' = settle_with (Out_of_sync (Some code)) r"
  using assms unfolding run_resume_def Let_def refreshRaceDelays_def
  by (simp split: if_splits option.splits bool.splits) blast+

section \<open>Superseded refreshes\<close>

text \<open>What a refresh can change: credentials, epoch and messages.\<close>

definition same_session :: "Tab \<Rightarrow> Tab \<Rightarrow> bool" where
  "same_session t t' \<longleftrightarrow> auth t' = auth t \<and> authEpoch t' = authEpoch t \<and> published t' = published t"

definition stale :: "Tab \<Rightarrow> bool" where
  "stale t \<longleftrightarrow> (\<forall>r. refreshPromise t = Some r \<longrightarrow> refreshEpoch r \<noteq> authEpoch t)"

lemma run_step_stale:
  "run_step t t' \<Longrightarrow> stale t \<Longrightarrow> stale t' \<and> same_session t t'"
  by (induction rule: run_step.induct)
     (auto simp: stale_def same_session_def lock_grant_def lock_reject_def run_enter_def
       run_resume_def isCurrent_def)

lemma run_steps_stale:
  "run_step\<^sup>*\<^sup>* t t' \<Longrightarrow> stale t \<Longrightarrow> stale t' \<and> same_session t t'"
proof (induction rule: rtranclp_induct)
  case base
  then show ?case by (simp add: same_session_def)
next
  case (step t' t'')
  then show ?case using run_step_stale [of t' t''] by (auto simp: same_session_def)
qed

section \<open>The invariant\<close>

fun budget :: "run_pc \<Rightarrow> nat" where
  "budget Lock_wait = 8"
| "budget (Await_response n b) = (3 - n) + (if b then 4 else 0)"
| "budget (Sleep n b) = (3 - n) + (if b then 4 else 0)"
| "budget (Settled p) = 0"

fun pc_wf :: "run_pc \<Rightarrow> bool" where
  "pc_wf (Await_response n b) = (n \<le> 3)"
| "pc_wf (Sleep n b) = (n \<le> 2)"
| "pc_wf _ = True"

definition run_inv :: "Run \<Rightarrow> bool" where
  "run_inv r \<longleftrightarrow> pc_wf (pc r) \<and> length (sent r) + budget (pc r) \<le> 8"

definition tab_inv :: "Tab \<Rightarrow> bool" where
  "tab_inv t \<longleftrightarrow> store_wf (auth t) \<and>
     (\<forall>r. refreshPromise t = Some r \<longrightarrow> refreshEpoch r \<le> authEpoch t \<and> run_inv r)"

lemma run_inv_enter:
  "length (sent r) + 1 + budget (Await_response n b) \<le> 8 \<Longrightarrow> n \<le> 3 \<Longrightarrow> length (sent r) \<le> 8 \<Longrightarrow>
     run_inv (run_enter n b t r)"
  by (simp add: run_inv_def run_enter_def)

lemma response_bundle_wf: "response_bundle resp = Some b \<Longrightarrow> bundle_wf b"
  by (auto simp: response_bundle_def intro: as_AuthBundle_wf)

lemma settle_inv: "run_inv r \<Longrightarrow> run_inv (settle_with oc r)"
  by (simp add: run_inv_def settle_with_def)

lemma run_resume_inv:
  assumes "run_resume n b resp t r = (t', r')" "run_inv r" "pc r = Await_response n b"
    "refreshEpoch r \<le> authEpoch t" "store_wf (auth t)"
  shows "run_inv r' \<and> refreshEpoch r' \<le> authEpoch t' \<and> store_wf (auth t') \<and>
    refreshPromise t' = refreshPromise t"
proof -
  have inv: "n \<le> 3" "length (sent r) + (3 - n + (if b then 4 else 0)) \<le> 8"
    using assms(2,3) by (auto simp: run_inv_def)
  note settled = settle_inv [OF assms(2)]
  from assms(1) show ?thesis
  proof (cases rule: run_resume_cases)
    case superseded
    then show ?thesis using inv assms(4,5) by (simp add: run_inv_def)
  next
    case (authenticated bd)
    then show ?thesis using assms(4) settled by (simp add: response_bundle_wf)
  next
    case race
    then show ?thesis using inv assms(4,5) by (simp add: run_inv_def)
  next
    case mismatch_retry
    then show ?thesis using inv assms(4) by (auto intro!: run_inv_enter)
  qed (use assms(4,5) settled in simp_all)
qed

lemma tab_inv_initial: "tab_inv initial_tab"
  by (simp add: tab_inv_def initial_tab_def)

lemma run_step_inv: "run_step t t' \<Longrightarrow> tab_inv t \<Longrightarrow> tab_inv t'"
proof (induction rule: run_step.induct)
  case (lock_granted t r)
  then have "run_inv (lock_grant t r)"
    by (auto simp: tab_inv_def run_inv_def lock_grant_def run_enter_def)
  with lock_granted show ?case by (auto simp: tab_inv_def lock_grant_def)
next
  case (lock_rejected t r e)
  then show ?case by (auto simp: tab_inv_def run_inv_def lock_reject_def)
next
  case (response t r n b resp t' r')
  then show ?case using run_resume_inv [of n b resp t r t' r'] by (auto simp: tab_inv_def)
next
  case (timer t r n b)
  then have "run_inv (run_enter (n + 1) b t r)"
    by (intro run_inv_enter) (auto simp: tab_inv_def run_inv_def)
  with timer show ?case by (auto simp: tab_inv_def)
next
  case (cleanup t r p)
  then show ?case by (auto simp: tab_inv_def)
qed

lemma refreshAuthentication_inv: "tab_inv t \<Longrightarrow> tab_inv (refreshAuthentication t)"
  by (auto simp: tab_inv_def refreshAuthentication_def run_inv_def split: option.split)

lemma tab_inv_auth: "tab_inv t \<Longrightarrow> store_wf a \<Longrightarrow> tab_inv (t\<lparr>auth := a\<rparr>)"
  by (simp add: tab_inv_def)

lemma clearAuthentication_inv: "tab_inv t \<Longrightarrow> tab_inv (clearAuthentication sync b t)"
  by (auto simp: tab_inv_def)

lemma rotation_inv:
  assumes "applyAuthRotation v t = Inr t'" "tab_inv t"
  shows "tab_inv t'"
proof -
  obtain r u se where r: "as_AuthTokenRotation v = Some r" "user (auth t) = Some u" "session (auth t) = Some se"
    and t': "t' = applyAuthBundle \<lparr>access_token = rot_access_token r, token_type = rot_token_type r,
      access_expires_at = rot_access_expires_at r, bundle_user = u, bundle_session = rot_session r\<rparr> False t"
    using assms(1) by (auto simp: applyAuthRotation_def split: option.splits if_splits)
  from as_AuthTokenRotation_props [OF r(1)] assms(2) show ?thesis
    by (auto simp: t' tab_inv_def bundle_wf_def)
qed

lemma tab_step_inv: "tab_step t t' \<Longrightarrow> tab_inv t \<Longrightarrow> tab_inv t'"
proof (induction rule: tab_step.induct)
  case (refresh_process t t')
  then show ?case by (blast intro: run_step_inv)
next
  case (start_refresh t)
  then show ?case by (rule refreshAuthentication_inv)
next
  case (start_refresh_throws t e)
  then show ?case by (simp add: tab_inv_def refresh_lock_throws_def run_inv_def)
next
  case (login b t sync)
  then show ?case by (auto simp: tab_inv_def)
next
  case (rotation v t t')
  then show ?case by (blast intro: rotation_inv)
next
  case (sign_out t sync b)
  then show ?case by (rule clearAuthentication_inv)
next
  case (sign_out_client t sync)
  then show ?case by (auto simp: tab_inv_def)
next
  case (sync_event t e)
  then show ?case
    by (auto simp: on_sync_event_def tab_inv_def split: prod.split sync_kind.split)
next
  case (reload t)
  show ?case by (rule tab_inv_initial)
next
  case (bootstrap t now)
  then show ?case
    by (auto simp: bootstrapAuthentication_def tab_inv_auth split: option.split
        intro!: refreshAuthentication_inv tab_inv_auth) (simp_all add: tab_inv_def)
next
  case (headers t now)
  then show ?case by (simp add: fresh_headers_begin_def refreshAuthentication_inv)
next
  case (replace_user t u)
  then show ?case by (simp add: tab_inv_def)
qed

lemma reachable_inv: "reachable t \<Longrightarrow> tab_inv t"
  by (induction rule: reachable.induct) (blast intro: tab_inv_initial tab_step_inv)+

section \<open>Progress of a refresh\<close>

fun rank :: "run_pc \<Rightarrow> nat" where
  "rank Lock_wait = 18"
| "rank (Await_response n b) = 2 * (4 - n) + 1 + (if b then 8 else 0)"
| "rank (Sleep n b) = 2 * (4 - n) + (if b then 8 else 0)"
| "rank (Settled p) = 1"

definition steps_left :: "Tab \<Rightarrow> nat" where
  "steps_left t = (case refreshPromise t of None \<Rightarrow> 0 | Some r \<Rightarrow> rank (pc r))"

lemma rank_enter: "rank (pc (run_enter n b t r)) \<le> rank (Await_response n b)"
  by (simp add: run_enter_def)

lemma run_resume_rank:
  assumes "run_resume n b resp t r = (t', r')" "n \<le> 3"
  shows "rank (pc r') < rank (Await_response n b)"
  using assms(1)
proof (cases rule: run_resume_cases)
  case mismatch_retry
  then show ?thesis using rank_enter [of 0 False t' r] assms(2) by simp
next
  case race
  then show ?thesis by simp
qed (use assms(2) in simp_all)

lemma run_step_decreases: "run_step t t' \<Longrightarrow> tab_inv t \<Longrightarrow> steps_left t' < steps_left t"
proof (induction rule: run_step.induct)
  case (response t r n b resp t' r')
  then have "n \<le> 3" by (auto simp: tab_inv_def run_inv_def)
  from run_resume_rank [OF response(3) this] response(1,2) show ?case by (simp add: steps_left_def)
next
  case (timer t r n b)
  then have "n \<le> 2" by (auto simp: tab_inv_def run_inv_def)
  then show ?case using timer(1,2) rank_enter [of "n + 1" b t r] by (simp add: steps_left_def)
qed (simp_all add: steps_left_def lock_grant_def run_enter_def lock_reject_def)

lemma run_steps_decrease:
  "(run_step ^^ k) t t' \<Longrightarrow> tab_inv t \<Longrightarrow> tab_inv t' \<and> k + steps_left t' \<le> steps_left t"
proof (induction k arbitrary: t')
  case (Suc k)
  then obtain u where u: "(run_step ^^ k) t u" "run_step u t'" by auto
  with Suc have "tab_inv u" "k + steps_left u \<le> steps_left t" by auto
  with run_step_inv [OF u(2)] run_step_decreases [OF u(2)] show ?case by simp
qed simp

lemma run_step_progress:
  assumes "refreshPromise t = Some r"
  shows "\<exists>t'. run_step t t'"
proof (cases "pc r")
  case (Await_response n b)
  obtain t' r' where "run_resume n b \<lparr>status = 0, data = JUndefined, error = JUndefined\<rparr> t r = (t', r')"
    by (meson surj_pair)
  from run_step.response [OF assms Await_response this] show ?thesis by blast
qed (use assms run_step.intros in blast)+

lemma steps_left_bound: "tab_inv t \<Longrightarrow> steps_left t \<le> 18"
proof (cases "refreshPromise t")
  case (Some r)
  then show ?thesis by (cases "pc r") (auto simp: steps_left_def)
qed (simp add: steps_left_def)

section \<open>Properties\<close>

text \<open>
  C2: a newer operation wins over a refresh in flight. Whatever the server answers and whenever,
  the rest of that refresh leaves a tab that has signed out signed out, and a tab that has logged in
  with the credentials of that login; it publishes nothing to the other tabs.
\<close>

theorem newer_operation_wins:
  assumes "reachable t"
  shows "(run_step\<^sup>*\<^sup>* (clearAuthentication sync b t) t' \<longrightarrow>
      auth t' = reset b (auth t) \<and> published t' = published (clearAuthentication sync b t)) \<and>
    (run_step\<^sup>*\<^sup>* (applyAuthBundle bd sync t) t' \<longrightarrow>
      auth t' = setBundle bd (auth t) \<and> published t' = published (applyAuthBundle bd sync t))"
proof -
  have "refreshEpoch r \<le> authEpoch t" if "refreshPromise t = Some r" for r
    using reachable_inv [OF assms] that by (simp add: tab_inv_def)
  then have "stale (clearAuthentication sync b t)" "stale (applyAuthBundle bd sync t)"
    by (fastforce simp: stale_def)+
  with run_steps_stale show ?thesis by (fastforce simp: same_session_def)
qed

theorem newer_operation_wins_witness:
  "\<exists>t t'. reachable t \<and> refreshPromise t \<noteq> None \<and> run_step (clearAuthentication True Complete t) t' \<and>
     auth t' = reset Complete (auth t)"
proof -
  let ?t = "refreshAuthentication initial_tab"
  have r: "reachable ?t" by (rule reach_step [OF reach_initial start_refresh])
  have p: "refreshPromise ?t \<noteq> None" by (simp add: refreshAuthentication_def initial_tab_def)
  then obtain t' where "run_step (clearAuthentication True Complete ?t) t'"
    using run_step_progress [of "clearAuthentication True Complete ?t"] by auto
  with newer_operation_wins [OF r, of True Complete t'] r p show ?thesis by blast
qed

text \<open>
  C7: the credentials of every reachable tab are consistent: access token, expiry and session are
  present together or absent together, and none of them is empty.
\<close>

theorem credentials_consistent: "reachable t \<Longrightarrow> store_wf (auth t)"
  using reachable_inv by (simp add: tab_inv_def)

theorem credentials_consistent_witness: "store_wf (auth (refreshAuthentication initial_tab))"
  by (rule credentials_consistent [OF reach_step [OF reach_initial start_refresh]])

text \<open>
  C16: a refresh always ends. From a reachable tab the refresh process takes at most 18 steps, it is
  stuck only when no refresh is in flight, and it sends at most 8 requests.
\<close>

theorem refresh_terminates:
  assumes "reachable t" "(run_step ^^ k) t t'"
  shows "k \<le> 18 \<and> (refreshPromise t' \<noteq> None \<longrightarrow> (\<exists>t''. run_step t' t'')) \<and>
    (\<forall>r. refreshPromise t' = Some r \<longrightarrow> length (sent r) \<le> 8)"
proof -
  from run_steps_decrease [OF assms(2) reachable_inv [OF assms(1)]]
  have "tab_inv t'" "k + steps_left t' \<le> steps_left t" by auto
  with steps_left_bound [OF reachable_inv [OF assms(1)]] run_step_progress [of t'] show ?thesis
    by (fastforce simp: tab_inv_def run_inv_def)
qed

theorem refresh_terminates_witness:
  "\<exists>t'. (run_step ^^ 1) (refreshAuthentication initial_tab) t' \<and>
     (\<forall>r. refreshPromise t' = Some r \<longrightarrow> length (sent r) \<le> 8)"
proof -
  let ?t = "refreshAuthentication initial_tab"
  let ?r = "\<lparr>refreshEpoch = 0, pc = Lock_wait, sent = []\<rparr>"
  have r: "reachable ?t" by (rule reach_step [OF reach_initial start_refresh])
  have "run_step ?t (?t\<lparr>refreshPromise := Some (lock_grant ?t ?r)\<rparr>)"
    by (rule run_step.lock_granted) (simp_all add: refreshAuthentication_def initial_tab_def)
  then have "(run_step ^^ 1) ?t (?t\<lparr>refreshPromise := Some (lock_grant ?t ?r)\<rparr>)"
    by (auto simp: OO_def)
  with refresh_terminates [OF r this] show ?thesis by blast
qed

text \<open>What each outcome of a refresh says about the state it leaves.\<close>

fun outcome_state :: "Tab \<Rightarrow> RefreshOutcome \<Rightarrow> Tab \<Rightarrow> bool" where
  "outcome_state t (Authenticated bd) t' \<longleftrightarrow> auth t' = setBundle bd (auth t) \<and> published t' = published t"
| "outcome_state t Anonymous t' \<longleftrightarrow> auth t' = reset Complete (auth t) \<and>
     published t' = published t @
       (case current_sid t of None \<Rightarrow> [] | Some s \<Rightarrow> if s = [] then [] else [(Signed_out_event, s)])"
| "outcome_state t (Transient_error Superseded) t' \<longleftrightarrow> t' = t"
| "outcome_state t (Transient_error (Cause c)) t' \<longleftrightarrow>
     auth t' = setBootstrapState Idle (auth t) \<and> published t' = published t"
| "outcome_state t (Out_of_sync c) t' \<longleftrightarrow> auth t' = reset Complete (auth t) \<and> published t' = published t"

text \<open>
  C17: the outcome a refresh reports describes the state it leaves. After \<^verbatim>\<open>authenticated\<close> the store
  holds exactly that bundle; after \<^verbatim>\<open>anonymous\<close> and \<^verbatim>\<open>out_of_sync\<close> it holds no credentials; a
  transient error keeps them, and a superseded refresh changes nothing. Only \<^verbatim>\<open>anonymous\<close> informs the
  other tabs.
\<close>

theorem refresh_outcome_state:
  assumes "run_resume n b resp t r = (t', r')" "pc r' = Settled (Resolved oc)"
  shows "outcome_state t oc t'"
  using assms(1)
proof (cases rule: run_resume_cases)
  case superseded
  then show ?thesis using assms(2) by (auto simp: Auth_Session.superseded_def)
next
  case mismatch_retry
  then show ?thesis using assms(2) by (simp add: run_enter_def isCurrent_def)
next
  case anonymous
  then show ?thesis using assms(2)
    by (auto simp: runtime_clear_def clearAuthentication_def publishAuthSessionEvent_def Let_def
        split: option.split)
qed (use assms(2) in auto)

theorem refresh_outcome_state_witness:
  "outcome_state initial_tab Anonymous (clearAuthentication True Complete initial_tab)"
proof (rule refresh_outcome_state)
  let ?r = "\<lparr>refreshEpoch = 0, pc = Await_response 0 True, sent = [None]\<rparr>"
  show "run_resume 0 True \<lparr>status = 401, data = JUndefined, error = JUndefined\<rparr> initial_tab ?r =
      (clearAuthentication True Complete initial_tab, settle_with Anonymous ?r)"
    by (simp add: run_resume_def isCurrent_def initial_tab_def response_success_def isRecord_def runtime_clear_def)
qed simp

text \<open>
  C18: when the server answers that the session does not match, the first time the tab drops its local
  credentials without telling other tabs and asks once more, now without naming the stale session;
  the second time it gives up.
\<close>

theorem session_mismatch_retries_once:
  assumes "isCurrent t r" "\<not> response_success resp" "status resp = 409"
    "response_code resp = Some ''AUTH_SESSION_MISMATCH''" "run_resume n b resp t r = (t', r')"
  shows "session (auth t') = None \<and> published t' = published t \<and>
    (if b then pc r' = Await_response 0 False \<and> sent r' = sent r @ [None] \<and> bootstrapState (auth t') = Idle
     else pc r' = Settled (Resolved (Out_of_sync (Some ''AUTH_SESSION_MISMATCH''))) \<and> sent r' = sent r)"
  using assms
  by (auto simp: run_resume_def run_enter_def isCurrent_def reset_def split: if_splits)

theorem session_mismatch_retries_once_witness:
  "sent (snd (run_resume 2 True
      \<lparr>status = 409, data = JObj [(''code'', JStr ''AUTH_SESSION_MISMATCH'')], error = JUndefined\<rparr> initial_tab
      \<lparr>refreshEpoch = 0, pc = Await_response 2 True, sent = [None]\<rparr>)) = [None, None]"
proof -
  let ?r = "\<lparr>refreshEpoch = 0, pc = Await_response 2 True, sent = [None]\<rparr>"
  let ?resp = "\<lparr>status = 409, data = JObj [(''code'', JStr ''AUTH_SESSION_MISMATCH'')], error = JUndefined\<rparr>"
  obtain t' r' where res: "run_resume 2 True ?resp initial_tab ?r = (t', r')" by (meson surj_pair)
  have "isCurrent initial_tab ?r" "\<not> response_success ?resp" "status ?resp = 409"
    "response_code ?resp = Some ''AUTH_SESSION_MISMATCH''"
    by (simp_all add: isCurrent_def initial_tab_def response_success_def response_code_def isRecord_def)
  from session_mismatch_retries_once [OF this res] res show ?thesis by simp
qed

text \<open>
  C19: a token rotation is applied only to the session it names. When it succeeds, user and session
  identifier are unchanged, the new token is in the store and no message is published.
\<close>

theorem rotation_keeps_session:
  assumes "applyAuthRotation v t = Inr t'"
  shows "current_sid t' = current_sid t \<and> current_sid t \<noteq> None \<and> user (auth t') = user (auth t) \<and>
    accessToken (auth t') = Some (str_of (field v ''access_token'')) \<and> published t' = published t \<and>
    isAuthTokenRotation v"
  using assms
  by (auto simp: applyAuthRotation_def setBundle_def as_AuthTokenRotation_def split: option.splits if_splits)

definition example_session :: jsval where
  "example_session = JObj [(''sid'', JStr ''s1''), (''current'', JBool True), (''login_method'', JStr ''password''),
     (''ip'', JStr ''127.0.0.1''), (''user_agent'', JStr ''ua''), (''created_at'', JNum (Fin 1)),
     (''last_active_at'', JNum (Fin 1)), (''expires_at'', JNum (Fin 9))]"

definition example_rotation :: jsval where
  "example_rotation = JObj [(''access_token'', JStr ''new''), (''token_type'', JStr ''Bearer''),
     (''access_expires_at'', JNum (Fin 7)), (''session'', example_session)]"

definition example_tab :: Tab where
  "example_tab = applyAuthBundle \<lparr>access_token = ''old'', token_type = ''Bearer'', access_expires_at = 5,
     bundle_user = as_AuthUser JNull, bundle_session = as_LoginSession example_session\<rparr> True initial_tab"

theorem rotation_keeps_session_witness:
  "\<exists>t'. applyAuthRotation example_rotation example_tab = Inr t' \<and> accessToken (auth t') = Some ''new''"
proof -
  have "isAuthTokenRotation example_rotation" by code_simp
  moreover have "session (auth example_tab) = Some (as_LoginSession example_session)"
    "user (auth example_tab) = Some (as_AuthUser JNull)"
    by (simp_all add: example_tab_def setBundle_def)
  moreover have "field example_rotation ''session'' = example_session"
    by (simp add: example_rotation_def)
  ultimately obtain t' where t': "applyAuthRotation example_rotation example_tab = Inr t'"
    by (simp add: applyAuthRotation_def as_AuthTokenRotation_def)
  moreover have "str_of (field example_rotation ''access_token'') = ''new''"
    by (simp add: example_rotation_def)
  ultimately show ?thesis using rotation_keeps_session [OF t'] by simp
qed

text \<open>
  C20: cross-tab messages do not echo. Handling a message publishes none; a tab never receives its own
  message, while another tab receives it as it was sent for one minute. A sign-out message clears the tab
  exactly when it names the tab's session.
\<close>

theorem sync_messages_do_not_echo:
  assumes "s \<noteq> []"
  shows "published (fst (on_sync_event (k, s) t)) = published t \<and>
    deliver me now (sync_message me nonce sent_at (k, s)) = None \<and>
    (other \<noteq> me \<longrightarrow> deliver other now (sync_message me nonce sent_at (k, s)) =
       (if \<bar>now - sent_at\<bar> < 60000 then Some (k, s) else None)) \<and>
    auth (fst (on_sync_event (Signed_out_event, s) t)) =
       (if current_sid t = Some s then reset Complete (auth t) else auth t)"
  using assms
  by (auto simp: on_sync_event_def deliver_def sync_message_def isAuthSessionSyncEvent_def
      split: sync_kind.splits)

theorem sync_messages_do_not_echo_witness:
  "deliver ''tab-b'' 1500 (sync_message ''tab-a'' ''n'' 1000 (Signed_out_event, ''s1'')) = Some (Signed_out_event, ''s1'')"
  using sync_messages_do_not_echo [of "''s1''" Signed_out_event initial_tab "''tab-a''" 1500 "''n''" 1000 "''tab-b''"]
  by simp

text \<open>
  C21: the bootstrap check trusts the store only while the token is valid: it reports an authenticated
  session without asking the server only for an unexpired token, and when it does ask the server it joins
  a refresh in flight instead of starting another one.
\<close>

theorem bootstrap_trusts_only_valid_tokens:
  assumes "bootstrapAuthentication now t = (t', res)"
  shows "(\<forall>bd. res = Some (Authenticated bd) \<longrightarrow>
      of_int \<lfloor>now / 1000\<rfloor> < access_expires_at bd \<and> accessToken (auth t) = Some (access_token bd) \<and>
      session (auth t) = Some (bundle_session bd)) \<and>
    (\<forall>r. refreshPromise t = Some r \<longrightarrow> refreshPromise t' = Some r) \<and>
    (res = None \<longrightarrow> refreshPromise t' \<noteq> None \<and> bootstrapState (auth t') = Checking)"
  using assms
  by (auto simp: bootstrapAuthentication_def currentValidAuthBundle_def refreshAuthentication_def
      setBootstrapState_def split: option.splits if_splits)

theorem bootstrap_trusts_only_valid_tokens_witness:
  "\<exists>t' bd. bootstrapAuthentication 4000 example_tab = (t', Some (Authenticated bd)) \<and> 4 < access_expires_at bd"
proof -
  obtain t' bd where b: "bootstrapAuthentication 4000 example_tab = (t', Some (Authenticated bd))"
    by (simp add: bootstrapAuthentication_def currentValidAuthBundle_def example_tab_def setBundle_def)
  with bootstrap_trusts_only_valid_tokens [OF b] show ?thesis by simp
qed

text \<open>
  C22: what \<^verbatim>\<open>getFreshAuthHeaders\<close> hands out. Without a refresh it hands out the token of the store
  only when it is valid for more than a minute, and changes nothing. After a refresh that the response of the
  server settled, it hands out the new token when the refresh succeeded, fails with an expired session when the server refused it, and
  after a transient error falls back on the old token while that has not expired.
\<close>

theorem fresh_headers_by_outcome:
  assumes "run_resume n b resp t r = (u, r')" "pc r' = Settled (Resolved oc)"
  shows "fresh_headers_resume oc now u =
      (case oc of
         Authenticated bd \<Rightarrow> Inr [(''Content-Type'', ''application/json''), (''Authorization'', ''Bearer '' @ access_token bd)]
       | Transient_error c \<Rightarrow>
           if token_valid_after (of_int \<lfloor>now / 1000\<rfloor>) t then Inr (getCommonHeaders t) else Inl (Request_failed c)
       | _ \<Rightarrow> Inl Session_expired) \<and>
    (\<forall>t0 t1 hs. fresh_headers_begin now t0 = (t1, Some hs) \<longrightarrow>
       t1 = t0 \<and> (\<exists>tok ex. accessToken (auth t0) = Some tok \<and> accessExpiresAt (auth t0) = Some ex \<and>
         of_int \<lfloor>now / 1000\<rfloor> + 60 < ex \<and> map_of hs ''Authorization'' = Some (''Bearer '' @ tok)))"
proof
  show "fresh_headers_resume oc now u =
      (case oc of
         Authenticated bd \<Rightarrow> Inr [(''Content-Type'', ''application/json''), (''Authorization'', ''Bearer '' @ access_token bd)]
       | Transient_error c \<Rightarrow>
           if token_valid_after (of_int \<lfloor>now / 1000\<rfloor>) t then Inr (getCommonHeaders t) else Inl (Request_failed c)
       | _ \<Rightarrow> Inl Session_expired)"
    using assms(1)
  proof (cases rule: run_resume_cases)
    case (authenticated bd)
    then show ?thesis
      using assms(2) response_bundle_wf
      by (auto simp: fresh_headers_resume_def getCommonHeaders_def setBundle_def bundle_wf_def)
  next
    case mismatch_retry
    then show ?thesis using assms(2) by (simp add: run_enter_def isCurrent_def runtime_clear_def split: if_splits)
  qed (use assms(2) in \<open>auto simp: fresh_headers_resume_def token_valid_after_def superseded_def getCommonHeaders_def
        reset_def setBootstrapState_def runtime_clear_def\<close>)
  show "\<forall>t0 t1 hs. fresh_headers_begin now t0 = (t1, Some hs) \<longrightarrow>
       t1 = t0 \<and> (\<exists>tok ex. accessToken (auth t0) = Some tok \<and> accessExpiresAt (auth t0) = Some ex \<and>
         of_int \<lfloor>now / 1000\<rfloor> + 60 < ex \<and> map_of hs ''Authorization'' = Some (''Bearer '' @ tok))"
    by (auto simp: fresh_headers_begin_def token_valid_after_def getCommonHeaders_def split: if_splits option.splits)
qed

theorem fresh_headers_by_outcome_witness:
  "\<exists>u r'. run_resume 0 True \<lparr>status = 503, data = JNull, error = JNull\<rparr> example_tab
       \<lparr>refreshEpoch = authEpoch example_tab, pc = Await_response 0 True, sent = []\<rparr> = (u, r') \<and>
     fresh_headers_resume (Transient_error (Cause JNull)) 4000 u = Inr (getCommonHeaders example_tab) \<and>
     fresh_headers_resume (Transient_error (Cause JNull)) 5000 u = Inl (Request_failed (Cause JNull))"
proof -
  let ?r = "\<lparr>refreshEpoch = authEpoch example_tab, pc = Await_response 0 True, sent = []\<rparr>"
  have run: "run_resume 0 True \<lparr>status = 503, data = JNull, error = JNull\<rparr> example_tab ?r
      = (example_tab\<lparr>auth := setBootstrapState Idle (auth example_tab)\<rparr>, settle_with (Transient_error (Cause JNull)) ?r)"
    by (simp add: run_resume_def isCurrent_def response_success_def response_code_def isRecord_def nullish_or_def)
  have "token_valid_after 4 example_tab" "\<not> token_valid_after 5 example_tab"
    by (simp_all add: token_valid_after_def example_tab_def setBundle_def)
  then show ?thesis
    using fresh_headers_by_outcome [OF run settle_with_simps(2), of 4000]
      fresh_headers_by_outcome [OF run settle_with_simps(2), of 5000] run by simp
qed

text \<open>
  A browser lock request that is rejected is not turned into a transient error. After it the refresh
  settles with the rejection, and the bootstrap state is left at \<^verbatim>\<open>checking\<close> with no refresh in flight,
  which is what the clause that handles lock failures resets for an exception thrown at once.
\<close>

lemma lock_rejection_escapes:
  "\<exists>t1 t2 t3 r. t1 = fst (bootstrapAuthentication now initial_tab) \<and> run_step t1 t2 \<and>
     refreshPromise t2 = Some r \<and> pc r = Settled (Rejected e) \<and> run_step t2 t3 \<and>
     refreshPromise t3 = None \<and> bootstrapState (auth t3) = Checking \<and>
     bootstrapState (auth (refresh_lock_throws e t1)) = Idle"
proof -
  define t1 where "t1 = fst (bootstrapAuthentication now initial_tab)"
  define r where "r = \<lparr>refreshEpoch = 0, pc = Lock_wait, sent = []\<rparr>"
  have p1: "refreshPromise t1 = Some r" and b1: "bootstrapState (auth t1) = Checking"
    by (simp_all add: t1_def r_def bootstrapAuthentication_def currentValidAuthBundle_def initial_tab_def
        initial_store_def refreshAuthentication_def setBootstrapState_def)
  define t2 where "t2 = t1\<lparr>refreshPromise := Some (lock_reject e r)\<rparr>"
  have s1: "run_step t1 t2"
    unfolding t2_def by (rule run_step.lock_rejected [OF p1]) (simp add: r_def)
  have p2: "refreshPromise t2 = Some (lock_reject e r)" "pc (lock_reject e r) = Settled (Rejected e)"
    by (simp_all add: t2_def lock_reject_def)
  define t3 where "t3 = t2\<lparr>refreshPromise := None\<rparr>"
  have s2: "run_step t2 t3" unfolding t3_def by (rule run_step.cleanup [OF p2])
  have "bootstrapState (auth t3) = Checking" "refreshPromise t3 = None"
    by (simp_all add: t3_def t2_def b1)
  moreover have "bootstrapState (auth (refresh_lock_throws e t1)) = Idle"
    by (simp add: refresh_lock_throws_def setBootstrapState_def)
  ultimately show ?thesis using t1_def s1 p2 s2 by blast
qed

end
