(* ===== verification/Auth_Progress.thy ===== *)
theory Auth_Progress
  imports Auth_Machine
begin

text \<open>
  Infinite runs of a tab: the refresh process and the other operations interleaved in any order. Other operations
  never disturb the progress of a refresh, so it ends in every run that does not starve it.
\<close>

section \<open>Interleaving\<close>

lemma refreshAuthentication_in_flight [simp]:
  "refreshPromise t = Some r \<Longrightarrow> refreshAuthentication t = t"
  by (simp add: refreshAuthentication_def)

lemma other_step_keeps_refresh:
  assumes "tab_step t t'" "refreshPromise t = Some r"
  shows "run_step t t' \<or> refreshPromise t' = Some r \<or> refreshPromise t' = None"
  using assms
proof (cases rule: tab_step.cases)
  case (rotation v)
  then show ?thesis using assms(2)
    by (auto simp: applyAuthRotation_def split: option.splits if_splits)
next
  case (sync_event e)
  then show ?thesis using assms(2) by (auto simp: on_sync_event_def split: prod.split sync_kind.split)
next
  case (bootstrap now)
  then show ?thesis using assms(2) by (auto simp: bootstrapAuthentication_def split: option.split)
next
  case (headers now)
  then show ?thesis using assms(2) by (simp add: fresh_headers_begin_def)
qed (use assms(2) in \<open>simp_all add: initial_tab_def\<close>)

lemma interleaved_steps_left:
  assumes "tab_step t t'" "tab_inv t" "refreshPromise t \<noteq> None"
  shows "steps_left t' \<le> steps_left t"
proof -
  obtain r where r: "refreshPromise t = Some r" using assms(3) by blast
  from other_step_keeps_refresh [OF assms(1) r] show ?thesis
    using run_step_decreases [OF _ assms(2)] r by (auto simp: steps_left_def dest: less_imp_le)
qed

section \<open>Runs\<close>

text \<open>A run of the tab, and a run that does not leave a refresh in flight waiting for ever.\<close>

definition tab_run :: "(nat \<Rightarrow> Tab) \<Rightarrow> bool" where
  "tab_run f \<longleftrightarrow> reachable (f 0) \<and> (\<forall>i. tab_step (f i) (f (Suc i)))"

definition refresh_fair :: "(nat \<Rightarrow> Tab) \<Rightarrow> bool" where
  "refresh_fair f \<longleftrightarrow> (\<forall>i. \<exists>j\<ge>i. refreshPromise (f j) = None \<or> run_step (f j) (f (Suc j)))"

lemma run_inv_at: "tab_run f \<Longrightarrow> tab_inv (f i)"
  by (induction i) (auto simp: tab_run_def intro: reachable_inv tab_step_inv)

lemma run_steps_left:
  assumes "tab_run f" "\<And>j. j \<ge> i \<Longrightarrow> refreshPromise (f j) \<noteq> None" "i \<le> j"
  shows "steps_left (f j) \<le> steps_left (f i)"
  using assms(3)
proof (induction rule: dec_induct)
  case (step n)
  have "steps_left (f (Suc n)) \<le> steps_left (f n)"
    using interleaved_steps_left [of "f n" "f (Suc n)"] run_inv_at [OF assms(1)] assms(1,2) step(1)
    by (simp add: tab_run_def)
  with step.IH show ?case by simp
qed simp

lemma in_flight_ends:
  assumes "tab_run f" "refresh_fair f"
  shows "\<exists>j\<ge>i. refreshPromise (f j) = None"
proof (induction "steps_left (f i)" arbitrary: i rule: less_induct)
  case less
  show ?case
  proof (rule ccontr)
    assume "\<not> (\<exists>j\<ge>i. refreshPromise (f j) = None)"
    then have busy: "\<And>j. j \<ge> i \<Longrightarrow> refreshPromise (f j) \<noteq> None" by auto
    obtain j where j: "j \<ge> i" "run_step (f j) (f (Suc j))"
      using assms(2) busy unfolding refresh_fair_def by metis
    have "steps_left (f (Suc j)) < steps_left (f i)"
      using run_step_decreases [OF j(2) run_inv_at [OF assms(1)]] run_steps_left [OF assms(1) busy j(1)] by simp
    from less [OF this] obtain k where "k \<ge> Suc j" "refreshPromise (f k) = None" by blast
    with busy [of k] j(1) show False by simp
  qed
qed

text \<open>
  C8: no refresh stays in flight for ever. Whatever logins, rotations, sign-outs, messages of other tabs, page
  loads and further refresh requests are interleaved with it, and whatever the server answers, in every infinite run
  that lets the refresh process move on again and again the shared promise is cleared again and again, so that
  a later request can start a new refresh.
\<close>

theorem refresh_eventually_released:
  assumes "tab_run f" "refresh_fair f"
  shows "\<exists>j\<ge>i. refreshPromise (f j) = None \<and> refreshPromise (refreshAuthentication (f j)) \<noteq> None"
proof -
  obtain j where "j \<ge> i" "refreshPromise (f j) = None" using in_flight_ends [OF assms] by blast
  then show ?thesis by (auto simp: refreshAuthentication_def)
qed

text \<open>A run that starts a refresh, has its lock request rejected, and is idle from then on.\<close>

definition sample_run :: "nat \<Rightarrow> Tab" where
  "sample_run i =
     (if i = 1 then refreshAuthentication initial_tab
      else if i = 2 then initial_tab\<lparr>refreshPromise := Some (lock_reject JNull \<lparr>refreshEpoch = 0, pc = Lock_wait, sent = []\<rparr>)\<rparr>
      else initial_tab)"

lemma sample_run_steps:
  "run_step (sample_run 1) (sample_run 2)" "run_step (sample_run 2) (sample_run 3)"
proof -
  let ?r = "\<lparr>refreshEpoch = 0, pc = Lock_wait, sent = []\<rparr>"
  have start: "refreshAuthentication initial_tab = initial_tab\<lparr>refreshPromise := Some ?r\<rparr>"
    by (simp add: refreshAuthentication_def initial_tab_def)
  then show "run_step (sample_run 1) (sample_run 2)"
    using run_step.lock_rejected [of "initial_tab\<lparr>refreshPromise := Some ?r\<rparr>" ?r JNull] by (simp add: sample_run_def)
  show "run_step (sample_run 2) (sample_run 3)"
    using run_step.cleanup [of "sample_run 2" "lock_reject JNull ?r"]
    by (simp add: sample_run_def lock_reject_def initial_tab_def)
qed

theorem refresh_eventually_released_witness:
  "tab_run sample_run \<and> refresh_fair sample_run \<and> refreshPromise (sample_run 1) \<noteq> None
   \<and> (\<exists>j\<ge>1. refreshPromise (sample_run j) = None \<and> refreshPromise (refreshAuthentication (sample_run j)) \<noteq> None)"
proof -
  have "tab_step (sample_run i) (sample_run (Suc i))" for i
  proof -
    consider "i = 0" | "i = 1" | "i = 2" | "i \<ge> 3" by linarith
    then show ?thesis
    proof cases
      case 1
      then show ?thesis using start_refresh [of initial_tab] by (simp add: sample_run_def)
    next
      case 2
      then show ?thesis using refresh_process [OF sample_run_steps(1)] by (simp add: numeral_2_eq_2)
    next
      case 3
      then show ?thesis using refresh_process [OF sample_run_steps(2)] by simp
    next
      case 4
      then show ?thesis using reload [of "sample_run i"] by (simp add: sample_run_def)
    qed
  qed
  then have run: "tab_run sample_run" by (simp add: tab_run_def sample_run_def reach_initial)
  have "refreshPromise (sample_run (i + 3)) = None" for i by (simp add: sample_run_def initial_tab_def)
  then have fair: "refresh_fair sample_run" by (metis refresh_fair_def le_add1)
  have "refreshPromise (sample_run 1) \<noteq> None" by (simp add: sample_run_def refreshAuthentication_def initial_tab_def)
  with refresh_eventually_released [OF run fair, of 1] run fair show ?thesis by blast
qed

end
