(* ===== verification/Http_Client.thy ===== *)
theory Http_Client
  imports Auth_Machine
begin

text \<open>
  The HTTP client (\<^verbatim>\<open>web/src/lib/http-client.ts\<close>, \<^verbatim>\<open>web/src/lib/server-error-message.ts\<close>): GET
  requests with the same session, address and parameters share one request in flight, a request that
  fails with 401 is sent once more after a refresh, and every other failure is reported. The transport
  (axios), the translation function and the location of the page are parameters. A promise is the
  number of the request it belongs to; \<open>issued\<close> records what each request was made for.
\<close>

section \<open>Error messages\<close>

text \<open>The table of known codes; properties inherited from \<^verbatim>\<open>Object.prototype\<close> are not looked up.\<close>

definition lquote :: string where "lquote = [CHR 0xE2, CHR 0x80, CHR 0x9C]"
definition rquote :: string where "rquote = [CHR 0xE2, CHR 0x80, CHR 0x9D]"

definition serverErrorMessageKeys :: "(string \<times> string) list" where
  "serverErrorMessageKeys =
     [(''AUTH_SESSION_LIMIT'',
       ''Too many active login sessions. On a device where you are already signed in, open Login sessions and use ''
       @ lquote @ ''Sign out other sessions'' @ rquote @
       '' to revoke them. If you cannot access a signed-in device, reset your password to sign out all sessions.''),
      (''AUTH_SESSION_ISSUANCE_LIMIT'',
       ''Too many login sessions were created recently. Please wait for the rolling window to pass, then try again.''),
      (''TELEGRAM_BIND_DISABLED'', ''Telegram binding is disabled.''),
      (''TELEGRAM_BIND_INVALID_REQUEST'', ''The Telegram authorization request is invalid or expired.''),
      (''TELEGRAM_BIND_FLOW_INVALID'', ''This Telegram binding request has expired or has already been used.''),
      (''TELEGRAM_BIND_SESSION_INVALID'',
       ''The login session that started this Telegram binding is no longer valid.''),
      (''TELEGRAM_BIND_ALREADY_BOUND'', ''This Telegram account is already bound.''),
      (''TELEGRAM_BIND_USER_DELETED'', ''This user account no longer exists.''),
      (''TELEGRAM_BIND_USER_DISABLED'', ''This user account is disabled.''),
      (''TELEGRAM_BIND_INTERNAL_ERROR'', ''Telegram binding failed. Please try again.'')]"

definition serverErrorPayload :: "jsval \<Rightarrow> jsval option" where
  "serverErrorPayload v =
     (if \<not> isRecord v then None
      else if isRecord (field v ''response'') \<and> isRecord (field (field v ''response'') ''data'')
      then Some (field (field v ''response'') ''data'')
      else Some v)"

definition getServerErrorMessageKey :: "jsval \<Rightarrow> string option" where
  "getServerErrorMessageKey v =
     (case serverErrorPayload v of
        None \<Rightarrow> None
      | Some p \<Rightarrow> if is_string (field p ''code'') then map_of serverErrorMessageKeys (str_of (field p ''code'')) else None)"

section \<open>Requests\<close>

record ApiRequestConfig =
  skipBusinessError :: bool
  skipErrorHandler :: bool
  disableDuplicate :: bool
  skipAuthRefresh :: bool
  authRetry :: bool
  acceptAuthRotation :: bool
  headers :: "(string, string) jmap"

type_synonym request_id = nat

record Client =
  tab :: Tab
  inFlightGet :: "(string, request_id) jmap"
  issued :: "(string option \<times> string \<times> string) list" \<comment> \<open>session, address and parameters by request number\<close>

definition session_name :: "Tab \<Rightarrow> string" where
  "session_name t = or_str (current_sid t) ''anonymous''"

definition params_text :: "string option \<Rightarrow> string" where
  "params_text p = (case p of None \<Rightarrow> ''{}'' | Some s \<Rightarrow> s)"

definition get_key :: "string \<Rightarrow> string \<Rightarrow> string \<Rightarrow> string" where
  "get_key s url params = s @ '':'' @ url @ ''?'' @ params"

definition originalGet :: "string \<Rightarrow> string \<Rightarrow> Client \<Rightarrow> Client \<times> request_id" where
  "originalGet url params c =
     (c\<lparr>issued := issued c @ [(current_sid (tab c), url, params)]\<rparr>, length (issued c))"

definition api_get :: "string \<Rightarrow> string option \<Rightarrow> ApiRequestConfig \<Rightarrow> Client \<Rightarrow> Client \<times> request_id" where
  "api_get url params config c =
     (if disableDuplicate config then originalGet url (params_text params) c
      else
        (let key = get_key (session_name (tab c)) url (params_text params) in
         case map_get (inFlightGet c) key of
           Some existingRequest \<Rightarrow> (c, existingRequest)
         | None \<Rightarrow>
             (let (c', request) = originalGet url (params_text params) c in
              (c'\<lparr>inFlightGet := map_set key request (inFlightGet c')\<rparr>, request))))"

text \<open>The \<^verbatim>\<open>finally\<close> handler of a request in flight.\<close>

definition get_settled :: "string \<Rightarrow> Client \<Rightarrow> Client" where
  "get_settled key c = c\<lparr>inFlightGet := map_delete key (inFlightGet c)\<rparr>"

definition request_interceptor :: "Tab \<Rightarrow> ApiRequestConfig \<Rightarrow> ApiRequestConfig" where
  "request_interceptor t config =
     (case accessToken (auth t) of
        None \<Rightarrow> config
      | Some tok \<Rightarrow> if tok = [] then config
                     else config\<lparr>headers := map_set ''Authorization'' (''Bearer '' @ tok) (headers config)\<rparr>)"

section \<open>Responses\<close>

datatype effect = Toast string | Redirect_sign_in

definition redirectToSignIn :: "string \<Rightarrow> effect list" where
  "redirectToSignIn pathname = (if pathname \<noteq> ''/sign-in'' then [Redirect_sign_in] else [])"

text \<open>The handler of successful responses: a rotation may throw, a business error is shown.\<close>

definition on_response ::
  "(string \<Rightarrow> string) \<Rightarrow> ApiRequestConfig \<Rightarrow> jsval \<Rightarrow> Tab \<Rightarrow> AuthRotationError + (Tab \<times> effect list)" where
  "on_response tr config body t =
     (case (if acceptAuthRotation config \<and> field body ''success'' = JBool True
            then applyAuthRotation (field body ''data'') t else Inr t) of
        Inl e \<Rightarrow> Inl e
      | Inr t' \<Rightarrow>
          Inr (t', if \<not> skipBusinessError config \<and> field body ''success'' = JBool False
                   then [Toast (case getServerErrorMessageKey body of
                           Some k \<Rightarrow> tr k
                         | None \<Rightarrow> if truthy (field body ''message'') then to_str (field body ''message'')
                                   else tr ''Request failed'')]
                   else []))"

datatype error_step = Await_refresh ApiRequestConfig | Fail "effect list" | Retry ApiRequestConfig

definition expired_toast :: "(string \<Rightarrow> string) \<Rightarrow> bool \<Rightarrow> effect list" where
  "expired_toast tr skip = (if skip then [] else [Toast (tr ''Session expired!'')])"

definition error_message :: "(string \<Rightarrow> string) \<Rightarrow> jsval \<Rightarrow> string" where
  "error_message tr err =
     (case getServerErrorMessageKey err of
        Some k \<Rightarrow> tr k
      | None \<Rightarrow>
          (let m = field (field (field err ''response'') ''data'') ''message'' in
           if truthy m then to_str m
           else if truthy (field err ''message'') then to_str (field err ''message'')
           else tr ''Request failed''))"

text \<open>
  The handler of failed responses up to the refresh it may await, and what follows. \<open>Fail\<close> is the final
  \<^verbatim>\<open>throw error\<close> with the effects before it; a refresh promise that is rejected throws its own error instead.
\<close>

definition on_error ::
  "(string \<Rightarrow> string) \<Rightarrow> string \<Rightarrow> ApiRequestConfig option \<Rightarrow> nat \<Rightarrow> jsval \<Rightarrow> Tab \<Rightarrow> Tab \<times> error_step" where
  "on_error tr pathname config st err t =
     (let skip = (case config of None \<Rightarrow> False | Some cfg \<Rightarrow> skipErrorHandler cfg) in
      if st = 401 then
        (case config of
           Some cfg \<Rightarrow>
             if \<not> skipAuthRefresh cfg \<and> \<not> authRetry cfg
             then (refreshAuthentication t, Await_refresh (cfg\<lparr>authRetry := True\<rparr>))
             else if authRetry cfg
             then (clearAuthentication False Complete t, Fail (expired_toast tr skip @ redirectToSignIn pathname))
             else (t, Fail (expired_toast tr skip))
         | None \<Rightarrow> (t, Fail (expired_toast tr skip)))
      else (t, Fail (if skip then [] else [Toast (error_message tr err)])))"

definition error_resume ::
  "(string \<Rightarrow> string) \<Rightarrow> string \<Rightarrow> ApiRequestConfig \<Rightarrow> promise \<Rightarrow> Tab \<Rightarrow> error_step" where
  "error_resume tr pathname cfg result t =
     (case result of
        Rejected _ \<Rightarrow> Fail []
      | Resolved (Authenticated _) \<Rightarrow>
          Retry (case accessToken (auth t) of
                   None \<Rightarrow> cfg
                 | Some tok \<Rightarrow> if tok = [] then cfg
                     else cfg\<lparr>headers := map_set ''Authorization'' (''Bearer '' @ tok) (headers cfg)\<rparr>)
      | Resolved (Transient_error _) \<Rightarrow> Fail []
      | Resolved _ \<Rightarrow> Fail (expired_toast tr (skipErrorHandler cfg) @ redirectToSignIn pathname))"

section \<open>Requests in flight\<close>

text \<open>
  The steps of the client: GET requests are made and settle while the session of the tab changes by
  any step of \<open>Auth_Machine\<close>.
\<close>

inductive client_reachable :: "Client \<Rightarrow> bool" where
  client_init: "client_reachable \<lparr>tab = initial_tab, inFlightGet = [], issued = []\<rparr>"
| client_get: "client_reachable c \<Longrightarrow> client_reachable (fst (api_get url params config c))"
| client_settled: "client_reachable c \<Longrightarrow> client_reachable (get_settled key c)"
| client_tab: "client_reachable c \<Longrightarrow> tab_step (tab c) t' \<Longrightarrow> client_reachable (c\<lparr>tab := t'\<rparr>)"

definition name_of_sid :: "string option \<Rightarrow> string" where
  "name_of_sid s = or_str s ''anonymous''"

definition flight_inv :: "Client \<Rightarrow> bool" where
  "flight_inv c \<longleftrightarrow>
     (\<forall>key req. map_get (inFlightGet c) key = Some req \<longrightarrow>
        req < length (issued c) \<and>
        (case issued c ! req of (s, url, params) \<Rightarrow> key = get_key (name_of_sid s) url params))"

lemma session_name_eq: "session_name t = name_of_sid (current_sid t)"
  by (simp add: session_name_def name_of_sid_def)

lemma api_get_cases:
  assumes "api_get url params config c = (c', req)"
  obtains
    (shared) "map_get (inFlightGet c) (get_key (session_name (tab c)) url (params_text params)) = Some req"
      "c' = c"
  | (fresh) fl where "req = length (issued c)"
      "c' = c\<lparr>issued := issued c @ [(current_sid (tab c), url, params_text params)], inFlightGet := fl\<rparr>"
      "fl = inFlightGet c \<or>
       fl = map_set (get_key (session_name (tab c)) url (params_text params)) req (inFlightGet c)"
proof (cases "disableDuplicate config")
  case True
  with assms have "req = length (issued c)"
    "c' = c\<lparr>issued := issued c @ [(current_sid (tab c), url, params_text params)], inFlightGet := inFlightGet c\<rparr>"
    by (auto simp: api_get_def originalGet_def)
  then show ?thesis by (rule fresh) simp
next
  case False
  let ?key = "get_key (session_name (tab c)) url (params_text params)"
  show ?thesis
  proof (cases "map_get (inFlightGet c) ?key")
    case None
    with assms False have "req = length (issued c)"
      "c' = c\<lparr>issued := issued c @ [(current_sid (tab c), url, params_text params)],
        inFlightGet := map_set ?key req (inFlightGet c)\<rparr>"
      by (auto simp: api_get_def originalGet_def Let_def)
    then show ?thesis by (rule fresh) simp
  next
    case (Some e)
    with assms False have "map_get (inFlightGet c) ?key = Some req" "c' = c"
      by (auto simp: api_get_def Let_def)
    then show ?thesis by (rule shared)
  qed
qed

definition issued_key :: "(string option \<times> string \<times> string) \<Rightarrow> string" where
  "issued_key e = (case e of (s, url, params) \<Rightarrow> get_key (name_of_sid s) url params)"

lemma flight_inv_alt:
  "flight_inv c \<longleftrightarrow> (\<forall>key req. map_get (inFlightGet c) key = Some req \<longrightarrow>
     req < length (issued c) \<and> key = issued_key (issued c ! req))"
  by (simp add: flight_inv_def issued_key_def split_beta)

lemma flight_inv_get: "flight_inv c \<Longrightarrow> flight_inv (fst (api_get url params config c))"
proof -
  assume inv: "flight_inv c"
  obtain c' req where g: "api_get url params config c = (c', req)" by (meson surj_pair)
  then have "flight_inv c'"
  proof (cases rule: api_get_cases)
    case shared
    with inv show ?thesis by simp
  next
    case (fresh fl)
    have key: "issued_key (current_sid (tab c), url, params_text params) =
        get_key (session_name (tab c)) url (params_text params)"
      by (simp add: issued_key_def session_name_eq)
    have old: "r < length (issued c) \<and> k = issued_key (issued c ! r)" if "map_get (inFlightGet c) k = Some r" for k r
      using inv that by (simp add: flight_inv_alt)
    from fresh(3) show ?thesis
    proof
      assume "fl = inFlightGet c"
      with fresh(2) old show ?thesis by (auto simp: flight_inv_alt nth_append less_SucI)
    next
      assume "fl = map_set (get_key (session_name (tab c)) url (params_text params)) req (inFlightGet c)"
      with fresh(1,2) old key show ?thesis
        by (auto simp: flight_inv_alt nth_append less_SucI map_get_set split: if_splits)
    qed
  qed
  with g show ?thesis by simp
qed

lemma flight_inv_reachable: "client_reachable c \<Longrightarrow> flight_inv c"
proof (induction rule: client_reachable.induct)
  case client_init
  then show ?case by (simp add: flight_inv_def)
next
  case (client_get c url params config)
  then show ?case by (blast intro: flight_inv_get)
next
  case (client_settled c key)
  then show ?case by (auto simp: flight_inv_def get_settled_def store_simps)
next
  case (client_tab c t')
  then show ?case by (simp add: flight_inv_def)
qed

lemma append_sep_eq: "c \<notin> set a \<Longrightarrow> c \<notin> set b \<Longrightarrow> a @ c # x = b @ c # y \<longleftrightarrow> a = b \<and> x = y"
proof (induction a arbitrary: b)
  case Nil
  then show ?case by (cases b) auto
next
  case (Cons x a)
  then show ?case by (cases b) auto
qed

text \<open>
  The text of parameters is that of an object, and no address has a brace right after a question mark: a
  query never starts with a brace, since braces of its names are percent-encoded.
\<close>

definition object_text :: "string \<Rightarrow> bool" where
  "object_text p \<longleftrightarrow> startsWith p ''{''"

definition query_plain :: "string \<Rightarrow> bool" where
  "query_plain url \<longleftrightarrow> \<not> str_includes url ''?{''"

lemma query_plain_tl: "query_plain (c # url) \<Longrightarrow> query_plain url"
  by (simp add: query_plain_def)

lemma query_sep_eq:
  "query_plain a \<Longrightarrow> query_plain b \<Longrightarrow> a @ ''?{'' @ x = b @ ''?{'' @ y \<longleftrightarrow> a = b \<and> x = y"
proof (induction a arbitrary: b)
  case Nil
  then show ?case by (cases b; cases "tl b") (auto simp: query_plain_def)
next
  case (Cons c a)
  show ?case
  proof (cases b)
    case Nil
    then show ?thesis using Cons.prems(1) by (cases a) (auto simp: query_plain_def)
  next
    case (Cons d b')
    then show ?thesis
      using Cons.IH [OF query_plain_tl [OF Cons.prems(1)] query_plain_tl [of d b']] Cons.prems(2) by auto
  qed
qed

lemma get_key_session:
  assumes "CHR '':'' \<notin> set s" "CHR '':'' \<notin> set s'" "get_key s url params = get_key s' url' params'"
  shows "s = s'"
  using assms by (simp add: get_key_def append_sep_eq)

lemma get_key_request:
  assumes "query_plain url" "query_plain url'" "object_text params" "object_text params'"
  shows "get_key s url params = get_key s url' params' \<longleftrightarrow> url = url' \<and> params = params'"
  using assms(3,4) query_sep_eq [OF assms(1,2)]
  by (auto simp: get_key_def object_text_def startsWith_iff)

lemma api_get_issued:
  assumes "flight_inv c" "api_get url params config c = (c', req)"
  shows "req < length (issued c') \<and>
    issued_key (issued c' ! req) = get_key (session_name (tab c)) url (params_text params)"
  using assms(2)
proof (cases rule: api_get_cases)
  case shared
  with assms(1) show ?thesis by (auto simp: flight_inv_alt)
next
  case (fresh fl)
  then show ?thesis by (simp add: issued_key_def session_name_eq)
qed

section \<open>Properties\<close>

text \<open>
  C9: sharing GET requests never mixes sessions. In every reachable client the promise a GET call returns
  belongs to a request that was made for the same session, whatever the addresses and parameters are,
  provided that the identifiers of the two sessions contain no colon (the server issues UUIDs). It was made for the same address
  and parameters as well, when the parameters are objects and no address contains a question mark
  followed by a brace; queries in the address are allowed.
\<close>

theorem get_never_crosses_sessions:
  assumes "client_reachable c" "api_get url params config c = (c', req)"
    "issued c' ! req = (s, url', params')"
    "CHR '':'' \<notin> set (session_name (tab c))" "CHR '':'' \<notin> set (name_of_sid s)"
  shows "name_of_sid s = session_name (tab c) \<and>
    (query_plain url \<and> query_plain url' \<and> object_text (params_text params) \<and> object_text params' \<longrightarrow>
       url' = url \<and> params' = params_text params)"
proof -
  have key: "get_key (name_of_sid s) url' params' = get_key (session_name (tab c)) url (params_text params)"
    using api_get_issued [OF flight_inv_reachable [OF assms(1)] assms(2)] by (simp add: issued_key_def assms(3))
  have "name_of_sid s = session_name (tab c)" by (rule get_key_session [OF assms(5,4) key])
  with key show ?thesis using get_key_request by auto
qed

definition plain_config :: ApiRequestConfig where
  "plain_config = \<lparr>skipBusinessError = False, skipErrorHandler = False, disableDuplicate = False,
     skipAuthRefresh = False, authRetry = False, acceptAuthRotation = False, headers = []\<rparr>"

theorem get_never_crosses_sessions_witness:
  "\<exists>c c'. client_reachable c \<and> api_get ''/api/log/?p=1'' None plain_config c = (c', 0) \<and> c' = c \<and>
     issued c' ! 0 = (None, ''/api/log/?p=1'', ''{}'') \<and> name_of_sid None = session_name (tab c) \<and>
     query_plain ''/api/log/?p=1'' \<and> object_text (params_text None)"
proof -
  let ?c0 = "\<lparr>tab = initial_tab, inFlightGet = [], issued = []\<rparr>"
  let ?c = "fst (api_get ''/api/log/?p=1'' None plain_config ?c0)"
  have r: "client_reachable ?c" by (rule client_get [OF client_init])
  have c: "?c = \<lparr>tab = initial_tab, inFlightGet = [(''anonymous:/api/log/?p=1?{}'', 0)],
      issued = [(None, ''/api/log/?p=1'', ''{}'')]\<rparr>"
    by (simp add: api_get_def originalGet_def plain_config_def session_name_def initial_tab_def
        initial_store_def get_key_def params_text_def or_str_def Let_def)
  have g: "api_get ''/api/log/?p=1'' None plain_config ?c = (?c, 0)"
    unfolding c by (simp add: api_get_def plain_config_def session_name_def initial_tab_def
        initial_store_def get_key_def params_text_def or_str_def Let_def map_get_def)
  have i: "issued ?c ! 0 = (None, ''/api/log/?p=1'', ''{}'')" by (simp add: c)
  have n: "session_name (tab ?c) = ''anonymous''"
    unfolding c by (simp add: session_name_def initial_tab_def initial_store_def or_str_def)
  have "name_of_sid None = session_name (tab ?c)"
    using get_never_crosses_sessions [OF r g i] by (simp add: n name_of_sid_def or_str_def)
  moreover have "query_plain ''/api/log/?p=1''" "object_text (params_text None)"
    by (simp_all add: query_plain_def object_text_def params_text_def)
  ultimately show ?thesis using r g i by blast
qed

text \<open>
  C23: a request is repeated at most once. The failure handler awaits a refresh only for a 401 of a request
  that has not been repeated; the repeated request carries the token of the store, and if it fails with
  401 again, the tab drops its credentials without informing other tabs and asks for a new sign-in.
\<close>

theorem retry_at_most_once:
  assumes "on_error tr path (Some cfg) st err t = (t1, Await_refresh cfg1)"
    "error_resume tr path cfg1 result t2 = Retry cfg2"
  shows "st = 401 \<and> \<not> authRetry cfg \<and> t1 = refreshAuthentication t \<and>
    (\<forall>tok. accessToken (auth t2) = Some tok \<and> tok \<noteq> [] \<longrightarrow>
       map_get (headers cfg2) ''Authorization'' = Some (''Bearer '' @ tok)) \<and>
    on_error tr path' (Some cfg2) 401 err' t3 =
      (clearAuthentication False Complete t3,
       Fail (expired_toast tr (skipErrorHandler cfg2) @ redirectToSignIn path'))"
  using assms
  by (auto simp: on_error_def error_resume_def Let_def store_simps
      split: if_splits promise.splits RefreshOutcome.splits option.splits)

theorem retry_at_most_once_witness:
  "\<forall>bd. \<exists>cfg2. error_resume id ''/'' (plain_config\<lparr>authRetry := True\<rparr>) (Resolved (Authenticated bd)) example_tab = Retry cfg2 \<and>
     map_get (headers cfg2) ''Authorization'' = Some ''Bearer old''"
proof
  fix bd
  have e: "on_error id ''/'' (Some plain_config) 401 JNull initial_tab =
      (refreshAuthentication initial_tab, Await_refresh (plain_config\<lparr>authRetry := True\<rparr>))"
    by (simp add: on_error_def plain_config_def)
  have a: "accessToken (auth example_tab) = Some ''old''" by (simp add: example_tab_def setBundle_def)
  obtain cfg2 where c: "error_resume id ''/'' (plain_config\<lparr>authRetry := True\<rparr>) (Resolved (Authenticated bd)) example_tab = Retry cfg2"
    by (simp add: error_resume_def)
  from retry_at_most_once [OF e c] a c
  show "\<exists>cfg2. error_resume id ''/'' (plain_config\<lparr>authRetry := True\<rparr>) (Resolved (Authenticated bd)) example_tab = Retry cfg2 \<and>
      map_get (headers cfg2) ''Authorization'' = Some ''Bearer old''" by simp
qed

end
