(* ===== verification/Js_Number.thy ===== *)
theory Js_Number
  imports Js_Prelude
begin

text \<open>
  Conversion between numbers and strings as the sources use it: \<^verbatim>\<open>Number(v)\<close>, \<^verbatim>\<open>parseInt(s, 16)\<close> on
  a validated numeral, \<^verbatim>\<open>Math.floor\<close> and \<^verbatim>\<open>toFixed\<close>. Numbers are exact, so a decimal literal denotes
  its value without rounding.
\<close>

section \<open>Numerals in a base\<close>

definition hex_val :: "char \<Rightarrow> nat option" where
  "hex_val c = (let n = (of_char c :: nat) in
     if 48 \<le> n \<and> n \<le> 57 then Some (n - 48)
     else if 97 \<le> n \<and> n \<le> 102 then Some (n - 87)
     else if 65 \<le> n \<and> n \<le> 70 then Some (n - 55)
     else None)"

fun radix_val :: "nat \<Rightarrow> nat \<Rightarrow> string \<Rightarrow> nat option" where
  "radix_val b acc [] = Some acc"
| "radix_val b acc (c # cs) =
     (case hex_val c of
        None \<Rightarrow> None
      | Some d \<Rightarrow> if d < b then radix_val b (b * acc + d) cs else None)"

lemma radix_val_bound:
  "radix_val b acc s = Some v \<Longrightarrow> 0 < b \<Longrightarrow> v < (acc + 1) * b ^ length s"
proof (induction s arbitrary: acc)
  case (Cons c cs)
  then obtain d where d: "d < b" "radix_val b (b * acc + d) cs = Some v"
    by (auto split: option.splits if_splits)
  have "b * acc + d + 1 \<le> (acc + 1) * b"
    using d(1) by (simp add: algebra_simps)
  then have "(b * acc + d + 1) * b ^ length cs \<le> (acc + 1) * b * b ^ length cs"
    by (rule mult_right_mono) simp
  with Cons.IH [OF d(2) \<open>0 < b\<close>] have "v < (acc + 1) * b * b ^ length cs" by linarith
  then show ?case by (simp add: algebra_simps)
qed simp

section \<open>Decimal literals\<close>

definition unsigned_exp :: "string \<Rightarrow> nat option" where
  "unsigned_exp s = (if all_digits s then Some (digits_val s) else None)"

text \<open>The factor of an exponent part: nothing, or \<^verbatim>\<open>e\<close> with an optional sign and digits.\<close>

fun exponent_part :: "string \<Rightarrow> num option" where
  "exponent_part [] = Some 1"
| "exponent_part (e # s) =
     (if e \<noteq> CHR ''e'' \<and> e \<noteq> CHR ''E'' then None
      else (case s of
              [] \<Rightarrow> None
            | c # cs \<Rightarrow>
                if c = CHR ''-'' then map_option (\<lambda>n. 1 / 10 ^ n) (unsigned_exp cs)
                else map_option (\<lambda>n. 10 ^ n) (unsigned_exp (if c = CHR ''+'' then cs else s))))"

definition unsigned_decimal :: "string \<Rightarrow> num option" where
  "unsigned_decimal s =
     (let i = takeWhile is_digit s; r = dropWhile is_digit s;
          (f, r') = (case r of
             [] \<Rightarrow> ([], [])
           | c # cs \<Rightarrow> if c = CHR ''.'' then (takeWhile is_digit cs, dropWhile is_digit cs) else ([], r))
      in if i = [] \<and> f = [] then None
         else map_option (\<lambda>e. (of_nat (digits_val i) + of_nat (digits_val f) / 10 ^ length f) * e)
                (exponent_part r'))"

fun prefixed_numeral :: "string \<Rightarrow> nat option" where
  "prefixed_numeral (z # x # s) =
     (if z \<noteq> CHR ''0'' \<or> s = [] then None
      else if x = CHR ''x'' \<or> x = CHR ''X'' then radix_val 16 0 s
      else if x = CHR ''o'' \<or> x = CHR ''O'' then radix_val 8 0 s
      else if x = CHR ''b'' \<or> x = CHR ''B'' then radix_val 2 0 s
      else None)"
| "prefixed_numeral _ = None"

definition to_jsnum :: "num option \<Rightarrow> jsnum" where
  "to_jsnum r = (case r of None \<Rightarrow> NaN | Some v \<Rightarrow> Fin v)"

definition unsigned_literal :: "string \<Rightarrow> jsnum" where
  "unsigned_literal s = (if s = ''Infinity'' then PosInf else to_jsnum (unsigned_decimal s))"

fun neg_num :: "jsnum \<Rightarrow> jsnum" where
  "neg_num (Fin r) = Fin (- r)"
| "neg_num NaN = NaN"
| "neg_num PosInf = NegInf"
| "neg_num NegInf = PosInf"

definition Number_str :: "string \<Rightarrow> jsnum" where
  "Number_str s =
     (case trim s of
        [] \<Rightarrow> Fin 0
      | c # cs \<Rightarrow>
          if c = CHR ''-'' then neg_num (unsigned_literal cs)
          else if c = CHR ''+'' then unsigned_literal cs
          else (case prefixed_numeral (c # cs) of
                  Some n \<Rightarrow> Fin (of_nat n)
                | None \<Rightarrow> unsigned_literal (c # cs)))"

fun Number :: "jsval \<Rightarrow> jsnum" where
  "Number JUndefined = NaN"
| "Number JNull = Fin 0"
| "Number (JBool b) = Fin (if b then 1 else 0)"
| "Number (JNum n) = n"
| "Number (JStr s) = Number_str s"
| "Number (JArr vs) = Number_str (to_str (JArr vs))"
| "Number (JObj _) = NaN"

text \<open>A numeral read back is the number it denotes.\<close>

lemma takeWhile_digits: "all_digits s \<Longrightarrow> takeWhile is_digit s = s \<and> dropWhile is_digit s = []"
  by (auto simp: all_digits_def list_all_iff takeWhile_eq_all_conv dropWhile_eq_Nil_conv)

lemma unsigned_decimal_digits: "all_digits s \<Longrightarrow> unsigned_decimal s = Some (of_nat (digits_val s))"
  using takeWhile_digits [of s]
  by (simp del: dropWhile_eq_Nil_conv takeWhile_eq_all_conv add: unsigned_decimal_def digits_val_def)
    (simp add: all_digits_def)

lemma digit_not_sign: "is_digit c \<Longrightarrow> c \<noteq> CHR ''-'' \<and> c \<noteq> CHR ''+''"
  by (auto simp: is_digit_def)

lemma prefixed_numeral_digits: "all_digits s \<Longrightarrow> prefixed_numeral s = None"
  by (cases s rule: prefixed_numeral.cases) (auto simp: all_digits_def is_digit_def)

lemma Number_str_digits:
  assumes "all_digits s"
  shows "Number_str s = Fin (of_nat (digits_val s))"
proof -
  from assms obtain c cs where s: "s = c # cs" and c: "is_digit c"
    by (cases s) (auto simp: all_digits_def)
  have "trim s = s"
    using assms is_digit_not_ws by (intro trim_id) (auto simp: all_digits_def list_all_iff)
  moreover have "s \<noteq> ''Infinity''" using c s by (auto simp: is_digit_def)
  ultimately show ?thesis
    using s digit_not_sign [OF c] prefixed_numeral_digits [OF assms] unsigned_decimal_digits [OF assms]
    by (simp add: Number_str_def unsigned_literal_def to_jsnum_def)
qed

lemma Number_str_nat_str [simp]: "Number_str (nat_str n) = Fin (of_nat n)"
  by (simp add: Number_str_digits)

section \<open>Rounding\<close>

fun js_floor :: "jsnum \<Rightarrow> jsnum" where
  "js_floor (Fin r) = Fin (of_int \<lfloor>r\<rfloor>)"
| "js_floor n = n"

definition pad_left :: "nat \<Rightarrow> string \<Rightarrow> string" where
  "pad_left n s = replicate (n - length s) CHR ''0'' @ s"

text \<open>\<^verbatim>\<open>x.toFixed(d)\<close> below \<open>10 ^ 21\<close>: the nearest decimal with \<open>d\<close> places, the larger one at a tie.\<close>

definition fixed_abs :: "nat \<Rightarrow> num \<Rightarrow> string" where
  "fixed_abs d x =
     (let n = nat \<lfloor>x * 10 ^ d + 1 / 2\<rfloor> in
      nat_str (n div 10 ^ d) @ (if d = 0 then [] else ''.'' @ pad_left d (nat_str (n mod 10 ^ d))))"

definition toFixed :: "nat \<Rightarrow> num \<Rightarrow> string" where
  "toFixed d x = (if x < 0 then ''-'' @ fixed_abs d (- x) else fixed_abs d x)"

end
