(* ===== verification/Flow_Model.thy ===== *)
theory Flow_Model
  imports Js_Number Js_Collections
begin

text \<open>
  The usage flow of the dashboard: \<^verbatim>\<open>web/src/features/dashboard/lib/flow.ts\<close> with its data types from
  \<^verbatim>\<open>web/src/features/dashboard/types.ts\<close>, and \<^verbatim>\<open>flow-selection.ts\<close>. Rows of usage are turned into
  paths through the visible stages (user, node, token, group, model, channel), which are summed up
  into the nodes and links of a Sankey diagram. What the browser supplies (string collation, number
  format, the colour schemes of the chart library) is the record \<open>Host\<close>. Objects that the source
  updates in place in a \<^verbatim>\<open>Map\<close> are the values of an association list here.
\<close>

section \<open>Data\<close>

datatype FlowNodeKind = K_user | K_node | K_token | K_group | K_model | K_channel

datatype FlowMetric = M_quota | M_tokens | M_requests

datatype FlowRole = R_user | R_admin | R_root

datatype FlowOverflowMode = Aggregate | Hide

text \<open>The numeric fields come from the network and are read through \<^verbatim>\<open>Number\<close>.\<close>

record FlowQuotaDataItem =
  user_id :: jsval
  username :: "string option"
  node_name :: "string option"
  use_group :: "string option"
  token_id :: jsval
  token_name :: "string option"
  channel_id :: jsval
  channel_name :: "string option"
  model_name :: "string option"
  token_used :: jsval
  count :: jsval
  quota :: jsval

record FlowMetrics =
  m_quota :: num
  m_tokens :: num
  m_requests :: num

type_synonym FlowSummary = FlowMetrics

record FlowPathNode =
  p_id :: string
  p_label :: string
  p_kind :: FlowNodeKind

record PreparedFlowPath =
  path :: "FlowPathNode list"
  metrics :: FlowMetrics

record FlowNodeRank =
  rank_node :: FlowPathNode
  rank_value :: num

record FlowNodeFilter =
  f_kind :: FlowNodeKind
  f_id :: string

record FlowLinkSelection =
  s_source :: string
  s_target :: string

record DashboardFlowNode =
  n_id :: string
  n_label :: string
  n_kind :: FlowNodeKind
  n_value :: num
  n_requests :: num
  n_quota :: num
  n_tokens :: num
  n_color :: string
  n_colorKey :: string
  n_highlighted :: "bool option"
  n_dimmed :: "bool option"

record DashboardFlowLink =
  l_source :: string
  l_target :: string
  l_value :: num
  l_requests :: num
  l_quota :: num
  l_tokens :: num
  l_sourceLabel :: string
  l_targetLabel :: string
  l_color :: string
  l_linkColor :: string
  l_linkAlpha :: num
  l_hoverColor :: string
  l_colorKey :: string
  l_share :: num
  l_highlighted :: "bool option"
  l_dimmed :: "bool option"

record DashboardFlowGraph =
  nodes :: "DashboardFlowNode list"
  links :: "DashboardFlowLink list"

type_synonym FlowPathContext = "(num \<Rightarrow> string) option"

record FlowGraphOptions =
  topNodeLimit :: "jsnum option"
  overflowMode :: "FlowOverflowMode option"
  otherNodeLabel :: "(FlowNodeKind \<Rightarrow> string) option"
  activeNode :: "FlowNodeFilter option"
  activeLink :: "FlowLinkSelection option"
  maskSensitive :: bool

record FlowBuildOptions = FlowGraphOptions +
  role :: "FlowRole option"
  selectedUsers :: "string list option"
  selectedNodes :: "FlowNodeFilter list option"
  colorPalette_opt :: "string list option"
  visibleStages :: "FlowNodeKind list option"
  deletedTokenLabel_opt :: FlowPathContext

record FlowUserFilterOption =
  u_value :: string
  u_label :: string
  u_valueLabel :: string
  u_valueRaw :: num
  u_color :: string

record FlowNodeFilterOption =
  o_kind :: FlowNodeKind
  o_value :: string
  o_label :: string
  o_valueLabel :: string
  o_valueRaw :: num
  o_color :: string

record FlowFilterOptions =
  fo_users :: "FlowUserFilterOption list"
  fo_nodes :: "FlowNodeFilterOption list"

record ProcessedFlowData =
  summary :: FlowSummary
  flow :: DashboardFlowGraph
  filterOptions :: FlowFilterOptions

record FlowHighlightSets =
  hl_nodes :: "string list"
  hl_links :: "string list"

record ColorScheme =
  maxDomainLength :: "nat option"
  scheme :: "jsval list"

text \<open>The list of colour schemes is not empty: it is given by its last element and the ones before.\<close>

record Host =
  localeCompare :: "string \<Rightarrow> string \<Rightarrow> num"
  numberFormat :: "num \<Rightarrow> string"
  dataScheme_init :: "ColorScheme list"
  dataScheme_last :: ColorScheme

section \<open>Constants\<close>

definition NUL :: char where "NUL = CHR 0x00"

definition FLOW_NODE_KINDS :: "FlowNodeKind list" where
  "FLOW_NODE_KINDS = [K_user, K_node, K_token, K_group, K_model, K_channel]"

fun kind_name :: "FlowNodeKind \<Rightarrow> string" where
  "kind_name K_user = ''user''"
| "kind_name K_node = ''node''"
| "kind_name K_token = ''token''"
| "kind_name K_group = ''group''"
| "kind_name K_model = ''model''"
| "kind_name K_channel = ''channel''"

fun OTHER_FLOW_NODE_IDS :: "FlowNodeKind \<Rightarrow> string" where
  "OTHER_FLOW_NODE_IDS K_user = ''user:__other__''"
| "OTHER_FLOW_NODE_IDS K_node = ''node:__other__''"
| "OTHER_FLOW_NODE_IDS K_token = ''token:__other__''"
| "OTHER_FLOW_NODE_IDS K_group = ''group:__other__''"
| "OTHER_FLOW_NODE_IDS K_model = ''model:__other__''"
| "OTHER_FLOW_NODE_IDS K_channel = ''channel:__other__''"

fun DEFAULT_OTHER_FLOW_NODE_LABELS :: "FlowNodeKind \<Rightarrow> string" where
  "DEFAULT_OTHER_FLOW_NODE_LABELS K_user = ''Other users''"
| "DEFAULT_OTHER_FLOW_NODE_LABELS K_node = ''Other nodes''"
| "DEFAULT_OTHER_FLOW_NODE_LABELS K_token = ''Other tokens''"
| "DEFAULT_OTHER_FLOW_NODE_LABELS K_group = ''Other groups''"
| "DEFAULT_OTHER_FLOW_NODE_LABELS K_model = ''Other models''"
| "DEFAULT_OTHER_FLOW_NODE_LABELS K_channel = ''Other channels''"

definition SENSITIVE_FLOW_KINDS :: "FlowNodeKind list" where
  "SENSITIVE_FLOW_KINDS = [K_user, K_node, K_token, K_group, K_channel]"

definition OTHER_FLOW_NODE_ID_SET :: "string list" where
  "OTHER_FLOW_NODE_ID_SET = uniq (map OTHER_FLOW_NODE_IDS FLOW_NODE_KINDS)"

definition DEFAULT_FLOW_CHART_COLOR :: string where
  "DEFAULT_FLOW_CHART_COLOR = ''#1664FF''"

section \<open>Rows and path nodes\<close>

definition numberValue :: "jsval \<Rightarrow> num" where
  "numberValue v = (case Number v of Fin n \<Rightarrow> n | _ \<Rightarrow> 0)"

definition isFlowNodeKind :: "jsval \<Rightarrow> FlowNodeKind option" where
  "isFlowNodeKind v =
     (case v of JStr s \<Rightarrow> find (\<lambda>k. kind_name k = s) FLOW_NODE_KINDS | _ \<Rightarrow> None)"

definition rowMetrics :: "FlowQuotaDataItem \<Rightarrow> FlowMetrics" where
  "rowMetrics row = \<lparr>m_quota = numberValue (quota row), m_tokens = numberValue (token_used row),
     m_requests = numberValue (count row)\<rparr>"

definition metricValue :: "FlowMetrics \<Rightarrow> FlowMetric \<Rightarrow> num" where
  "metricValue ms metric =
     (if metric = M_requests then m_requests ms
      else if metric = M_tokens then m_tokens ms else m_quota ms)"

definition userNode :: "FlowQuotaDataItem \<Rightarrow> FlowPathNode" where
  "userNode row =
     (let userID = numberValue (user_id row) in
      \<lparr>p_id = (if userID > 0 then ''user:'' @ num_str userID
               else ''user:'' @ or_str (username row) ''unknown''),
       p_label = or_str (username row) (if userID > 0 then ''user-'' @ num_str userID else ''Unknown User''),
       p_kind = K_user\<rparr>)"

definition nodeNameNode :: "FlowQuotaDataItem \<Rightarrow> FlowPathNode" where
  "nodeNameNode row =
     (let nodeName = or_str (node_name row) ''default-node'' in
      \<lparr>p_id = ''node:'' @ nodeName, p_label = nodeName, p_kind = K_node\<rparr>)"

definition deletedTokenLabel :: "num \<Rightarrow> FlowPathContext \<Rightarrow> string" where
  "deletedTokenLabel tokenID ctx =
     (if tokenID \<le> 0 then ''Unknown Token''
      else (case ctx of None \<Rightarrow> ''token-'' @ num_str tokenID | Some f \<Rightarrow> f tokenID))"

definition tokenNode :: "FlowQuotaDataItem \<Rightarrow> FlowPathContext \<Rightarrow> FlowPathNode" where
  "tokenNode row ctx =
     (let tokenID = numberValue (token_id row) in
      \<lparr>p_id = (if tokenID > 0 then ''token:'' @ num_str tokenID
               else ''token:'' @ or_str (token_name row) ''unknown''),
       p_label = or_str (token_name row) (deletedTokenLabel tokenID ctx),
       p_kind = K_token\<rparr>)"

definition groupNode :: "FlowQuotaDataItem \<Rightarrow> FlowPathNode" where
  "groupNode row =
     (let useGroup = or_str (use_group row) ''unknown'' in
      \<lparr>p_id = ''group:'' @ useGroup, p_label = useGroup, p_kind = K_group\<rparr>)"

definition modelNode :: "FlowQuotaDataItem \<Rightarrow> FlowPathNode" where
  "modelNode row =
     \<lparr>p_id = ''model:'' @ or_str (model_name row) ''unknown'',
      p_label = or_str (model_name row) ''Unknown Model'', p_kind = K_model\<rparr>"

definition channelNode :: "FlowQuotaDataItem \<Rightarrow> FlowPathNode" where
  "channelNode row =
     (let channelID = numberValue (channel_id row) in
      \<lparr>p_id = (if channelID > 0 then ''channel:'' @ num_str channelID
               else ''channel:'' @ or_str (channel_name row) ''unknown''),
       p_label = or_str (channel_name row)
                   (if channelID > 0 then ''channel-'' @ num_str channelID else ''Unknown''),
       p_kind = K_channel\<rparr>)"

fun NODE_BUILDERS :: "FlowNodeKind \<Rightarrow> FlowQuotaDataItem \<Rightarrow> FlowPathContext \<Rightarrow> FlowPathNode" where
  "NODE_BUILDERS K_user row ctx = userNode row"
| "NODE_BUILDERS K_node row ctx = nodeNameNode row"
| "NODE_BUILDERS K_token row ctx = tokenNode row ctx"
| "NODE_BUILDERS K_group row ctx = groupNode row"
| "NODE_BUILDERS K_model row ctx = modelNode row"
| "NODE_BUILDERS K_channel row ctx = channelNode row"

fun getFlowStages :: "FlowRole \<Rightarrow> FlowNodeKind list" where
  "getFlowStages R_root = [K_user, K_node, K_token, K_group, K_model, K_channel]"
| "getFlowStages R_admin = [K_user, K_group, K_model, K_channel]"
| "getFlowStages R_user = [K_token, K_group, K_model]"

definition MIN_FLOW_STAGES :: nat where "MIN_FLOW_STAGES = 2"

definition resolveVisibleStages :: "FlowRole \<Rightarrow> FlowNodeKind list option \<Rightarrow> FlowNodeKind list" where
  "resolveVisibleStages r visible =
     (let stages = getFlowStages r in
      case visible of
        None \<Rightarrow> stages
      | Some vs \<Rightarrow>
          let filtered = filter (\<lambda>stage. stage \<in> set vs) stages in
          if length filtered \<ge> MIN_FLOW_STAGES then filtered else stages)"

definition flowPathForStages ::
  "FlowQuotaDataItem \<Rightarrow> FlowNodeKind list \<Rightarrow> FlowPathContext \<Rightarrow> FlowPathNode list" where
  "flowPathForStages row stages ctx = map (\<lambda>stage. NODE_BUILDERS stage row ctx) stages"

section \<open>Colours\<close>

text \<open>\<^verbatim>\<open>getDashboardChartColors\<close> of \<^verbatim>\<open>charts.ts\<close>. A limit of zero is falsy, like a missing one.\<close>

definition getDashboardChartColors :: "Host \<Rightarrow> nat \<Rightarrow> string list" where
  "getDashboardChartColors h domainLength =
     (let found = find (\<lambda>item. case maxDomainLength item of
                            None \<Rightarrow> True | Some mx \<Rightarrow> mx = 0 \<or> domainLength \<le> mx)
                    (dataScheme_init h @ [dataScheme_last h]);
          sch = (case found of None \<Rightarrow> dataScheme_last h | Some s \<Rightarrow> s)
      in List.map_filter (\<lambda>c. case c of JStr s \<Rightarrow> Some s | _ \<Rightarrow> None) (scheme sch))"

definition colorAt :: "Host \<Rightarrow> nat \<Rightarrow> string list option \<Rightarrow> string" where
  "colorAt h index palette =
     (let colors = (case palette of
          Some p \<Rightarrow> if p \<noteq> [] then p else getDashboardChartColors h (index + 1)
        | None \<Rightarrow> getDashboardChartColors h (index + 1)) in
      if colors = [] then DEFAULT_FLOW_CHART_COLOR else colors ! (index mod length colors))"

definition colorPalette :: "Host \<Rightarrow> nat \<Rightarrow> string list option \<Rightarrow> string list" where
  "colorPalette h colorCount palette =
     (let chart = (let colors = getDashboardChartColors h colorCount in
                   if colors \<noteq> [] then colors else [DEFAULT_FLOW_CHART_COLOR]) in
      case palette of Some p \<Rightarrow> if p \<noteq> [] then p else chart | None \<Rightarrow> chart)"

definition alphaColor :: "string \<Rightarrow> num \<Rightarrow> string \<times> num" where
  "alphaColor color alpha =
     (let normalized = trim color;
          hex = (if startsWith normalized ''#'' then drop 1 normalized else normalized) in
      case (if length hex = 6 then radix_val 16 0 hex else None) of
        None \<Rightarrow> (normalized, alpha)
      | Some v \<Rightarrow>
          (let red = v div 65536 mod 256; green = v div 256 mod 256; blue = v mod 256 in
           (''rgba('' @ nat_str red @ '', '' @ nat_str green @ '', '' @ nat_str blue @ '', '' @
              toFixed 2 alpha @ '')'', 1)))"

definition stableColorMap :: "Host \<Rightarrow> string list \<Rightarrow> string list option \<Rightarrow> (string, string) jmap" where
  "stableColorMap h ks palette =
     (let uniqueKeys = uniq ks;
          colors = colorPalette h (length uniqueKeys) palette in
      foldl (\<lambda>m (index, key). map_set key (colorAt h index (Some colors)) m) []
        (enumerate 0 uniqueKeys))"

section \<open>Filters\<close>

definition filterRows :: "FlowQuotaDataItem list \<Rightarrow> string list option \<Rightarrow> FlowQuotaDataItem list" where
  "filterRows rows selected =
     (let selectedUsers = uniq (case selected of None \<Rightarrow> [] | Some us \<Rightarrow> us) in
      if selectedUsers = [] then rows
      else filter (\<lambda>row. p_id (userNode row) \<in> set selectedUsers) rows)"

definition nodeFilterKey :: "FlowNodeFilter \<Rightarrow> string" where
  "nodeFilterKey flt = kind_name (f_kind flt) @ NUL # f_id flt"

definition add_to_kind ::
  "FlowNodeKind \<Rightarrow> string \<Rightarrow> (FlowNodeKind, string list) jmap \<Rightarrow> (FlowNodeKind, string list) jmap" where
  "add_to_kind k i m =
     map_set k (set_add i (case map_get m k of None \<Rightarrow> [] | Some s \<Rightarrow> s)) m"

definition normalizeSelectedNodeFilters ::
  "FlowNodeFilter list option \<Rightarrow> FlowNodeKind list \<Rightarrow> (FlowNodeKind, string list) jmap" where
  "normalizeSelectedNodeFilters selected stages =
     foldl (\<lambda>m flt. if f_kind flt \<notin> set stages then m else add_to_kind (f_kind flt) (f_id flt) m) []
       (case selected of None \<Rightarrow> [] | Some fs \<Rightarrow> fs)"

definition pathMatchesNodeFilters ::
  "FlowPathNode list \<Rightarrow> (FlowNodeKind, string list) jmap \<Rightarrow> bool" where
  "pathMatchesNodeFilters pth filters \<longleftrightarrow>
     filters = [] \<or>
     (let byKind = foldl (\<lambda>m n. add_to_kind (p_kind n) (p_id n) m) [] pth in
      list_all (\<lambda>(k, selectedIds).
        case map_get byKind k of
          None \<Rightarrow> False
        | Some pathIds \<Rightarrow> list_ex (\<lambda>i. i \<in> set pathIds) selectedIds) filters)"

definition filterRowsByNodes ::
  "FlowQuotaDataItem list \<Rightarrow> FlowNodeFilter list option \<Rightarrow> FlowNodeKind list \<Rightarrow> FlowPathContext \<Rightarrow>
     FlowQuotaDataItem list" where
  "filterRowsByNodes rows selected stages ctx =
     (let filters = normalizeSelectedNodeFilters selected stages in
      if filters = [] then rows
      else filter (\<lambda>row. pathMatchesNodeFilters (flowPathForStages row stages ctx) filters) rows)"

definition selectedNodeFiltersExceptKind ::
  "FlowNodeFilter list option \<Rightarrow> FlowNodeKind \<Rightarrow> FlowNodeFilter list option" where
  "selectedNodeFiltersExceptKind selected k =
     (let filtered = filter (\<lambda>flt. f_kind flt \<noteq> k) (case selected of None \<Rightarrow> [] | Some fs \<Rightarrow> fs) in
      if filtered \<noteq> [] then Some filtered else None)"

section \<open>Summing up nodes and links\<close>

definition addNode ::
  "FlowMetric \<Rightarrow> FlowMetrics \<Rightarrow> string \<Rightarrow> string \<Rightarrow> (string, DashboardFlowNode) jmap \<Rightarrow> FlowPathNode \<Rightarrow>
     (string, DashboardFlowNode) jmap" where
  "addNode metric ms color colorKey m pathNode =
     (let previous = (case map_get m (p_id pathNode) of
          Some n \<Rightarrow> n
        | None \<Rightarrow> \<lparr>n_id = p_id pathNode, n_label = p_label pathNode, n_kind = p_kind pathNode,
            n_value = 0, n_requests = 0, n_quota = 0, n_tokens = 0, n_color = color,
            n_colorKey = colorKey, n_highlighted = None, n_dimmed = None\<rparr>) in
      map_set (p_id pathNode)
        (previous\<lparr>n_value := n_value previous + metricValue ms metric,
           n_requests := n_requests previous + m_requests ms,
           n_quota := n_quota previous + m_quota ms,
           n_tokens := n_tokens previous + m_tokens ms\<rparr>) m)"

definition pathLinkKey :: "FlowPathNode \<Rightarrow> FlowPathNode \<Rightarrow> string" where
  "pathLinkKey source target = p_id source @ NUL # p_id target"

definition addLink ::
  "FlowMetric \<Rightarrow> FlowMetrics \<Rightarrow> string \<Rightarrow> string \<Rightarrow> (string, DashboardFlowLink) jmap \<Rightarrow>
     FlowPathNode \<times> FlowPathNode \<Rightarrow> (string, DashboardFlowLink) jmap" where
  "addLink metric ms color colorKey m e =
     (let source = fst e; target = snd e; key = p_id source @ NUL # p_id target;
          previous = (case map_get m key of
          Some l \<Rightarrow> l
        | None \<Rightarrow> \<lparr>l_source = p_id source, l_target = p_id target, l_value = 0, l_requests = 0,
            l_quota = 0, l_tokens = 0, l_sourceLabel = p_label source, l_targetLabel = p_label target,
            l_color = color, l_linkColor = color, l_linkAlpha = 1, l_hoverColor = color,
            l_colorKey = colorKey, l_share = 0, l_highlighted = None, l_dimmed = None\<rparr>) in
      map_set key
        (previous\<lparr>l_value := l_value previous + metricValue ms metric,
           l_requests := l_requests previous + m_requests ms,
           l_quota := l_quota previous + m_quota ms,
           l_tokens := l_tokens previous + m_tokens ms\<rparr>) m)"

definition linkStableKey :: "DashboardFlowLink \<Rightarrow> string" where
  "linkStableKey link = l_source link @ NUL # l_target link"

definition by_value_then_key :: "Host \<Rightarrow> DashboardFlowLink \<Rightarrow> DashboardFlowLink \<Rightarrow> num" where
  "by_value_then_key h a b =
     then_cmp (l_value b - l_value a) (localeCompare h (linkStableKey a) (linkStableKey b))"

definition display_link :: "nat \<Rightarrow> nat \<Rightarrow> DashboardFlowLink \<Rightarrow> DashboardFlowLink" where
  "display_link len index link =
     (let denominator = max (len - 1) 1;
          alpha = (if len = 1 then 34 / 100
                   else 24 / 100 + (of_nat index / of_nat denominator) * (2 / 10));
          displayColor = alphaColor (l_color link) alpha in
      link\<lparr>l_linkColor := fst displayColor, l_linkAlpha := snd displayColor,
           l_hoverColor := l_color link\<rparr>)"

text \<open>
  The source updates the links of a source in place; a link of the list is identified by its key,
  which is unique there.
\<close>

definition assign_group :: "Host \<Rightarrow> DashboardFlowLink list \<Rightarrow> DashboardFlowLink list \<Rightarrow> DashboardFlowLink list" where
  "assign_group h ls sourceLinks =
     (let sortedLinks = js_sort (by_value_then_key h) sourceLinks in
      foldl (\<lambda>ls (index, link).
          map (\<lambda>l. if linkStableKey l = linkStableKey link
                   then display_link (length sortedLinks) index l else l) ls)
        ls (enumerate 0 sortedLinks))"

definition assignLinkDisplayColors :: "Host \<Rightarrow> DashboardFlowLink list \<Rightarrow> DashboardFlowLink list" where
  "assignLinkDisplayColors h ls =
     (let linksBySource = foldl (\<lambda>m link.
          map_set (l_source link)
            ((case map_get m (l_source link) of None \<Rightarrow> [] | Some xs \<Rightarrow> xs) @ [link]) m) [] ls in
      foldl (assign_group h) ls (map_values linksBySource))"

definition byValueThenLabel :: "Host \<Rightarrow> DashboardFlowNode \<Rightarrow> DashboardFlowNode \<Rightarrow> num" where
  "byValueThenLabel h a b =
     then_cmp (n_value b - n_value a) (localeCompare h (n_label a) (n_label b))"

definition buildSummary :: "FlowQuotaDataItem list \<Rightarrow> FlowSummary" where
  "buildSummary rows =
     foldl (\<lambda>s row. let ms = rowMetrics row in
         s\<lparr>m_quota := m_quota s + m_quota ms, m_tokens := m_tokens s + m_tokens ms,
           m_requests := m_requests s + m_requests ms\<rparr>)
       \<lparr>m_quota = 0, m_tokens = 0, m_requests = 0\<rparr> rows"

section \<open>The largest nodes of a stage\<close>

definition normalizeTopNodeLimit :: "jsnum option \<Rightarrow> nat option" where
  "normalizeTopNodeLimit limit =
     (case limit of
        None \<Rightarrow> None
      | Some l \<Rightarrow> (case js_floor l of Fin r \<Rightarrow> if r > 0 then Some (nat \<lfloor>r\<rfloor>) else None | _ \<Rightarrow> None))"

definition otherFlowNode :: "FlowNodeKind \<Rightarrow> (FlowNodeKind \<Rightarrow> string) option \<Rightarrow> FlowPathNode" where
  "otherFlowNode k labeler =
     \<lparr>p_id = OTHER_FLOW_NODE_IDS k,
      p_label = (case labeler of None \<Rightarrow> DEFAULT_OTHER_FLOW_NODE_LABELS k | Some f \<Rightarrow> f k),
      p_kind = k\<rparr>"

definition rank_cmp :: "Host \<Rightarrow> FlowNodeRank \<Rightarrow> FlowNodeRank \<Rightarrow> num" where
  "rank_cmp h a b =
     then_cmp (rank_value b - rank_value a)
       (then_cmp (localeCompare h (p_label (rank_node a)) (p_label (rank_node b)))
          (localeCompare h (p_id (rank_node a)) (p_id (rank_node b))))"

type_synonym stage_totals = "(FlowNodeKind, (string, FlowNodeRank) jmap) jmap"

definition add_total :: "num \<Rightarrow> stage_totals \<Rightarrow> FlowPathNode \<Rightarrow> stage_totals" where
  "add_total v totals n =
     (case map_get totals (p_kind n) of
        None \<Rightarrow> totals
      | Some stageTotals \<Rightarrow>
          let current = (case map_get stageTotals (p_id n) of
                None \<Rightarrow> \<lparr>rank_node = n, rank_value = 0\<rparr> | Some r \<Rightarrow> r) in
          map_set (p_kind n)
            (map_set (p_id n) (current\<lparr>rank_value := rank_value current + v\<rparr>) stageTotals) totals)"

definition buildTopNodeSets ::
  "Host \<Rightarrow> FlowQuotaDataItem list \<Rightarrow> FlowMetric \<Rightarrow> FlowNodeKind list \<Rightarrow> nat option \<Rightarrow> FlowPathContext \<Rightarrow>
     (FlowNodeKind, string list) jmap option" where
  "buildTopNodeSets h rows metric stages limit ctx =
     (case limit of
        None \<Rightarrow> None
      | Some 0 \<Rightarrow> None
      | Some (Suc l) \<Rightarrow>
          (let totals0 = foldl (\<lambda>m stage. map_set stage [] m) [] stages;
               totals = foldl (\<lambda>m row.
                 foldl (add_total (metricValue (rowMetrics row) metric)) m
                   (flowPathForStages row stages ctx)) totals0 rows
           in Some (foldl (\<lambda>m (k, stageTotals).
                map_set k (uniq (map (\<lambda>r. p_id (rank_node r))
                  (take (Suc l) (js_sort (rank_cmp h) (map_values stageTotals))))) m) [] totals)))"

definition isTopFlowNode :: "FlowPathNode \<Rightarrow> (FlowNodeKind, string list) jmap option \<Rightarrow> bool" where
  "isTopFlowNode n topNodeSets \<longleftrightarrow>
     (case topNodeSets of
        None \<Rightarrow> True
      | Some m \<Rightarrow> (case map_get m (p_kind n) of None \<Rightarrow> True | Some topNodes \<Rightarrow> p_id n \<in> set topNodes))"

definition applyTopNodeLimit ::
  "FlowPathNode list \<Rightarrow> (FlowNodeKind, string list) jmap option \<Rightarrow> FlowOverflowMode \<Rightarrow>
     (FlowNodeKind \<Rightarrow> string) option \<Rightarrow> FlowPathNode list option" where
  "applyTopNodeLimit pth topNodeSets mode labeler =
     (case topNodeSets of
        None \<Rightarrow> Some pth
      | Some _ \<Rightarrow>
          if \<not> list_ex (\<lambda>n. \<not> isTopFlowNode n topNodeSets) pth then Some pth
          else if mode = Hide then None
          else Some (map (\<lambda>n. if isTopFlowNode n topNodeSets then n
                              else otherFlowNode (p_kind n) labeler) pth))"

section \<open>Highlighting and masking\<close>

definition pathContainsFlowNode :: "FlowPathNode list \<Rightarrow> FlowNodeFilter \<Rightarrow> bool" where
  "pathContainsFlowNode pth flt \<longleftrightarrow> list_ex (\<lambda>n. p_kind n = f_kind flt \<and> p_id n = f_id flt) pth"

text \<open>The consecutive pairs of a path, in order.\<close>

abbreviation steps :: "'a list \<Rightarrow> ('a \<times> 'a) list" where
  "steps pth \<equiv> zip pth (tl pth)"

definition pathContainsFlowLink :: "FlowPathNode list \<Rightarrow> FlowLinkSelection \<Rightarrow> bool" where
  "pathContainsFlowLink pth link \<longleftrightarrow>
     list_ex (\<lambda>(a, b). p_id a = s_source link \<and> p_id b = s_target link) (steps pth)"

definition matchesPath ::
  "FlowNodeFilter option \<Rightarrow> FlowLinkSelection option \<Rightarrow> FlowPathNode list \<Rightarrow> bool" where
  "matchesPath active link pth =
     (case link of
        Some l \<Rightarrow> pathContainsFlowLink pth l
      | None \<Rightarrow> (case active of Some a \<Rightarrow> pathContainsFlowNode pth a | None \<Rightarrow> False))"

definition buildFlowHighlightSets ::
  "PreparedFlowPath list \<Rightarrow> FlowNodeFilter option \<Rightarrow> FlowLinkSelection option \<Rightarrow> FlowNodeKind list \<Rightarrow>
     FlowHighlightSets option" where
  "buildFlowHighlightSets preparedPaths active link stages =
     (let nodeActive = (case active of None \<Rightarrow> False | Some a \<Rightarrow> f_kind a \<in> set stages) in
      if \<not> nodeActive \<and> link = None then None
      else
        let matching = filter (\<lambda>p. matchesPath active link (path p)) preparedPaths;
            highlightedNodes = uniq (concat (map (\<lambda>p. map p_id (path p)) matching));
            highlightedLinks =
              uniq (concat (map (\<lambda>p. map (\<lambda>(a, b). pathLinkKey a b) (steps (path p))) matching))
        in if highlightedNodes = [] then None
           else Some \<lparr>hl_nodes = highlightedNodes, hl_links = highlightedLinks\<rparr>)"

text \<open>Four bullets (U+2022).\<close>

definition FLOW_MASK_TEXT :: string where
  "FLOW_MASK_TEXT = concat (replicate 4 [CHR 0xE2, CHR 0x80, CHR 0xA2])"

definition maskFlowLabel :: "string \<Rightarrow> string" where
  "maskFlowLabel label = (if label = [] then label else FLOW_MASK_TEXT)"

definition to_mask :: "DashboardFlowNode \<Rightarrow> bool" where
  "to_mask n \<longleftrightarrow> n_kind n \<in> set SENSITIVE_FLOW_KINDS \<and> n_id n \<notin> set OTHER_FLOW_NODE_ID_SET"

definition maskFlowGraphLabels ::
  "(string, DashboardFlowNode) jmap \<Rightarrow> (string, DashboardFlowLink) jmap \<Rightarrow>
     (string, DashboardFlowNode) jmap \<times> (string, DashboardFlowLink) jmap" where
  "maskFlowGraphLabels ns ls =
     (let ns' = map (\<lambda>(k, n). (k, if to_mask n then n\<lparr>n_label := maskFlowLabel (n_label n)\<rparr> else n)) ns;
          maskedById = foldl (\<lambda>m n. if to_mask n then map_set (n_id n) (maskFlowLabel (n_label n)) m else m)
                         [] (map_values ns)
      in if maskedById = [] then (ns', ls)
         else (ns', map (\<lambda>(k, l).
             (k, l\<lparr>l_sourceLabel := (case map_get maskedById (l_source l) of
                       None \<Rightarrow> l_sourceLabel l | Some t \<Rightarrow> t),
                   l_targetLabel := (case map_get maskedById (l_target l) of
                       None \<Rightarrow> l_targetLabel l | Some t \<Rightarrow> t)\<rparr>)) ls))"

definition applyFlowHighlights ::
  "(string, DashboardFlowNode) jmap \<Rightarrow> (string, DashboardFlowLink) jmap \<Rightarrow> FlowHighlightSets option \<Rightarrow>
     (string, DashboardFlowNode) jmap \<times> (string, DashboardFlowLink) jmap" where
  "applyFlowHighlights ns ls hs =
     (case hs of
        None \<Rightarrow> (ns, ls)
      | Some s \<Rightarrow>
          (map (\<lambda>(k, n). (k, n\<lparr>n_highlighted := Some (n_id n \<in> set (hl_nodes s)),
                               n_dimmed := Some (n_id n \<notin> set (hl_nodes s))\<rparr>)) ns,
           map (\<lambda>(k, l). (k, l\<lparr>l_highlighted := Some (linkStableKey l \<in> set (hl_links s)),
                               l_dimmed := Some (linkStableKey l \<notin> set (hl_links s))\<rparr>)) ls))"

section \<open>The graph\<close>

definition preparePaths ::
  "FlowQuotaDataItem list \<Rightarrow> FlowNodeKind list \<Rightarrow> FlowPathContext \<Rightarrow>
     (FlowNodeKind, string list) jmap option \<Rightarrow> FlowOverflowMode \<Rightarrow> (FlowNodeKind \<Rightarrow> string) option \<Rightarrow>
     PreparedFlowPath list" where
  "preparePaths rows stages ctx topNodeSets mode labeler =
     List.map_filter (\<lambda>row.
       map_option (\<lambda>pth. \<lparr>path = pth, metrics = rowMetrics row\<rparr>)
         (applyTopNodeLimit (flowPathForStages row stages ctx) topNodeSets mode labeler)) rows"

text \<open>\<^verbatim>\<open>prepared.path[0]?.id\<close> of the paths, without the missing and the empty ones.\<close>

definition root_ids :: "PreparedFlowPath list \<Rightarrow> string list" where
  "root_ids preparedPaths =
     List.map_filter (\<lambda>p. case path p of
         [] \<Rightarrow> None | n # _ \<Rightarrow> if p_id n = [] then None else Some (p_id n)) preparedPaths"

definition add_path ::
  "Host \<Rightarrow> FlowMetric \<Rightarrow> (string, string) jmap \<Rightarrow> string list option \<Rightarrow>
     (string, DashboardFlowNode) jmap \<times> (string, DashboardFlowLink) jmap \<Rightarrow> PreparedFlowPath \<Rightarrow>
     (string, DashboardFlowNode) jmap \<times> (string, DashboardFlowLink) jmap" where
  "add_path h metric colors palette g p =
     (case path p of
        [] \<Rightarrow> g
      | rootNode # _ \<Rightarrow>
          (let color = (case map_get colors (p_id rootNode) of None \<Rightarrow> colorAt h 0 palette | Some c \<Rightarrow> c) in
           (foldl (addNode metric (metrics p) color (p_id rootNode)) (fst g) (path p),
            foldl (addLink metric (metrics p) color (p_id rootNode)) (snd g) (steps (path p)))))"

definition link_order :: "Host \<Rightarrow> DashboardFlowLink \<Rightarrow> DashboardFlowLink \<Rightarrow> num" where
  "link_order h a b =
     then_cmp (localeCompare h (l_source a) (l_source b)) (localeCompare h (l_target a) (l_target b))"

definition first_step_total :: "PreparedFlowPath list \<Rightarrow> DashboardFlowLink list \<Rightarrow> num" where
  "first_step_total preparedPaths flowLinks =
     (let firstStepSources = uniq (root_ids preparedPaths) in
      foldl (\<lambda>s l. s + l_value l) 0
        (filter (\<lambda>l. l_source l \<in> set firstStepSources) flowLinks))"

definition set_share :: "num \<Rightarrow> DashboardFlowLink \<Rightarrow> DashboardFlowLink" where
  "set_share flowTotal l = l\<lparr>l_share := (if flowTotal > 0 then l_value l / flowTotal else 0)\<rparr>"

definition flow_prepared ::
  "Host \<Rightarrow> FlowQuotaDataItem list \<Rightarrow> FlowMetric \<Rightarrow> FlowNodeKind list \<Rightarrow> FlowPathContext \<Rightarrow>
     'a FlowGraphOptions_scheme \<Rightarrow> PreparedFlowPath list" where
  "flow_prepared h rows metric stages ctx options =
     preparePaths rows stages ctx
       (buildTopNodeSets h rows metric stages (normalizeTopNodeLimit (topNodeLimit options)) ctx)
       (case overflowMode options of None \<Rightarrow> Aggregate | Some m \<Rightarrow> m) (otherNodeLabel options)"

definition buildFlowGraph ::
  "Host \<Rightarrow> FlowQuotaDataItem list \<Rightarrow> FlowMetric \<Rightarrow> FlowRole \<Rightarrow> string list option \<Rightarrow>
     FlowNodeKind list option \<Rightarrow> FlowPathContext \<Rightarrow> 'a FlowGraphOptions_scheme \<Rightarrow> DashboardFlowGraph" where
  "buildFlowGraph h rows metric r palette visible ctx options =
     (let stages = resolveVisibleStages r visible;
          preparedPaths = flow_prepared h rows metric stages ctx options;
          colors = stableColorMap h (js_sort (localeCompare h) (root_ids preparedPaths)) palette;
          g = foldl (add_path h metric colors palette) ([], []) preparedPaths;
          g' = (if maskSensitive options then maskFlowGraphLabels (fst g) (snd g) else g);
          g'' = applyFlowHighlights (fst g') (snd g')
                  (buildFlowHighlightSets preparedPaths (activeNode options) (activeLink options) stages);
          flowLinks = js_sort (link_order h) (map_values (snd g''));
          flowTotal = first_step_total preparedPaths flowLinks;
          shared = map (set_share flowTotal) flowLinks
      in \<lparr>nodes = js_sort (byValueThenLabel h) (map_values (fst g'')),
          links = assignLinkDisplayColors h shared\<rparr>)"

section \<open>Filter options\<close>

record user_total =
  t_label :: string
  t_value :: num
  t_color :: string

definition add_user ::
  "Host \<Rightarrow> FlowMetric \<Rightarrow> (string, string) jmap \<Rightarrow> string list option \<Rightarrow> (string, user_total) jmap \<Rightarrow>
     FlowQuotaDataItem \<Rightarrow> (string, user_total) jmap" where
  "add_user h metric colors palette users row =
     (let user = userNode row in
      if \<not> truthy (user_id row) \<and> (username row = None \<or> username row = Some []) then users
      else
        let current = (case map_get users (p_id user) of
              Some c \<Rightarrow> c
            | None \<Rightarrow> \<lparr>t_label = p_label user, t_value = 0,
                t_color = (case map_get colors (p_id user) of None \<Rightarrow> colorAt h 0 palette | Some c \<Rightarrow> c)\<rparr>)
        in map_set (p_id user)
             (current\<lparr>t_value := t_value current + metricValue (rowMetrics row) metric\<rparr>) users)"

definition buildUserFilterOptions ::
  "Host \<Rightarrow> FlowQuotaDataItem list \<Rightarrow> FlowMetric \<Rightarrow> string list option \<Rightarrow> FlowUserFilterOption list" where
  "buildUserFilterOptions h rows metric palette =
     (let colors = stableColorMap h
            (js_sort (localeCompare h) (map (\<lambda>row. p_id (userNode row)) rows)) palette;
          users = foldl (add_user h metric colors palette) [] rows
      in js_sort (\<lambda>a b. then_cmp (u_valueRaw b - u_valueRaw a) (localeCompare h (u_label a) (u_label b)))
           (map (\<lambda>(v, user). \<lparr>u_value = v, u_label = t_label user,
               u_valueLabel = numberFormat h (t_value user), u_valueRaw = t_value user,
               u_color = t_color user\<rparr>) users))"

definition add_rank ::
  "FlowMetric \<Rightarrow> FlowNodeKind \<Rightarrow> FlowPathContext \<Rightarrow> (string, FlowNodeRank) jmap \<Rightarrow> FlowQuotaDataItem \<Rightarrow>
     (string, FlowNodeRank) jmap" where
  "add_rank metric stage ctx totals row =
     (let n = NODE_BUILDERS stage row ctx;
          key = nodeFilterKey \<lparr>f_kind = p_kind n, f_id = p_id n\<rparr>;
          current = (case map_get totals key of
            None \<Rightarrow> \<lparr>rank_node = n, rank_value = 0\<rparr> | Some r \<Rightarrow> r)
      in map_set key
           (current\<lparr>rank_value := rank_value current + metricValue (rowMetrics row) metric\<rparr>) totals)"

definition stage_index :: "FlowNodeKind list \<Rightarrow> FlowNodeKind \<Rightarrow> num" where
  "stage_index stages k =
     (case map_get (foldl (\<lambda>m (index, stage). map_set stage (of_nat index) m) [] (enumerate 0 stages)) k of
        None \<Rightarrow> 0 | Some i \<Rightarrow> i)"

definition option_order :: "Host \<Rightarrow> FlowNodeKind list \<Rightarrow> FlowNodeFilterOption \<Rightarrow> FlowNodeFilterOption \<Rightarrow> num" where
  "option_order h stages a b =
     then_cmp (stage_index stages (o_kind a) - stage_index stages (o_kind b))
       (then_cmp (o_valueRaw b - o_valueRaw a)
         (then_cmp (localeCompare h (o_label a) (o_label b)) (localeCompare h (o_value a) (o_value b))))"

definition stage_options ::
  "Host \<Rightarrow> FlowQuotaDataItem list \<Rightarrow> FlowMetric \<Rightarrow> FlowNodeKind list \<Rightarrow> (string, string) jmap \<Rightarrow>
     string list option \<Rightarrow> FlowPathContext \<Rightarrow> FlowNodeFilter list option \<Rightarrow> FlowNodeKind \<Rightarrow>
     FlowNodeFilterOption list" where
  "stage_options h rows metric stages colors palette ctx selected stage =
     (let candidateRows = filterRowsByNodes rows (selectedNodeFiltersExceptKind selected stage) stages ctx;
          totals = foldl (add_rank metric stage ctx) [] candidateRows
      in map (\<lambda>r. \<lparr>o_kind = p_kind (rank_node r), o_value = p_id (rank_node r),
                o_label = p_label (rank_node r), o_valueLabel = numberFormat h (rank_value r),
                o_valueRaw = rank_value r,
                o_color = (case map_get colors (p_id (rank_node r)) of
                    None \<Rightarrow> colorAt h 0 palette | Some c \<Rightarrow> c)\<rparr>) (map_values totals))"

definition buildNodeFilterOptions ::
  "Host \<Rightarrow> FlowQuotaDataItem list \<Rightarrow> FlowMetric \<Rightarrow> FlowRole \<Rightarrow> FlowNodeKind list option \<Rightarrow>
     string list option \<Rightarrow> FlowPathContext \<Rightarrow> FlowNodeFilter list option \<Rightarrow> FlowNodeFilterOption list" where
  "buildNodeFilterOptions h rows metric r visible palette ctx selected =
     (let stages = resolveVisibleStages r visible;
          colorIds = uniq (concat (map (\<lambda>row. map p_id (flowPathForStages row stages ctx)) rows));
          colors = stableColorMap h (js_sort (localeCompare h) colorIds) palette
      in js_sort (option_order h stages)
           (concat (map (stage_options h rows metric stages colors palette ctx selected) stages)))"

definition buildFlowFilterOptions ::
  "Host \<Rightarrow> FlowQuotaDataItem list \<Rightarrow> FlowMetric \<Rightarrow> string list option \<Rightarrow> FlowRole \<Rightarrow>
     FlowNodeKind list option \<Rightarrow> FlowNodeFilter list option \<Rightarrow> FlowFilterOptions" where
  "buildFlowFilterOptions h rows metric palette r visible selected =
     \<lparr>fo_users = buildUserFilterOptions h rows metric palette,
      fo_nodes = buildNodeFilterOptions h rows metric r visible palette None selected\<rparr>"

definition buildDashboardFlowData ::
  "Host \<Rightarrow> FlowQuotaDataItem list \<Rightarrow> FlowMetric \<Rightarrow> FlowBuildOptions \<Rightarrow> ProcessedFlowData" where
  "buildDashboardFlowData h rows metric options =
     (let r = (case role options of None \<Rightarrow> R_user | Some r \<Rightarrow> r);
          palette = colorPalette_opt options;
          ctx = deletedTokenLabel_opt options;
          stages = resolveVisibleStages r (visibleStages options);
          userFilteredRows = filterRows rows (selectedUsers options);
          filteredRows = filterRowsByNodes userFilteredRows (selectedNodes options) stages ctx
      in \<lparr>summary = buildSummary filteredRows,
          flow = buildFlowGraph h filteredRows metric r palette (visibleStages options) ctx options,
          filterOptions =
            \<lparr>fo_users = buildUserFilterOptions h rows metric palette,
             fo_nodes = buildNodeFilterOptions h userFilteredRows metric r (visibleStages options)
               palette ctx (selectedNodes options)\<rparr>\<rparr>)"

section \<open>Reading a datum of the rendered chart\<close>

definition recordValue :: "jsval \<Rightarrow> jsval option" where
  "recordValue v = (if truthy v \<and> typeof_object v then Some v else None)"

definition array_at :: "jsval list \<Rightarrow> num \<Rightarrow> jsval" where
  "array_at vs i =
     (if 0 \<le> i \<and> i = of_int \<lfloor>i\<rfloor> \<and> nat \<lfloor>i\<rfloor> < length vs then vs ! nat \<lfloor>i\<rfloor> else JUndefined)"

definition sankeyDatumSource :: "jsval \<Rightarrow> jsval" where
  "sankeyDatumSource datum =
     (let nested = field datum ''datum'' in
      case nested of
        JArr vs \<Rightarrow>
          (case recordValue (array_at vs (numberValue (field datum ''depth''))) of
             Some v \<Rightarrow> v
           | None \<Rightarrow> (case recordValue (array_at vs 0) of Some v \<Rightarrow> v | None \<Rightarrow> datum))
      | _ \<Rightarrow> (case recordValue nested of Some v \<Rightarrow> v | None \<Rightarrow> datum))"

definition sankeyDatumValue :: "jsval \<Rightarrow> string \<Rightarrow> jsval" where
  "sankeyDatumValue datum key =
     (if field datum key \<noteq> JUndefined then field datum key else field (sankeyDatumSource datum) key)"

definition sankeyDatumFlag :: "jsval \<Rightarrow> string \<Rightarrow> bool" where
  "sankeyDatumFlag datum key \<longleftrightarrow> sankeyDatumValue datum key = JBool True"

definition flowSankeyDatumValue :: "jsval \<Rightarrow> string \<Rightarrow> jsval" where
  "flowSankeyDatumValue datum key =
     (case recordValue datum of Some r \<Rightarrow> sankeyDatumValue r key | None \<Rightarrow> JUndefined)"

definition isSankeyLinkDatum :: "jsval \<Rightarrow> bool" where
  "isSankeyLinkDatum datum \<longleftrightarrow>
     sankeyDatumValue datum ''source'' \<noteq> JUndefined \<and> sankeyDatumValue datum ''target'' \<noteq> JUndefined"

definition flowNodeFilterFromSankeyDatum :: "jsval \<Rightarrow> FlowNodeFilter option" where
  "flowNodeFilterFromSankeyDatum datum =
     (case recordValue datum of
        None \<Rightarrow> None
      | Some r \<Rightarrow>
          if isSankeyLinkDatum r then None
          else
            let i = flowSankeyDatumValue r ''key''; k = flowSankeyDatumValue r ''kind'' in
            if is_string i \<or> is_number i
            then map_option (\<lambda>k'. \<lparr>f_kind = k', f_id = to_str i\<rparr>) (isFlowNodeKind k)
            else None)"

text \<open>The node data of \<^verbatim>\<open>buildFlowSankeySpec\<close>, as the chart hands it back in a datum.\<close>

definition opt_bool :: "bool option \<Rightarrow> jsval" where
  "opt_bool b = (case b of None \<Rightarrow> JUndefined | Some x \<Rightarrow> JBool x)"

definition sankey_node :: "DashboardFlowNode \<Rightarrow> jsval" where
  "sankey_node n = JObj
     [(''key'', JStr (n_id n)), (''name'', JStr (n_label n)), (''rawLabel'', JStr (n_label n)),
      (''kind'', JStr (kind_name (n_kind n))), (''value'', JNum (Fin (n_value n))),
      (''requests'', JNum (Fin (n_requests n))), (''quota'', JNum (Fin (n_quota n))),
      (''tokens'', JNum (Fin (n_tokens n))), (''color'', JStr (n_color n)),
      (''colorKey'', JStr (n_colorKey n)), (''highlighted'', opt_bool (n_highlighted n)),
      (''dimmed'', opt_bool (n_dimmed n))]"

text \<open>
  \<^verbatim>\<open>byLinkDrawPriority\<close>: \<^verbatim>\<open>Number(undefined)\<close> is \<^verbatim>\<open>NaN\<close>, and so is a difference with it, which
  \<^verbatim>\<open>||\<close> skips like zero.
\<close>

definition flag_diff :: "bool option \<Rightarrow> bool option \<Rightarrow> num" where
  "flag_diff a b = (case (a, b) of (Some x, Some y) \<Rightarrow> of_bool x - of_bool y | _ \<Rightarrow> 0)"

definition byLinkDrawPriority :: "Host \<Rightarrow> DashboardFlowLink \<Rightarrow> DashboardFlowLink \<Rightarrow> num" where
  "byLinkDrawPriority h a b =
     then_cmp (flag_diff (l_dimmed a) (l_dimmed b))
       (then_cmp (flag_diff (l_highlighted b) (l_highlighted a))
         (then_cmp (l_value b - l_value a) (localeCompare h (linkStableKey a) (linkStableKey b))))"

definition link_zIndex :: "nat \<Rightarrow> DashboardFlowLink \<Rightarrow> nat" where
  "link_zIndex index link =
     (if l_highlighted link = Some True then 1000000 + index
      else if l_dimmed link = Some True then index else 100000 + index)"

definition sankey_links :: "Host \<Rightarrow> DashboardFlowGraph \<Rightarrow> (DashboardFlowLink \<times> nat) list" where
  "sankey_links h g =
     map (\<lambda>(index, link). (link, link_zIndex index link))
       (enumerate 0 (js_sort (byLinkDrawPriority h) (filter (\<lambda>l. l_value l > 0) (links g))))"

section \<open>Selection state of the panel\<close>

datatype FlowDisplayState = Loading | Error | Empty | Chart

definition requireSuccessfulFlowRows ::
  "bool \<Rightarrow> FlowQuotaDataItem list option \<Rightarrow> string option \<Rightarrow> string \<Rightarrow> string + FlowQuotaDataItem list" where
  "requireSuccessfulFlowRows success dat message fallbackMessage =
     (if \<not> success then Inl (or_str message fallbackMessage)
      else Inr (case dat of None \<Rightarrow> [] | Some rows \<Rightarrow> rows))"

definition flowDisplayState :: "bool \<Rightarrow> bool \<Rightarrow> nat \<Rightarrow> bool \<Rightarrow> FlowDisplayState" where
  "flowDisplayState isLoading isError linkCount themeReady =
     (if isLoading then Loading else if isError then Error else if linkCount = 0 then Empty
      else if \<not> themeReady then Loading else Chart)"

definition compactFlowSelectionLabel :: "nat \<Rightarrow> string" where
  "compactFlowSelectionLabel n = (if n > 0 then nat_str n else ''*'')"

definition visibleFlowUsers :: "FlowUserFilterOption list \<Rightarrow> string list \<Rightarrow> FlowUserFilterOption list" where
  "visibleFlowUsers users selected =
     (if selected = [] then users else filter (\<lambda>user. u_value user \<in> set selected) users)"

end
