(* ===== verification/Flow_Sums.thy ===== *)
theory Flow_Sums
  imports Flow_Model
begin

text \<open>
  What the read-modify-write loops of the flow graph add up. Every node and link of the raw graph
  is the sum of its events (one per visit of a path), the later passes (masking, highlighting,
  shares, display colours, sorting) change only the fields they are about, and every path follows
  the visible stages.
\<close>

section \<open>Sums over a grouped store\<close>

definition wsum :: "('k \<Rightarrow> bool) \<Rightarrow> ('v \<Rightarrow> num) \<Rightarrow> ('k, 'v) jmap \<Rightarrow> num" where
  "wsum Q f m = (\<Sum>(k, v)\<leftarrow>m. if Q k then f v else 0)"

lemma wsum_simps [simp]:
  "wsum Q f [] = 0"
  "wsum Q f ((k, v) # m) = (if Q k then f v else 0) + wsum Q f m"
  by (simp_all add: wsum_def)

lemma wsum_set:
  "map_wf m \<Longrightarrow> wsum Q f (map_set k v m) =
     wsum Q f m + (if Q k then f v - (case map_get m k of None \<Rightarrow> 0 | Some u \<Rightarrow> f u) else 0)"
proof (induction m)
  case (Cons a m)
  obtain k' v' where a: "a = (k', v')" by fastforce
  have wf: "map_wf m" "k' \<notin> set (map_keys m)" using Cons.prems a by (auto simp: map_wf_def)
  show ?case
  proof (cases "k' = k")
    case True
    then show ?thesis using a by (simp add: map_get_def)
  next
    case False
    then show ?thesis using a Cons.IH [OF wf(1)] by (simp add: map_get_def)
  qed
qed (simp add: map_get_def)

lemma wsum_upsert:
  assumes "map_wf m" "\<And>x. f (ini x) = 0" "\<And>x v. f (upd x v) = f v + w x"
  shows "wsum Q f (jm.upsert key ini upd m x) = wsum Q f m + (if Q (key x) then w x else 0)"
  using assms by (simp add: jm.upsert_def wsum_set split: option.split)

lemma map_wf_upsert [simp]: "map_wf m \<Longrightarrow> map_wf (jm.upsert key ini upd m x)"
  by (simp add: jm.upsert_def)

lemma map_wf_group [simp]: "map_wf m \<Longrightarrow> map_wf (foldl (jm.upsert key ini upd) m xs)"
  by (induction xs arbitrary: m) auto

lemma wsum_group:
  assumes "\<And>x. f (ini x) = 0" "\<And>x v. f (upd x v) = f v + w x" "map_wf m"
  shows "wsum Q f (foldl (jm.upsert key ini upd) m xs) =
     wsum Q f m + (\<Sum>x\<leftarrow>xs. if Q (key x) then w x else 0)"
  using assms(3) by (induction xs arbitrary: m) (simp_all add: wsum_upsert assms(1,2))

lemma wsum_point: "map_wf m \<Longrightarrow> (k, v) \<in> set m \<Longrightarrow> wsum (\<lambda>k'. k' = k) f m = f v"
proof (induction m)
  case (Cons a m)
  have z: "k \<notin> set (map_keys m') \<Longrightarrow> wsum (\<lambda>k'. k' = k) f m' = 0" for m'
    by (induction m') auto
  show ?case
  proof (cases "a = (k, v)")
    case True
    then show ?thesis using Cons.prems(1) z by (auto simp: map_wf_def)
  next
    case False
    then have "(k, v) \<in> set m" "fst a \<noteq> k"
      using Cons.prems by (auto simp: map_wf_def image_iff)
    then show ?thesis using Cons by (cases a) (auto simp: map_wf_def)
  qed
qed simp

lemma group_values_invariant:
  assumes "\<And>x. x \<in> set xs \<Longrightarrow> I (key x) (upd x (ini x))" "\<And>k v x. x \<in> set xs \<Longrightarrow> key x = k \<Longrightarrow> I k v \<Longrightarrow> I k (upd x v)"
    and "map_wf m" "\<forall>(k, v) \<in> set m. I k v"
  shows "\<forall>(k, v) \<in> set (foldl (jm.upsert key ini upd) m xs). I k v"
  using assms
proof (induction xs arbitrary: m)
  case (Cons x xs)
  let ?m = "jm.upsert key ini upd m x"
  have "map_wf ?m" using Cons.prems by simp
  moreover have "I k v" if "(k, v) \<in> set ?m" for k v
  proof -
    have "map_get ?m k = Some v" using that \<open>map_wf ?m\<close> by (simp add: map_get_in)
    then show ?thesis
      using Cons.prems(1) [of x] Cons.prems(2) [of x k] Cons.prems(3,4)
      by (auto simp: jm.get_upsert map_get_in split: if_splits option.splits)
  qed
  ultimately show ?case using Cons.IH [of ?m] Cons.prems(1,2) by auto
qed simp

section \<open>The raw graph as a grouping of events\<close>

type_synonym 'n event = "'n \<times> FlowMetrics \<times> string \<times> string"

definition path_color :: "Host \<Rightarrow> (string, string) jmap \<Rightarrow> string list option \<Rightarrow> PreparedFlowPath \<Rightarrow> string" where
  "path_color h colors palette p =
     (case map_get colors (p_id (hd (path p))) of None \<Rightarrow> colorAt h 0 palette | Some c \<Rightarrow> c)"

definition events_of ::
  "(FlowPathNode list \<Rightarrow> 'n list) \<Rightarrow> (PreparedFlowPath \<Rightarrow> string) \<Rightarrow> PreparedFlowPath list \<Rightarrow> 'n event list" where
  "events_of parts color P =
     concat (map (\<lambda>p. map (\<lambda>n. (n, metrics p, color p, p_id (hd (path p)))) (parts (path p))) P)"

abbreviation node_key :: "FlowPathNode event \<Rightarrow> string" where
  "node_key e \<equiv> p_id (fst e)"

definition node_ini :: "FlowPathNode event \<Rightarrow> DashboardFlowNode" where
  "node_ini e = (case e of (n, ms, color, colorKey) \<Rightarrow>
     \<lparr>n_id = p_id n, n_label = p_label n, n_kind = p_kind n, n_value = 0, n_requests = 0, n_quota = 0,
      n_tokens = 0, n_color = color, n_colorKey = colorKey, n_highlighted = None, n_dimmed = None\<rparr>)"

definition node_upd :: "FlowMetric \<Rightarrow> FlowPathNode event \<Rightarrow> DashboardFlowNode \<Rightarrow> DashboardFlowNode" where
  "node_upd metric e v = (case e of (n, ms, _) \<Rightarrow>
     v\<lparr>n_value := n_value v + metricValue ms metric, n_requests := n_requests v + m_requests ms,
       n_quota := n_quota v + m_quota ms, n_tokens := n_tokens v + m_tokens ms\<rparr>)"

abbreviation link_key :: "(FlowPathNode \<times> FlowPathNode) event \<Rightarrow> string" where
  "link_key e \<equiv> pathLinkKey (fst (fst e)) (snd (fst e))"

definition link_ini :: "(FlowPathNode \<times> FlowPathNode) event \<Rightarrow> DashboardFlowLink" where
  "link_ini e = (case e of ((a, b), ms, color, colorKey) \<Rightarrow>
     \<lparr>l_source = p_id a, l_target = p_id b, l_value = 0, l_requests = 0, l_quota = 0, l_tokens = 0,
      l_sourceLabel = p_label a, l_targetLabel = p_label b, l_color = color, l_linkColor = color,
      l_linkAlpha = 1, l_hoverColor = color, l_colorKey = colorKey, l_share = 0,
      l_highlighted = None, l_dimmed = None\<rparr>)"

definition link_upd :: "FlowMetric \<Rightarrow> (FlowPathNode \<times> FlowPathNode) event \<Rightarrow> DashboardFlowLink \<Rightarrow> DashboardFlowLink" where
  "link_upd metric e v = (case e of (n, ms, _) \<Rightarrow>
     v\<lparr>l_value := l_value v + metricValue ms metric, l_requests := l_requests v + m_requests ms,
       l_quota := l_quota v + m_quota ms, l_tokens := l_tokens v + m_tokens ms\<rparr>)"

lemma addNode_upsert:
  "addNode metric ms c ck m n = jm.upsert node_key node_ini (node_upd metric) m (n, ms, c, ck)"
  by (simp add: addNode_def jm.upsert_def node_ini_def node_upd_def Let_def split: option.split)

lemma addLink_upsert:
  "addLink metric ms c ck m e = jm.upsert link_key link_ini (link_upd metric) m (e, ms, c, ck)"
  by (cases e) (simp add: addLink_def jm.upsert_def link_ini_def link_upd_def Let_def pathLinkKey_def split: option.split)

lemma foldl_upsert_map: "foldl (\<lambda>m n. u m (g n)) m ns = foldl u m (map g ns)"
  by (induction ns arbitrary: m) auto

lemma add_path_upsert:
  "add_path h metric colors palette (ns, ls) p =
     (foldl (jm.upsert node_key node_ini (node_upd metric)) ns
        (events_of (\<lambda>pth. pth) (path_color h colors palette) [p]),
      foldl (jm.upsert link_key link_ini (link_upd metric)) ls
        (events_of steps (path_color h colors palette) [p]))"
  by (cases "path p")
    (simp_all add: add_path_def events_of_def path_color_def addNode_upsert [abs_def] addLink_upsert [abs_def]
      foldl_upsert_map [symmetric] Let_def)

lemma events_of_append: "events_of parts c (P @ P') = events_of parts c P @ events_of parts c P'"
  by (simp add: events_of_def)

lemma raw_graph:
  "foldl (add_path h metric colors palette) ([], []) P =
     (foldl (jm.upsert node_key node_ini (node_upd metric)) []
        (events_of (\<lambda>pth. pth) (path_color h colors palette) P),
      foldl (jm.upsert link_key link_ini (link_upd metric)) []
        (events_of steps (path_color h colors palette) P))"
proof (induction P rule: rev_induct)
  case (snoc p P)
  then show ?case by (simp add: events_of_append add_path_upsert)
qed (simp add: events_of_def)

section \<open>Paths follow the visible stages\<close>

lemma distinct_stages [simp]: "distinct (getFlowStages r)"
  by (cases r) auto

lemma length_stages: "2 \<le> length (getFlowStages r)"
  by (cases r) auto

lemma resolved_stages:
  "distinct (resolveVisibleStages r visible)" "2 \<le> length (resolveVisibleStages r visible)"
  "set (resolveVisibleStages r visible) \<subseteq> set (getFlowStages r)"
  using length_stages [of r]
  by (auto simp: resolveVisibleStages_def MIN_FLOW_STAGES_def Let_def split: option.split)

lemma resolved_not_Nil [simp]: "resolveVisibleStages r visible \<noteq> []"
  using resolved_stages(2) [of r visible] by auto

definition id_kind :: "string \<Rightarrow> string" where
  "id_kind i = takeWhile (\<lambda>c. c \<noteq> CHR '':'') i"

definition node_wf :: "FlowPathNode \<Rightarrow> bool" where
  "node_wf n \<longleftrightarrow> id_kind (p_id n) = kind_name (p_kind n) \<and> p_id n \<noteq> []"

lemma kind_name_inj [simp]: "kind_name k = kind_name k' \<longleftrightarrow> k = k'"
  by (cases k; cases k') auto

lemma node_wf_builder: "node_wf (NODE_BUILDERS k row ctx)"
  by (cases k) (simp_all add: node_wf_def id_kind_def userNode_def nodeNameNode_def tokenNode_def
      groupNode_def modelNode_def channelNode_def Let_def)

lemma kind_builder [simp]: "p_kind (NODE_BUILDERS k row ctx) = k"
  by (cases k) (simp_all add: userNode_def nodeNameNode_def tokenNode_def
      groupNode_def modelNode_def channelNode_def Let_def)

lemma node_wf_other: "node_wf (otherFlowNode k labeler)"
  by (cases k) (simp_all add: node_wf_def id_kind_def otherFlowNode_def)

lemma kind_other [simp]: "p_kind (otherFlowNode k labeler) = k"
  by (simp add: otherFlowNode_def)

lemma applyTopNodeLimit_cases:
  assumes "applyTopNodeLimit pth tops mode labeler = Some pth'"
  obtains "pth' = pth"
  | "mode = Aggregate"
    "pth' = map (\<lambda>n. if isTopFlowNode n tops then n else otherFlowNode (p_kind n) labeler) pth"
  using assms
  by (cases mode) (auto simp: applyTopNodeLimit_def split: option.splits if_splits)

definition path_wf :: "FlowNodeKind list \<Rightarrow> FlowPathNode list \<Rightarrow> bool" where
  "path_wf stages pth \<longleftrightarrow> map p_kind pth = stages \<and> list_all node_wf pth"

lemma path_wf_stages: "path_wf stages (flowPathForStages row stages ctx)"
  by (simp add: path_wf_def flowPathForStages_def list_all_iff node_wf_builder comp_def)

lemma path_wf_limit:
  assumes "applyTopNodeLimit pth tops mode labeler = Some pth'" "path_wf stages pth"
  shows "path_wf stages pth'"
  using assms(1)
proof (cases rule: applyTopNodeLimit_cases)
  case 2
  have "map p_kind pth' = map p_kind pth" by (simp add: 2)
  with assms(2) show ?thesis by (auto simp: path_wf_def 2 list_all_iff node_wf_other)
qed (use assms(2) in simp)

lemma prepared_in:
  "p \<in> set (preparePaths rows stages ctx tops mode labeler) \<longleftrightarrow>
     (\<exists>row \<in> set rows. applyTopNodeLimit (flowPathForStages row stages ctx) tops mode labeler = Some (path p)
        \<and> metrics p = rowMetrics row)"
  by (cases p) (auto simp: preparePaths_def List.map_filter_def image_iff)

lemma prepared_path_wf:
  "p \<in> set (flow_prepared h rows metric stages ctx options) \<Longrightarrow> path_wf stages (path p)"
  unfolding flow_prepared_def prepared_in using path_wf_limit path_wf_stages by blast

lemma path_wf_kinds:
  assumes "path_wf stages pth" "n \<in> set pth"
  shows "p_kind n \<in> set stages" "id_kind (p_id n) = kind_name (p_kind n)"
  using assms by (auto simp: path_wf_def list_all_iff node_wf_def)

lemma path_wf_not_Nil: "path_wf stages pth \<Longrightarrow> stages \<noteq> [] \<Longrightarrow> pth \<noteq> []"
  by (auto simp: path_wf_def)

lemma path_ids_distinct:
  assumes "path_wf stages pth" "distinct stages"
  shows "distinct (map p_id pth)"
proof -
  have "map (\<lambda>n. id_kind (p_id n)) pth = map kind_name stages"
    using assms(1) by (auto simp: path_wf_def node_wf_def list_all_iff)
  moreover have "distinct (map kind_name stages)"
    using assms(2) by (simp add: distinct_map inj_on_def)
  ultimately have "distinct (map id_kind (map p_id pth))" by (simp add: comp_def)
  then show ?thesis by (auto simp: distinct_map intro: inj_on_imageI2)
qed

lemma root_ids_path_wf:
  assumes "\<And>p. p \<in> set P \<Longrightarrow> path_wf stages (path p)" "stages \<noteq> []"
  shows "root_ids P = map (\<lambda>p. p_id (hd (path p))) P"
  using assms(1)
proof (induction P)
  case (Cons p P)
  have wf: "path_wf stages (path p)" using Cons.prems by simp
  then obtain n ns where "path p = n # ns" "node_wf n"
    using path_wf_not_Nil [OF wf assms(2)] by (cases "path p") (simp_all add: path_wf_def)
  then show ?case using Cons by (simp add: root_ids_def List.map_filter_def node_wf_def)
qed (simp add: root_ids_def List.map_filter_def)

section \<open>Keys without the separator\<close>

lemma NUL_not_digit: "is_digit c \<Longrightarrow> c \<noteq> NUL"
  by (auto simp: NUL_def is_digit_def)

lemma NUL_nat_str: "NUL \<notin> set (nat_str n)"
  using nat_str_chars NUL_not_digit by blast

lemma NUL_frac_str: "0 \<le> f \<Longrightarrow> f < 1 \<Longrightarrow> NUL \<notin> set (frac_str k f)"
proof (induction k arbitrary: f)
  case (Suc k)
  let ?d = "nat \<lfloor>10 * f\<rfloor>"
  have d: "of_nat ?d = (of_int \<lfloor>10 * f\<rfloor> :: rat)" using Suc.prems by simp
  have "\<lfloor>10 * f\<rfloor> < 10" using Suc.prems by (simp add: floor_less_iff)
  then have "?d < 10" by linarith
  then have "digit_chr ?d \<noteq> NUL" using NUL_not_digit is_digit_digit_chr by blast
  moreover have "NUL \<notin> set (frac_str k (10 * f - of_nat ?d))"
    by (rule Suc.IH) (use d in \<open>simp; linarith\<close>)+
  ultimately show ?case by (auto simp: Let_def)
qed simp

lemma NUL_num_str: "NUL \<notin> set (num_str x)"
proof -
  have "NUL \<notin> set (frac_str 20 (\<bar>x\<bar> - of_int \<lfloor>\<bar>x\<bar>\<rfloor>))"
    by (rule NUL_frac_str) linarith+
  moreover have "CHR ''.'' \<noteq> NUL" "CHR ''-'' \<noteq> NUL" by (simp_all add: NUL_def)
  ultimately show ?thesis using NUL_nat_str by (auto simp: num_str_def Let_def)
qed

definition nul_free :: "FlowQuotaDataItem \<Rightarrow> bool" where
  "nul_free row \<longleftrightarrow>
     list_all (\<lambda>s. case s of None \<Rightarrow> True | Some t \<Rightarrow> NUL \<notin> set t)
       [username row, node_name row, use_group row, token_name row, channel_name row, model_name row]"

lemma NUL_names:
  assumes "nul_free row" "NUL \<notin> set d"
  shows "NUL \<notin> set (or_str (username row) d)" "NUL \<notin> set (or_str (node_name row) d)"
    "NUL \<notin> set (or_str (use_group row) d)" "NUL \<notin> set (or_str (token_name row) d)"
    "NUL \<notin> set (or_str (channel_name row) d)" "NUL \<notin> set (or_str (model_name row) d)"
  using assms by (simp_all add: or_str_def nul_free_def split: option.splits)

lemma NUL_literals:
  "NUL \<notin> set ''unknown''" "NUL \<notin> set ''default-node''" "NUL \<notin> set ''user:''" "NUL \<notin> set ''node:''"
  "NUL \<notin> set ''token:''" "NUL \<notin> set ''group:''" "NUL \<notin> set ''model:''" "NUL \<notin> set ''channel:''"
  "NUL \<notin> set (OTHER_FLOW_NODE_IDS k)"
  by (simp_all add: NUL_def) (cases k; simp)

lemma NUL_builder:
  assumes "nul_free row"
  shows "NUL \<notin> set (p_id (NODE_BUILDERS k row ctx))"
proof -
  note names = NUL_names [OF assms NUL_literals(1)] NUL_names [OF assms NUL_literals(2)] NUL_num_str
  have app: "NUL \<notin> set a \<Longrightarrow> NUL \<notin> set b \<Longrightarrow> NUL \<notin> set (a @ b)" for a b by simp
  show ?thesis
    by (cases k)
      (simp_all only: NODE_BUILDERS.simps userNode_def nodeNameNode_def tokenNode_def groupNode_def
        modelNode_def channelNode_def Let_def FlowPathNode.simps split: if_split,
       (intro conjI impI app NUL_literals names)+)
qed

section \<open>What the later passes leave alone\<close>

definition node_core :: "DashboardFlowNode \<Rightarrow> DashboardFlowNode" where
  "node_core n = n\<lparr>n_label := [], n_highlighted := None, n_dimmed := None\<rparr>"

definition link_plain :: "DashboardFlowLink \<Rightarrow> DashboardFlowLink" where
  "link_plain l = l\<lparr>l_linkColor := [], l_linkAlpha := 0, l_hoverColor := []\<rparr>"

definition link_core :: "DashboardFlowLink \<Rightarrow> DashboardFlowLink" where
  "link_core l = l\<lparr>l_sourceLabel := [], l_targetLabel := [], l_linkColor := [], l_linkAlpha := 0,
     l_hoverColor := [], l_share := 0, l_highlighted := None, l_dimmed := None\<rparr>"

lemma node_core_fields [simp]:
  "n_id (node_core n) = n_id n" "n_kind (node_core n) = n_kind n" "n_value (node_core n) = n_value n"
  "n_requests (node_core n) = n_requests n" "n_quota (node_core n) = n_quota n"
  "n_tokens (node_core n) = n_tokens n"
  by (simp_all add: node_core_def)

lemma link_core_fields [simp]:
  "l_source (link_core l) = l_source l" "l_target (link_core l) = l_target l"
  "l_value (link_core l) = l_value l" "l_requests (link_core l) = l_requests l"
  "l_quota (link_core l) = l_quota l" "l_tokens (link_core l) = l_tokens l"
  by (simp_all add: link_core_def)

lemma link_plain_fields [simp]:
  "l_source (link_plain l) = l_source l" "l_target (link_plain l) = l_target l"
  "l_value (link_plain l) = l_value l" "l_share (link_plain l) = l_share l"
  "l_sourceLabel (link_plain l) = l_sourceLabel l" "l_targetLabel (link_plain l) = l_targetLabel l"
  "l_highlighted (link_plain l) = l_highlighted l" "l_dimmed (link_plain l) = l_dimmed l"
  by (simp_all add: link_plain_def)

lemma link_core_plain: "link_core (link_plain l) = link_core l"
  by (simp add: link_core_def link_plain_def)

lemma link_core_share [simp]: "link_core (set_share t l) = link_core l"
  by (simp add: link_core_def set_share_def)

lemma mask_core:
  "map (map_prod id node_core) (fst (maskFlowGraphLabels ns ls)) = map (map_prod id node_core) ns"
  "map (map_prod id link_core) (snd (maskFlowGraphLabels ns ls)) = map (map_prod id link_core) ls"
  by (auto simp: maskFlowGraphLabels_def Let_def node_core_def link_core_def)

lemma highlight_core:
  "map (map_prod id node_core) (fst (applyFlowHighlights ns ls hs)) = map (map_prod id node_core) ns"
  "map (map_prod id link_core) (snd (applyFlowHighlights ns ls hs)) = map (map_prod id link_core) ls"
  by (auto simp: applyFlowHighlights_def node_core_def link_core_def split: option.split)

lemma display_plain [simp]: "link_plain (display_link len i l) = link_plain l"
  by (simp add: link_plain_def display_link_def Let_def)

lemma foldl_invariant: "(\<And>a x. f (u a x) = f a) \<Longrightarrow> f (foldl u a xs) = f a"
  by (induction xs arbitrary: a) auto

lemma assign_group_plain: "map link_plain (assign_group h ls grp) = map link_plain ls"
  unfolding assign_group_def Let_def
  by (rule foldl_invariant [where f = "map link_plain"]) (auto split: prod.split)

lemma assign_plain [simp]: "map link_plain (assignLinkDisplayColors h ls) = map link_plain ls"
  unfolding assignLinkDisplayColors_def Let_def
  by (rule foldl_invariant [where f = "map link_plain"]) (rule assign_group_plain)

lemma assign_core: "map link_core (assignLinkDisplayColors h ls) = map link_core ls"
proof -
  have "map link_core xs = map link_core (map link_plain xs)" for xs
    by (simp add: link_core_plain)
  then show ?thesis by (metis assign_plain)
qed

text \<open>The graph before sorting and sharing, as \<^verbatim>\<open>buildFlowGraph\<close> computes it.\<close>

definition raw_nodes where
  "raw_nodes metric c P = foldl (jm.upsert node_key node_ini (node_upd metric)) [] (events_of (\<lambda>pth. pth) c P)"

definition raw_links where
  "raw_links metric c P = foldl (jm.upsert link_key link_ini (link_upd metric)) [] (events_of steps c P)"

abbreviation graph_paths where
  "graph_paths h rows metric r visible ctx options \<equiv>
     flow_prepared h rows metric (resolveVisibleStages r visible) ctx options"

abbreviation graph_colors where
  "graph_colors h P palette \<equiv>
     path_color h (stableColorMap h (js_sort (localeCompare h) (root_ids P)) palette) palette"

lemma map_values_core:
  "map (map_prod id f) m = map (map_prod id f) m' \<Longrightarrow> map f (map_values m) = map f (map_values m')"
  by (drule arg_cong [where f = "map snd"]) (simp add: comp_def)

lemma mset_map_sort: "mset (map f (js_sort cmp xs)) = mset (map f xs)"
  by simp

text \<open>The graph before and after masking and highlighting.\<close>

definition masked_graph where
  "masked_graph options ns ls =
     (if maskSensitive options then maskFlowGraphLabels ns ls else (ns, ls))"

definition marked_graph where
  "marked_graph metric c P stages options =
     (let g' = masked_graph options (raw_nodes metric c P) (raw_links metric c P) in
      applyFlowHighlights (fst g') (snd g')
        (buildFlowHighlightSets P (activeNode options) (activeLink options) stages))"

lemma graph_eq:
  assumes P_def: "P = graph_paths h rows metric r visible ctx options"
    and c_def: "c = graph_colors h P palette"
    and g_def: "g = buildFlowGraph h rows metric r palette visible ctx options"
    and m_def: "m = marked_graph metric c P (resolveVisibleStages r visible) options"
    and ls_def: "ls = js_sort (link_order h) (map_values (snd m))"
  shows "nodes g = js_sort (byValueThenLabel h) (map_values (fst m))"
    and "links g = assignLinkDisplayColors h (map (set_share (first_step_total P ls)) ls)"
  by (simp_all only: g_def buildFlowGraph_def Let_def P_def [symmetric] raw_graph c_def raw_nodes_def raw_links_def
      fst_conv snd_conv m_def marked_graph_def masked_graph_def ls_def DashboardFlowGraph.simps)

lemma marked_core:
  "map node_core (map_values (fst (marked_graph metric c P stages options))) = map node_core (map_values (raw_nodes metric c P))"
  "map link_core (map_values (snd (marked_graph metric c P stages options))) = map link_core (map_values (raw_links metric c P))"
  by (rule map_values_core, simp add: marked_graph_def masked_graph_def Let_def highlight_core mask_core)+

lemma graph_core:
  assumes P: "P = graph_paths h rows metric r visible ctx options"
    and c: "c = graph_colors h P palette"
    and g: "g = buildFlowGraph h rows metric r palette visible ctx options"
  shows "mset (map node_core (nodes g)) = mset (map node_core (map_values (raw_nodes metric c P)))"
    and "mset (map link_core (links g)) = mset (map link_core (map_values (raw_links metric c P)))"
    and "\<exists>ls. links g = assignLinkDisplayColors h (map (set_share (first_step_total P ls)) ls) \<and>
           mset (map link_core ls) = mset (map link_core (map_values (raw_links metric c P)))"
proof -
  let ?m = "marked_graph metric c P (resolveVisibleStages r visible) options"
  let ?ls = "js_sort (link_order h) (map_values (snd ?m))"
  note eq = graph_eq [OF P c g refl refl]
  show "mset (map node_core (nodes g)) = mset (map node_core (map_values (raw_nodes metric c P)))"
    by (simp only: eq mset_map_sort marked_core)
  have ls: "mset (map link_core ?ls) = mset (map link_core (map_values (raw_links metric c P)))"
    by (simp only: mset_map_sort marked_core)
  then show "\<exists>ls. links g = assignLinkDisplayColors h (map (set_share (first_step_total P ls)) ls) \<and>
      mset (map link_core ls) = mset (map link_core (map_values (raw_links metric c P)))"
    using eq(2) by blast
  show "mset (map link_core (links g)) = mset (map link_core (map_values (raw_links metric c P)))"
    using ls by (simp only: eq assign_core map_map comp_def link_core_share)
qed

end
