(* ===== verification/Flow_Graph.thy ===== *)
theory Flow_Graph
  imports Flow_Sums
begin

text \<open>
  Properties of the flow graph of the dashboard: the totals of nodes and links, conservation of the
  flow from stage to stage, shares, overflow nodes, filters, highlighting and masking.
\<close>

section \<open>Sums over the nodes and links of the graph\<close>

lemma events_sum:
  "(\<Sum>e\<leftarrow>events_of parts c P. if Q (fst e) then w (fst (snd e)) else 0) =
     (\<Sum>p\<leftarrow>P. w (metrics p) * of_nat (length (filter Q (parts (path p)))))" for w :: "FlowMetrics \<Rightarrow> num"
proof (induction P)
  case (Cons p P)
  have "(\<Sum>n\<leftarrow>ns. if Q n then w (metrics p) else 0) = w (metrics p) * of_nat (length (filter Q ns))" for ns
    by (induction ns) (simp_all add: algebra_simps)
  then show ?case using Cons by (simp add: events_of_def comp_def cong: if_cong)
qed (simp add: events_of_def)

definition key_source :: "string \<Rightarrow> string" where
  "key_source k = takeWhile (\<lambda>c. c \<noteq> NUL) k"

definition key_target :: "string \<Rightarrow> string" where
  "key_target k = tl (dropWhile (\<lambda>c. c \<noteq> NUL) k)"

lemma key_parts:
  assumes "NUL \<notin> set s"
  shows "key_source (s @ NUL # t) = s" "key_target (s @ NUL # t) = t"
proof -
  have a: "\<forall>c \<in> set s. c \<noteq> NUL" using assms by auto
  then show "key_source (s @ NUL # t) = s" by (simp add: key_source_def)
  show "key_target (s @ NUL # t) = t" using a by (simp add: key_target_def)
qed

definition paths_nul_free :: "PreparedFlowPath list \<Rightarrow> bool" where
  "paths_nul_free P \<longleftrightarrow> (\<forall>p \<in> set P. \<forall>n \<in> set (path p). NUL \<notin> set (p_id n))"

lemma prepared_nul_free:
  assumes "\<forall>row \<in> set rows. nul_free row"
  shows "paths_nul_free (flow_prepared h rows metric stages ctx options)"
  unfolding paths_nul_free_def
proof (intro ballI)
  fix p n assume p: "p \<in> set (flow_prepared h rows metric stages ctx options)" and n: "n \<in> set (path p)"
  then obtain row tops mode labeler where row: "row \<in> set rows"
    and l: "applyTopNodeLimit (flowPathForStages row stages ctx) tops mode labeler = Some (path p)"
    unfolding flow_prepared_def prepared_in by blast
  have b: "NUL \<notin> set (p_id m)" if "m \<in> set (flowPathForStages row stages ctx)" for m
    using that NUL_builder assms row by (auto simp: flowPathForStages_def)
  from l show "NUL \<notin> set (p_id n)"
  proof (cases rule: applyTopNodeLimit_cases)
    case 1
    then show ?thesis using b n by simp
  next
    case 2
    then show ?thesis using b n by (auto simp: otherFlowNode_def NUL_literals)
  qed
qed

lemma events_in:
  "e \<in> set (events_of parts c P) \<Longrightarrow> \<exists>p \<in> set P. fst e \<in> set (parts (path p))"
  by (auto simp: events_of_def)

lemma node_ini_fields [simp]:
  "n_id (node_ini e) = node_key e" "n_kind (node_ini e) = p_kind (fst e)" "n_label (node_ini e) = p_label (fst e)"
  by (cases e; simp add: node_ini_def)+

lemma node_upd_fields [simp]:
  "n_id (node_upd metric e v) = n_id v" "n_kind (node_upd metric e v) = n_kind v"
  "n_label (node_upd metric e v) = n_label v"
  by (cases e; simp add: node_upd_def)+

lemma link_ini_fields [simp]:
  "l_source (link_ini e) = p_id (fst (fst e))" "l_target (link_ini e) = p_id (snd (fst e))"
  "l_sourceLabel (link_ini e) = p_label (fst (fst e))" "l_targetLabel (link_ini e) = p_label (snd (fst e))"
  by (cases e; cases "fst e"; simp add: link_ini_def)+

lemma link_upd_fields [simp]:
  "l_source (link_upd metric e v) = l_source v" "l_target (link_upd metric e v) = l_target v"
  "l_sourceLabel (link_upd metric e v) = l_sourceLabel v" "l_targetLabel (link_upd metric e v) = l_targetLabel v"
  by (cases e; simp add: link_upd_def)+

lemma raw_node_invariant:
  assumes "\<And>p n. p \<in> set P \<Longrightarrow> n \<in> set (path p) \<Longrightarrow> I (p_id n) (p_kind n) (p_label n)"
    and "(k, v) \<in> set (raw_nodes metric c P)"
  shows "n_id v = k \<and> I k (n_kind v) (n_label v)"
proof -
  let ?J = "\<lambda>k v. n_id v = k \<and> I k (n_kind v) (n_label v)"
  have "\<forall>(k, v) \<in> set (raw_nodes metric c P). ?J k v"
    unfolding raw_nodes_def
  proof (rule group_values_invariant)
    fix e assume "e \<in> set (events_of (\<lambda>pth. pth) c P)"
    then obtain p where "p \<in> set P" "fst e \<in> set (path p)" using events_in by blast
    then show "?J (node_key e) (node_upd metric e (node_ini e))" using assms(1) by simp
  qed simp_all
  then show ?thesis using assms(2) by blast
qed

lemma raw_node_id: "(k, v) \<in> set (raw_nodes metric c P) \<Longrightarrow> n_id v = k"
  using raw_node_invariant [of P "\<lambda>_ _ _. True" k v metric c] by simp

lemma raw_link_key:
  assumes "paths_nul_free P" "(k, v) \<in> set (raw_links metric c P)"
  shows "l_source v = key_source k \<and> l_target v = key_target k \<and> linkStableKey v = k"
proof -
  let ?I = "\<lambda>k v. l_source v = key_source k \<and> l_target v = key_target k \<and> linkStableKey v = k"
  have "\<forall>(k, v) \<in> set (raw_links metric c P). ?I k v"
    unfolding raw_links_def
  proof (rule group_values_invariant)
    fix e assume "e \<in> set (events_of steps c P)"
    then obtain p where "p \<in> set P" "fst e \<in> set (steps (path p))" using events_in by blast
    then have "NUL \<notin> set (p_id (fst (fst e)))"
      using assms(1) by (cases "fst e") (auto simp: paths_nul_free_def dest!: set_zip_leftD)
    then show "?I (link_key e) (link_upd metric e (link_ini e))"
      by (simp add: pathLinkKey_def key_parts linkStableKey_def)
  qed (simp_all add: linkStableKey_def)
  then show ?thesis using assms(2) by blast
qed

text \<open>A quantity that is summed up from the metrics of the paths.\<close>

definition node_quantity :: "FlowMetric \<Rightarrow> (DashboardFlowNode \<Rightarrow> num) \<Rightarrow> (FlowMetrics \<Rightarrow> num) \<Rightarrow> bool" where
  "node_quantity metric f w \<longleftrightarrow> (f, w) \<in>
     {(n_value, \<lambda>ms. metricValue ms metric), (n_requests, m_requests), (n_quota, m_quota), (n_tokens, m_tokens)}"

definition link_quantity :: "FlowMetric \<Rightarrow> (DashboardFlowLink \<Rightarrow> num) \<Rightarrow> (FlowMetrics \<Rightarrow> num) \<Rightarrow> bool" where
  "link_quantity metric f w \<longleftrightarrow> (f, w) \<in>
     {(l_value, \<lambda>ms. metricValue ms metric), (l_requests, m_requests), (l_quota, m_quota), (l_tokens, m_tokens)}"

lemma node_quantity_laws:
  assumes "node_quantity metric f w"
  shows "f (node_ini e) = 0" "f (node_upd metric e v) = f v + w (fst (snd e))" "f (node_core v) = f v"
  using assms by (auto simp: node_quantity_def node_ini_def node_upd_def split: prod.splits)

lemma link_quantity_laws:
  assumes "link_quantity metric f w"
  shows "f (link_ini e) = 0" "f (link_upd metric e v) = f v + w (fst (snd e))" "f (link_core v) = f v"
  using assms by (auto simp: link_quantity_def link_ini_def link_upd_def split: prod.splits)

lemma raw_node_sum:
  assumes "node_quantity metric f w"
  shows "wsum Q f (raw_nodes metric c P) =
     (\<Sum>p\<leftarrow>P. w (metrics p) * of_nat (length (filter (\<lambda>n. Q (p_id n)) (path p))))"
  unfolding raw_nodes_def
  using wsum_group [of f node_ini "node_upd metric" "\<lambda>e. w (fst (snd e))" "[]" Q node_key]
    events_sum [of "\<lambda>n. Q (p_id n)" w "\<lambda>pth. pth" c P]
  by (simp add: node_quantity_laws [OF assms])

lemma raw_link_sum:
  assumes "link_quantity metric f w"
  shows "wsum Q f (raw_links metric c P) =
     (\<Sum>p\<leftarrow>P. w (metrics p) * of_nat (length (filter (\<lambda>(a, b). Q (pathLinkKey a b)) (steps (path p)))))"
  unfolding raw_links_def
  using wsum_group [of f link_ini "link_upd metric" "\<lambda>e. w (fst (snd e))" "[]" Q link_key]
    events_sum [of "\<lambda>e. Q (pathLinkKey (fst e) (snd e))" w steps c P]
  by (simp add: link_quantity_laws [OF assms] case_prod_unfold)

lemma sum_mset_map: "mset (map g xs) = mset (map g ys) \<Longrightarrow> (\<Sum>x\<leftarrow>xs. F (g x)) = (\<Sum>x\<leftarrow>ys. F (g x))"
  for F :: "'b \<Rightarrow> num"
proof -
  assume "mset (map g xs) = mset (map g ys)"
  then have "mset (map F (map g xs)) = mset (map F (map g ys))" by (simp only: mset_map)
  then have "sum_mset (mset (map F (map g xs))) = sum_mset (mset (map F (map g ys)))" by simp
  then show ?thesis by (simp only: sum_mset_sum_list map_map comp_def)
qed

lemma graph_link_sum_core:
  assumes nf: "paths_nul_free P" and q: "link_quantity metric f w"
    and ls: "mset (map link_core ls) = mset (map link_core (map_values (raw_links metric c P)))"
  shows "(\<Sum>l\<leftarrow>ls. if R (l_source l) (l_target l) then f l else 0) =
     (\<Sum>p\<leftarrow>P. w (metrics p) *
        of_nat (length (filter (\<lambda>(a, b). R (p_id a) (p_id b)) (steps (path p)))))"
proof -
  let ?F = "\<lambda>l. if R (l_source l) (l_target l) then f l else 0"
  let ?Q = "\<lambda>k. R (key_source k) (key_target k)"
  have F: "?F (link_core l) = ?F l" for l by (simp add: link_quantity_laws(3) [OF q])
  have "(\<Sum>l\<leftarrow>ls. ?F l) = (\<Sum>l\<leftarrow>map_values (raw_links metric c P). ?F l)"
    using sum_mset_map [OF ls, of ?F] by (simp only: F)
  also have "\<dots> = wsum ?Q f (raw_links metric c P)"
    unfolding wsum_def using raw_link_key [OF nf]
    by (auto intro!: arg_cong [where f = sum_list] simp: comp_def)
  also have "\<dots> = (\<Sum>p\<leftarrow>P. w (metrics p) *
      of_nat (length (filter (\<lambda>(a, b). ?Q (pathLinkKey a b)) (steps (path p)))))"
    by (rule raw_link_sum [OF q])
  also have "\<dots> = (\<Sum>p\<leftarrow>P. w (metrics p) *
      of_nat (length (filter (\<lambda>(a, b). R (p_id a) (p_id b)) (steps (path p)))))"
  proof (intro arg_cong [where f = sum_list] map_cong refl arg_cong2 [where f = times]
      arg_cong [where f = "\<lambda>xs. of_nat (length xs)"] filter_cong)
    fix p e assume "p \<in> set P" "e \<in> set (steps (path p))"
    then have "NUL \<notin> set (p_id (fst e))"
      using nf by (cases e) (auto simp: paths_nul_free_def dest!: set_zip_leftD)
    then show "(case e of (a, b) \<Rightarrow> ?Q (pathLinkKey a b)) = (case e of (a, b) \<Rightarrow> R (p_id a) (p_id b))"
      by (cases e) (simp add: pathLinkKey_def key_parts)
  qed
  finally show ?thesis .
qed

lemma count_ids: "length (filter (\<lambda>m. p_id m = i) xs) = count_list (map p_id xs) i"
  by (induction xs) auto

lemma graph_node_sum:
  assumes "node_quantity metric f w" "n \<in> set (nodes g)"
    and g: "g = buildFlowGraph h rows metric r palette visible ctx options"
    and P: "P = graph_paths h rows metric r visible ctx options"
  shows "f n = (\<Sum>p\<leftarrow>P. w (metrics p) * of_nat (count_list (map p_id (path p)) (n_id n)))"
proof -
  let ?raw = "raw_nodes metric (graph_colors h P palette) P"
  have wf: "map_wf ?raw" by (simp add: raw_nodes_def)
  have "node_core n \<in> set (map node_core (map_values ?raw))"
    using assms(2) graph_core(1) [OF P refl g] by (metis image_eqI list.set_map mset_eq_setD)
  then obtain k v where kv: "(k, v) \<in> set ?raw" "node_core v = node_core n" by auto
  have "k = n_id n" using raw_node_id [OF kv(1)] kv(2) by (metis node_core_fields(1))
  have "f n = f v" using kv(2) by (metis assms(1) node_quantity_laws(3))
  also have "\<dots> = wsum (\<lambda>k'. k' = k) f ?raw" using wsum_point [OF wf kv(1)] by simp
  also have "\<dots> = (\<Sum>p\<leftarrow>P. w (metrics p) * of_nat (length (filter (\<lambda>m. p_id m = n_id n) (path p))))"
    unfolding raw_node_sum [OF assms(1)] \<open>k = n_id n\<close> ..
  finally show ?thesis by (simp only: count_ids)
qed

lemma graph_node_in:
  assumes g: "g = buildFlowGraph h rows metric r palette visible ctx options"
    and P: "P = graph_paths h rows metric r visible ctx options"
  shows "distinct (map n_id (nodes g))"
    and "n_id ` set (nodes g) = (\<Union>p \<in> set P. p_id ` set (path p))"
proof -
  let ?raw = "raw_nodes metric (graph_colors h P palette) P"
  have wf: "map_wf ?raw" by (simp add: raw_nodes_def)
  have ids: "map n_id (map_values ?raw) = map_keys ?raw"
    using raw_node_id by (auto simp: comp_def)
  have "mset (map n_id (map node_core (nodes g))) = mset (map n_id (map node_core (map_values ?raw)))"
    using graph_core(1) [OF P refl g] by (simp only: mset_map)
  then have m: "mset (map n_id (nodes g)) = mset (map_keys ?raw)"
    using ids by (simp only: map_map comp_def node_core_fields)
  from m wf show "distinct (map n_id (nodes g))"
    by (metis map_wf_def mset_eq_imp_distinct_iff)
  have "set (map_keys ?raw) = (\<Union>p \<in> set P. p_id ` set (path p))"
    unfolding raw_nodes_def jm.keys_group by (simp add: events_of_def image_UN image_image)
  with m show "n_id ` set (nodes g) = (\<Union>p \<in> set P. p_id ` set (path p))"
    by (metis list.set_map mset_eq_setD)
qed

lemma count_list_distinct: "distinct xs \<Longrightarrow> count_list xs x = of_bool (x \<in> set xs)"
  by (induction xs) auto

section \<open>Totals of nodes and links\<close>

definition visits :: "string \<Rightarrow> PreparedFlowPath \<Rightarrow> bool" where
  "visits i p \<longleftrightarrow> i \<in> set (map p_id (path p))"

definition id_steps :: "PreparedFlowPath \<Rightarrow> (string \<times> string) list" where
  "id_steps p = map (\<lambda>(a, b). (p_id a, p_id b)) (steps (path p))"

definition traverses :: "string \<times> string \<Rightarrow> PreparedFlowPath \<Rightarrow> bool" where
  "traverses e p \<longleftrightarrow> e \<in> set (id_steps p)"

text \<open>The specification: the totals of the paths that satisfy a condition.\<close>

definition path_totals :: "(PreparedFlowPath \<Rightarrow> bool) \<Rightarrow> PreparedFlowPath list \<Rightarrow> FlowMetrics" where
  "path_totals Q P =
     \<lparr>m_quota = (\<Sum>p\<leftarrow>filter Q P. m_quota (metrics p)),
      m_tokens = (\<Sum>p\<leftarrow>filter Q P. m_tokens (metrics p)),
      m_requests = (\<Sum>p\<leftarrow>filter Q P. m_requests (metrics p))\<rparr>"

lemma metricValue_totals: "metricValue (path_totals Q P) metric = (\<Sum>p\<leftarrow>filter Q P. metricValue (metrics p) metric)"
  by (simp add: metricValue_def path_totals_def)

lemma sum_filter_of_bool: "(\<Sum>p\<leftarrow>P. w p * of_bool (Q p)) = (\<Sum>p\<leftarrow>filter Q P. w p)" for w :: "'a \<Rightarrow> num"
  by (induction P) auto

lemma id_steps_zip: "id_steps p = zip (map p_id (path p)) (tl (map p_id (path p)))"
  by (simp add: id_steps_def map_tl [symmetric] zip_map_map)

lemma node_totals:
  assumes g: "g = buildFlowGraph h rows metric r palette visible ctx options"
    and P: "P = graph_paths h rows metric r visible ctx options" and n: "n \<in> set (nodes g)"
  shows "n_value n = metricValue (path_totals (visits (n_id n)) P) metric"
    "\<lparr>m_quota = n_quota n, m_tokens = n_tokens n, m_requests = n_requests n\<rparr> =
      path_totals (visits (n_id n)) P"
proof -
  have wf: "path_wf (resolveVisibleStages r visible) (path p)" if "p \<in> set P" for p
    using that P prepared_path_wf by blast
  have c: "f n = (\<Sum>p\<leftarrow>filter (visits (n_id n)) P. w (metrics p))" if "node_quantity metric f w" for f w
  proof -
    have "count_list (map p_id (path p)) (n_id n) = of_bool (visits (n_id n) p)" if "p \<in> set P" for p
      using path_ids_distinct [OF wf [OF that] resolved_stages(1)]
      by (simp add: count_list_distinct visits_def)
    then have "(\<Sum>p\<leftarrow>P. w (metrics p) * of_nat (count_list (map p_id (path p)) (n_id n))) =
        (\<Sum>p\<leftarrow>P. w (metrics p) * of_bool (visits (n_id n) p))"
      by (intro arg_cong [where f = sum_list] map_cong) simp_all
    then show ?thesis by (simp add: graph_node_sum [OF that n g P] sum_filter_of_bool)
  qed
  show "n_value n = metricValue (path_totals (visits (n_id n)) P) metric"
    by (simp add: metricValue_totals c [of n_value "\<lambda>ms. metricValue ms metric"] node_quantity_def)
  show "\<lparr>m_quota = n_quota n, m_tokens = n_tokens n, m_requests = n_requests n\<rparr> =
      path_totals (visits (n_id n)) P"
    by (simp add: path_totals_def c [of n_quota m_quota] c [of n_tokens m_tokens]
        c [of n_requests m_requests] node_quantity_def)
qed

abbreviation link_ends :: "DashboardFlowLink \<Rightarrow> string \<times> string" where
  "link_ends l \<equiv> (l_source l, l_target l)"

lemma link_set:
  assumes nf: "paths_nul_free P"
    and ls: "mset (map link_core ls) = mset (map link_core (map_values (raw_links metric c P)))"
  shows "distinct (map link_ends ls)" "set (map link_ends ls) = (\<Union>p \<in> set P. set (id_steps p))"
proof -
  let ?raw = "raw_links metric c P"
  let ?e = "\<lambda>k. (key_source k, key_target k)"
  have m: "mset (map link_ends ls) = mset (map ?e (map_keys ?raw))"
  proof -
    have "mset (map link_ends (map link_core ls)) = mset (map link_ends (map link_core (map_values ?raw)))"
      using ls by (simp only: mset_map)
    then have "mset (map link_ends ls) = mset (map link_ends (map_values ?raw))"
      by (simp only: map_map comp_def link_core_fields)
    also have "map link_ends (map_values ?raw) = map ?e (map_keys ?raw)"
      using raw_link_key [OF nf] by (auto simp: comp_def)
    finally show ?thesis .
  qed
  have "inj_on ?e (set (map_keys ?raw))"
  proof (rule inj_onI)
    fix k k' assume k: "k \<in> set (map_keys ?raw)" "k' \<in> set (map_keys ?raw)" and e: "?e k = ?e k'"
    then have "\<exists>v. linkStableKey v = k \<and> l_source v = key_source k \<and> l_target v = key_target k"
      "\<exists>v. linkStableKey v = k' \<and> l_source v = key_source k' \<and> l_target v = key_target k'"
      using raw_link_key [OF nf] by force+
    with e show "k = k'" by (auto simp: linkStableKey_def)
  qed
  moreover have "distinct (map_keys ?raw)" using map_wf_group [of "[]"] by (simp add: raw_links_def map_wf_def)
  ultimately have "distinct (map ?e (map_keys ?raw))" by (simp only: distinct_map)
  with m show "distinct (map link_ends ls)" by (metis mset_eq_imp_distinct_iff)
  have "set (map_keys ?raw) = (\<Union>p \<in> set P. (\<lambda>(a, b). pathLinkKey a b) ` set (steps (path p)))"
    unfolding raw_links_def jm.keys_group
    by (simp add: events_of_def image_UN image_image case_prod_unfold)
  then have "?e ` set (map_keys ?raw) = (\<Union>p \<in> set P. (\<lambda>(a, b). ?e (pathLinkKey a b)) ` set (steps (path p)))"
    by (simp add: image_UN image_image case_prod_unfold)
  also have "\<dots> = (\<Union>p \<in> set P. set (id_steps p))"
  proof (rule SUP_cong [OF refl])
    fix p assume p: "p \<in> set P"
    have "NUL \<notin> set (p_id (fst e))" if "e \<in> set (steps (path p))" for e
      using nf p that by (cases e) (auto simp: paths_nul_free_def dest!: set_zip_leftD)
    then show "(\<lambda>(a, b). ?e (pathLinkKey a b)) ` set (steps (path p)) = set (id_steps p)"
      by (auto simp: id_steps_def pathLinkKey_def key_parts image_iff case_prod_unfold intro!: bexI)
  qed
  finally show "set (map link_ends ls) = (\<Union>p \<in> set P. set (id_steps p))"
    using m by (metis list.set_map mset_eq_setD)
qed

lemma link_totals:
  assumes nf: "paths_nul_free P" and wf: "\<And>p. p \<in> set P \<Longrightarrow> distinct (map p_id (path p))"
    and ls: "mset (map link_core ls) = mset (map link_core (map_values (raw_links metric c P)))"
    and l: "l \<in> set ls"
  shows "l_value l = metricValue (path_totals (traverses (link_ends l)) P) metric"
    "\<lparr>m_quota = l_quota l, m_tokens = l_tokens l, m_requests = l_requests l\<rparr> =
      path_totals (traverses (link_ends l)) P"
proof -
  let ?R = "\<lambda>s t. (s, t) = link_ends l"
  have c: "f l = (\<Sum>p\<leftarrow>filter (traverses (link_ends l)) P. w (metrics p))" if q: "link_quantity metric f w" for f w
  proof -
    have one: "(\<Sum>x\<leftarrow>xs. if link_ends x = link_ends l then f x else 0) = f l"
      if "l \<in> set xs" "distinct (map link_ends xs)" for xs
      using that
    proof (induction xs)
      case (Cons x xs)
      have "(\<Sum>x\<leftarrow>ys. if link_ends x = link_ends l then f x else 0) = 0" if "link_ends l \<notin> link_ends ` set ys" for ys
        using that by (induction ys) auto
      then show ?case using Cons by (cases "x = l") (auto simp: image_iff)
    qed simp
    have cnt: "length (filter (\<lambda>(a, b). ?R (p_id a) (p_id b)) (steps (path p))) = of_bool (traverses (link_ends l) p)"
      if "p \<in> set P" for p
    proof -
      have len: "length (filter (\<lambda>(a, b). ?R (p_id a) (p_id b)) xs) =
          count_list (map (\<lambda>(a, b). (p_id a, p_id b)) xs) (link_ends l)" for xs
        by (induction xs) auto
      have dist: "distinct (id_steps p)"
        unfolding id_steps_zip by (rule distinct_zipI1) (rule wf [OF that])
      show ?thesis
        unfolding len id_steps_def [symmetric] count_list_distinct [OF dist] traverses_def ..
    qed
    have "f l = (\<Sum>x\<leftarrow>ls. if ?R (l_source x) (l_target x) then f x else 0)"
      using one [OF l link_set(1) [OF nf ls]] by simp
    also have "\<dots> = (\<Sum>p\<leftarrow>P. w (metrics p) *
        of_nat (length (filter (\<lambda>(a, b). ?R (p_id a) (p_id b)) (steps (path p)))))"
      by (rule graph_link_sum_core [OF nf q ls])
    also have "\<dots> = (\<Sum>p\<leftarrow>P. w (metrics p) * of_bool (traverses (link_ends l) p))"
      using cnt by (intro arg_cong [where f = sum_list] map_cong) simp_all
    finally show ?thesis by (simp only: sum_filter_of_bool)
  qed
  show "l_value l = metricValue (path_totals (traverses (link_ends l)) P) metric"
    by (simp add: metricValue_totals c [of l_value "\<lambda>ms. metricValue ms metric"] link_quantity_def)
  show "\<lparr>m_quota = l_quota l, m_tokens = l_tokens l, m_requests = l_requests l\<rparr> =
      path_totals (traverses (link_ends l)) P"
    by (simp add: path_totals_def c [of l_quota m_quota] c [of l_tokens m_tokens]
        c [of l_requests m_requests] link_quantity_def)
qed

lemma graph_prepared:
  assumes "\<forall>row \<in> set rows. nul_free row" "P = graph_paths h rows metric r visible ctx options"
  shows "paths_nul_free P" "\<And>p. p \<in> set P \<Longrightarrow> path_wf (resolveVisibleStages r visible) (path p)"
    "\<And>p. p \<in> set P \<Longrightarrow> distinct (map p_id (path p))"
proof -
  show "paths_nul_free P" using assms prepared_nul_free by blast
  show wf: "\<And>p. p \<in> set P \<Longrightarrow> path_wf (resolveVisibleStages r visible) (path p)"
    using assms(2) prepared_path_wf by blast
  show "\<And>p. p \<in> set P \<Longrightarrow> distinct (map p_id (path p))"
    using wf resolved_stages(1) path_ids_distinct by blast
qed

text \<open>
  C5: the graph shows exactly what the rows add up to. Its nodes are the stations of the prepared paths and
  its links their steps, each once; quota, tokens and requests of a node are the totals of the
  paths through it, those of a link the totals of the paths over it, and the value that is drawn
  is the total of the selected metric. (Names in the rows do not contain the character U+0000,
  which separates the two ends in the key of a link.)
\<close>

theorem flow_graph_totals:
  assumes "\<forall>row \<in> set rows. nul_free row"
    and g: "g = buildFlowGraph h rows metric r palette visible ctx options"
    and P: "P = flow_prepared h rows metric (resolveVisibleStages r visible) ctx options"
  shows "distinct (map n_id (nodes g)) \<and> set (map n_id (nodes g)) = (\<Union>p \<in> set P. p_id ` set (path p)) \<and>
    (\<forall>n \<in> set (nodes g).
       n_value n = metricValue (path_totals (visits (n_id n)) P) metric \<and>
       \<lparr>m_quota = n_quota n, m_tokens = n_tokens n, m_requests = n_requests n\<rparr> =
         path_totals (visits (n_id n)) P) \<and>
    distinct (map link_ends (links g)) \<and> set (map link_ends (links g)) = (\<Union>p \<in> set P. set (id_steps p)) \<and>
    (\<forall>l \<in> set (links g).
       l_value l = metricValue (path_totals (traverses (link_ends l)) P) metric \<and>
       \<lparr>m_quota = l_quota l, m_tokens = l_tokens l, m_requests = l_requests l\<rparr> =
         path_totals (traverses (link_ends l)) P)"
proof -
  note prep = graph_prepared [OF assms(1) P]
  note core = graph_core(2) [OF P refl g]
  show ?thesis
    using graph_node_in [OF g P] node_totals [OF g P] link_set [OF prep(1) core]
      link_totals [OF prep(1,3) core]
    by simp
qed

definition flow_row :: "string \<Rightarrow> string \<Rightarrow> string \<Rightarrow> num \<Rightarrow> FlowQuotaDataItem" where
  "flow_row token grp model q =
     \<lparr>user_id = JNum (Fin 1), username = Some ''alice'', node_name = None, use_group = Some grp,
      token_id = JUndefined, token_name = Some token, channel_id = JNum (Fin 7), channel_name = None,
      model_name = Some model, token_used = JStr ''10'', count = JNum (Fin 1), quota = JNum (Fin q)\<rparr>"

definition example_rows :: "FlowQuotaDataItem list" where
  "example_rows = [flow_row ''t1'' ''vip'' ''m1'' 5, flow_row ''t2'' ''vip'' ''m2'' 3,
     flow_row ''t1'' ''std'' ''m1'' 2]"

definition example_host :: Host where
  "example_host = \<lparr>localeCompare = str_cmp, numberFormat = num_str, dataScheme_init = [],
     dataScheme_last = \<lparr>maxDomainLength = None, scheme = [JStr ''#1664FF'', JStr ''#1AC6FF'']\<rparr>\<rparr>"

definition example_options :: FlowGraphOptions where
  "example_options = \<lparr>topNodeLimit = Some (Fin 1), overflowMode = None, otherNodeLabel = None,
     activeNode = None, activeLink = None, maskSensitive = True\<rparr>"

lemma example_rows_nul_free: "\<forall>row \<in> set example_rows. nul_free row"
  by code_simp

abbreviation example_graph :: DashboardFlowGraph where
  "example_graph \<equiv> buildFlowGraph example_host example_rows M_quota R_user None None None example_options"

abbreviation example_paths :: "PreparedFlowPath list" where
  "example_paths \<equiv> flow_prepared example_host example_rows M_quota (resolveVisibleStages R_user None) None
     example_options"

theorem flow_graph_totals_witness:
  "set (map n_id (nodes example_graph)) = (\<Union>p \<in> set example_paths. p_id ` set (path p)) \<and>
   metricValue (path_totals (visits ''token:t1'') example_paths) M_quota = 7"
proof (intro conjI)
  show "set (map n_id (nodes example_graph)) = (\<Union>p \<in> set example_paths. p_id ` set (path p))"
    using flow_graph_totals [OF example_rows_nul_free refl refl, of example_host M_quota R_user None None None
        example_options]
    by (elim conjE)
  show "metricValue (path_totals (visits ''token:t1'') example_paths) M_quota = 7" by code_simp
qed

section \<open>Conservation of the flow\<close>

lemma node_id_kind:
  assumes g: "g = buildFlowGraph h rows metric r palette visible ctx options"
    and P: "P = graph_paths h rows metric r visible ctx options" and n: "n \<in> set (nodes g)"
  shows "id_kind (n_id n) = kind_name (n_kind n)" "n_kind n \<in> set (resolveVisibleStages r visible)"
proof -
  let ?raw = "raw_nodes metric (graph_colors h P palette) P"
  let ?I = "\<lambda>i k l. id_kind i = kind_name k \<and> k \<in> set (resolveVisibleStages r visible)"
  have "node_core n \<in> set (map node_core (map_values ?raw))"
    using n graph_core(1) [OF P refl g] by (metis image_eqI list.set_map mset_eq_setD)
  then obtain k v where kv: "(k, v) \<in> set ?raw" "node_core v = node_core n" by auto
  have same: "n_id v = n_id n" "n_kind v = n_kind n" using kv(2) by (metis node_core_fields)+
  have "n_id v = k \<and> ?I k (n_kind v) (n_label v)"
  proof (rule raw_node_invariant [OF _ kv(1)])
    fix p m assume "p \<in> set P" "m \<in> set (path p)"
    then show "?I (p_id m) (p_kind m) (p_label m)" using P prepared_path_wf path_wf_kinds by blast
  qed
  with same show "id_kind (n_id n) = kind_name (n_kind n)" "n_kind n \<in> set (resolveVisibleStages r visible)"
    by auto
qed

lemma targets_count: "length (filter (\<lambda>(a, b). p_id b = i) (steps pth)) = count_list (tl (map p_id pth)) i"
  and sources_count: "length (filter (\<lambda>(a, b). p_id a = i) (steps pth)) = count_list (butlast (map p_id pth)) i"
proof -
  have "length (filter (\<lambda>(a, b). p_id b = i) (zip xs ys)) = count_list (map p_id ys) i"
    if "length ys \<le> length xs" for xs ys
    using that by (induction xs ys rule: list_induct2') auto
  from this [of "tl pth" pth]
  show "length (filter (\<lambda>(a, b). p_id b = i) (steps pth)) = count_list (tl (map p_id pth)) i"
    by (simp add: map_tl)
  show "length (filter (\<lambda>(a, b). p_id a = i) (steps pth)) = count_list (butlast (map p_id pth)) i"
    by (induction pth rule: induct_list012) auto
qed

lemma count_ends:
  assumes "path_wf stages pth" "stages \<noteq> []" "id_kind i = kind_name k"
  shows "k \<noteq> hd stages \<Longrightarrow> count_list (tl (map p_id pth)) i = count_list (map p_id pth) i"
    and "k \<noteq> last stages \<Longrightarrow> count_list (butlast (map p_id pth)) i = count_list (map p_id pth) i"
proof -
  have ne: "pth \<noteq> []" using assms path_wf_not_Nil by blast
  have "p_kind (hd pth) = hd stages" "p_kind (last pth) = last stages"
    using assms(1) ne by (auto simp: path_wf_def hd_map last_map)
  moreover have "id_kind (p_id (hd pth)) = kind_name (p_kind (hd pth))"
    "id_kind (p_id (last pth)) = kind_name (p_kind (last pth))"
    using path_wf_kinds(2) [OF assms(1)] ne by simp_all
  ultimately have ends: "k \<noteq> hd stages \<Longrightarrow> p_id (hd pth) \<noteq> i" "k \<noteq> last stages \<Longrightarrow> p_id (last pth) \<noteq> i"
    using assms(3) by auto
  show "k \<noteq> hd stages \<Longrightarrow> count_list (tl (map p_id pth)) i = count_list (map p_id pth) i"
    using ends(1) ne by (cases pth) auto
  show "k \<noteq> last stages \<Longrightarrow> count_list (butlast (map p_id pth)) i = count_list (map p_id pth) i"
    using ends(2) ne by (cases pth rule: rev_cases) auto
qed

text \<open>
  C6: what flows into a node flows out of it. For every node that is not in the first visible stage the links that
  end in it add up to its value, and for every node that is not in the last visible stage the links that
  start in it do, whatever stages are hidden and whatever nodes are merged into an overflow node.
\<close>

theorem flow_conserved:
  assumes "\<forall>row \<in> set rows. nul_free row"
    and g: "g = buildFlowGraph h rows metric r palette visible ctx options" and n: "n \<in> set (nodes g)"
  shows "(n_kind n \<noteq> hd (resolveVisibleStages r visible) \<longrightarrow>
      (\<Sum>l\<leftarrow>links g. if l_target l = n_id n then l_value l else 0) = n_value n) \<and>
    (n_kind n \<noteq> last (resolveVisibleStages r visible) \<longrightarrow>
      (\<Sum>l\<leftarrow>links g. if l_source l = n_id n then l_value l else 0) = n_value n)"
proof -
  let ?st = "resolveVisibleStages r visible" and ?w = "\<lambda>ms. metricValue ms metric"
  define P where P: "P = graph_paths h rows metric r visible ctx options"
  note prep = graph_prepared [OF assms(1) P] and core = graph_core(2) [OF P refl g]
  have q: "link_quantity metric l_value ?w" "node_quantity metric n_value ?w"
    by (simp_all add: link_quantity_def node_quantity_def)
  note k = node_id_kind(1) [OF g P n]
  note in_sum = graph_link_sum_core [OF prep(1) q(1) core, of "\<lambda>s t. t = n_id n"]
  note out_sum = graph_link_sum_core [OF prep(1) q(1) core, of "\<lambda>s t. s = n_id n"]
  note nval = graph_node_sum [OF q(2) n g P]
  show ?thesis
  proof (intro conjI impI)
    assume "n_kind n \<noteq> hd ?st"
    then show "(\<Sum>l\<leftarrow>links g. if l_target l = n_id n then l_value l else 0) = n_value n"
      unfolding in_sum nval targets_count
      using count_ends(1) [OF prep(2) resolved_not_Nil k]
      by (intro arg_cong [where f = sum_list] map_cong) simp_all
  next
    assume "n_kind n \<noteq> last ?st"
    then show "(\<Sum>l\<leftarrow>links g. if l_source l = n_id n then l_value l else 0) = n_value n"
      unfolding out_sum nval sources_count
      using count_ends(2) [OF prep(2) resolved_not_Nil k]
      by (intro arg_cong [where f = sum_list] map_cong) simp_all
  qed
qed

lemma example_node: "\<exists>n \<in> set (nodes example_graph). n_id n = ''group:vip'' \<and> n_kind n = K_group"
proof -
  have "''group:vip'' \<in> (\<Union>p \<in> set example_paths. p_id ` set (path p))" by code_simp
  then have "''group:vip'' \<in> n_id ` set (nodes example_graph)"
    unfolding graph_node_in(2) [OF refl refl] .
  then obtain n where n: "n \<in> set (nodes example_graph)" "n_id n = ''group:vip''"
    unfolding image_iff by metis
  then have "kind_name (n_kind n) = ''group''"
    using node_id_kind(1) [OF refl refl n(1)] by (simp add: id_kind_def)
  then have "n_kind n = K_group" by (cases "n_kind n") simp_all
  with n show ?thesis by blast
qed

theorem flow_conserved_witness:
  "\<exists>n \<in> set (nodes example_graph). n_kind n = K_group \<and>
     (\<Sum>l\<leftarrow>links example_graph. if l_target l = n_id n then l_value l else 0) = n_value n \<and>
     (\<Sum>l\<leftarrow>links example_graph. if l_source l = n_id n then l_value l else 0) = n_value n"
proof -
  obtain n where n: "n \<in> set (nodes example_graph)" "n_kind n = K_group" using example_node by blast
  have "hd (resolveVisibleStages R_user None) \<noteq> K_group" "last (resolveVisibleStages R_user None) \<noteq> K_group"
    by (simp_all add: resolveVisibleStages_def)
  then show ?thesis using flow_conserved [OF example_rows_nul_free refl n(1)] n by auto
qed

section \<open>Shares\<close>

lemma foldl_sum: "foldl (\<lambda>s x. s + f x) a xs = a + (\<Sum>x\<leftarrow>xs. f x)" for f :: "'a \<Rightarrow> num"
  by (induction xs arbitrary: a) simp_all

lemma buildSummary_sums:
  "buildSummary rows = \<lparr>m_quota = (\<Sum>row\<leftarrow>rows. m_quota (rowMetrics row)),
     m_tokens = (\<Sum>row\<leftarrow>rows. m_tokens (rowMetrics row)),
     m_requests = (\<Sum>row\<leftarrow>rows. m_requests (rowMetrics row))\<rparr>"
proof -
  have "foldl (\<lambda>s row. let ms = rowMetrics row in
      s\<lparr>m_quota := m_quota s + m_quota ms, m_tokens := m_tokens s + m_tokens ms,
        m_requests := m_requests s + m_requests ms\<rparr>) \<lparr>m_quota = a, m_tokens = b, m_requests = c\<rparr> rows =
    \<lparr>m_quota = a + (\<Sum>row\<leftarrow>rows. m_quota (rowMetrics row)),
     m_tokens = b + (\<Sum>row\<leftarrow>rows. m_tokens (rowMetrics row)),
     m_requests = c + (\<Sum>row\<leftarrow>rows. m_requests (rowMetrics row))\<rparr>" for a b c
    by (induction rows arbitrary: a b c) (simp_all add: Let_def)
  then show ?thesis by (simp add: buildSummary_def)
qed

lemma metricValue_summary:
  "metricValue (buildSummary rows) metric = (\<Sum>row\<leftarrow>rows. metricValue (rowMetrics row) metric)"
  by (simp add: buildSummary_sums metricValue_def)

lemma map_filter_total:
  assumes "\<And>row. \<exists>pth. F row = Some pth"
  shows "map metrics (List.map_filter (\<lambda>row. map_option (\<lambda>pth. \<lparr>path = pth, metrics = rowMetrics row\<rparr>) (F row)) rows) =
     map rowMetrics rows"
proof (induction rows)
  case (Cons row rows)
  obtain pth where "F row = Some pth" using assms by blast
  then show ?case using Cons by (simp add: List.map_filter_simps)
qed (simp add: List.map_filter_simps)

lemma aggregate_keeps_rows:
  assumes "overflowMode options \<noteq> Some Hide"
  shows "map metrics (flow_prepared h rows metric stages ctx options) = map rowMetrics rows"
  unfolding flow_prepared_def preparePaths_def
proof (rule map_filter_total)
  have "(case overflowMode options of None \<Rightarrow> Aggregate | Some m \<Rightarrow> m) \<noteq> Hide"
    using assms by (auto split: option.split)
  then show "\<exists>pth'. applyTopNodeLimit pth tops
      (case overflowMode options of None \<Rightarrow> Aggregate | Some m \<Rightarrow> m) labeler = Some pth'" for pth tops labeler
    by (cases tops) (simp_all add: applyTopNodeLimit_def)
qed

text \<open>The rows whose path passes only nodes within the limit: those that hiding the overflow keeps.\<close>

definition within_limit ::
  "Host \<Rightarrow> FlowQuotaDataItem list \<Rightarrow> FlowMetric \<Rightarrow> FlowNodeKind list \<Rightarrow> FlowPathContext \<Rightarrow>
     'a FlowGraphOptions_scheme \<Rightarrow> FlowQuotaDataItem \<Rightarrow> bool" where
  "within_limit h rows metric stages ctx options row \<longleftrightarrow>
     list_all (\<lambda>n. isTopFlowNode n
         (buildTopNodeSets h rows metric stages (normalizeTopNodeLimit (topNodeLimit options)) ctx))
       (flowPathForStages row stages ctx)"

lemma hide_keeps_rows:
  assumes "overflowMode options = Some Hide"
  shows "map metrics (flow_prepared h rows metric stages ctx options)
    = map rowMetrics (filter (within_limit h rows metric stages ctx options) rows)"
proof -
  let ?tops = "buildTopNodeSets h rows metric stages (normalizeTopNodeLimit (topNodeLimit options)) ctx"
  have "applyTopNodeLimit (flowPathForStages row stages ctx) ?tops Hide labeler =
      (if within_limit h rows metric stages ctx options row then Some (flowPathForStages row stages ctx) else None)"
    for row labeler
    by (cases ?tops) (auto simp: applyTopNodeLimit_def within_limit_def isTopFlowNode_def list_all_iff list_ex_iff)
  then have "map metrics (preparePaths xs stages ctx ?tops Hide labeler)
      = map rowMetrics (filter (within_limit h rows metric stages ctx options) xs)" for xs labeler
    unfolding preparePaths_def by (induction xs) (simp_all add: List.map_filter_def)
  then show ?thesis by (simp add: flow_prepared_def assms)
qed

lemma sources_filter: "length (filter (\<lambda>(a, b). Q (p_id a)) (steps pth)) = length (filter Q (butlast (map p_id pth)))"
  by (induction pth rule: induct_list012) auto

lemma one_root_step:
  assumes wf: "\<And>p. p \<in> set P \<Longrightarrow> path_wf stages (path p)" and st: "distinct stages" "2 \<le> length stages"
    and p: "p \<in> set P"
  shows "length (filter (\<lambda>(a, b). p_id a \<in> set (root_ids P)) (steps (path p))) = 1"
proof -
  obtain k st' where s: "stages = k # st'" "st' \<noteq> []" using st(2) by (cases stages) fastforce+
  obtain n ns where n: "path p = n # ns" "map p_kind ns = st'"
    using wf [OF p] s by (auto simp: path_wf_def)
  have roots: "root_ids P = map (\<lambda>p. p_id (hd (path p))) P"
    using root_ids_path_wf [OF wf] s by blast
  have rk: "id_kind i = kind_name k" if i: "i \<in> set (root_ids P)" for i
  proof -
    obtain q where q: "q \<in> set P" "i = p_id (hd (path q))" using i roots by auto
    have "p_kind (hd (path q)) = k" "hd (path q) \<in> set (path q)"
      using wf [OF q(1)] s path_wf_not_Nil [OF wf [OF q(1)]] by (auto simp: path_wf_def hd_map [symmetric])
    then show ?thesis using path_wf_kinds(2) [OF wf [OF q(1)]] q(2) by blast
  qed
  have "p_id m \<notin> set (root_ids P)" if m: "m \<in> set ns" for m
  proof -
    have "p_kind m \<noteq> k" using m n(2) st(1) s by auto
    moreover have "id_kind (p_id m) = kind_name (p_kind m)"
      using path_wf_kinds(2) [OF wf [OF p]] m n(1) by simp
    ultimately show ?thesis using rk by fastforce
  qed
  then have none: "filter (\<lambda>i. i \<in> set (root_ids P)) (butlast (map p_id ns)) = []"
    by (auto simp: filter_empty_conv dest!: in_set_butlastD)
  have "ns \<noteq> []" using n(2) s(2) by auto
  moreover have "p_id n \<in> set (root_ids P)" using roots p n(1) by force
  ultimately show ?thesis
    using none sources_filter [of "\<lambda>i. i \<in> set (root_ids P)" "path p"] by (simp add: n(1))
qed

lemma first_step_total_eq:
  assumes nf: "paths_nul_free P" and wf: "\<And>p. p \<in> set P \<Longrightarrow> path_wf (resolveVisibleStages r visible) (path p)"
    and ls: "mset (map link_core ls) = mset (map link_core (map_values (raw_links metric c P)))"
  shows "(\<Sum>l\<leftarrow>ls. if l_source l \<in> set (root_ids P) then l_value l else 0) = (\<Sum>p\<leftarrow>P. metricValue (metrics p) metric)"
    and "first_step_total P ls = (\<Sum>p\<leftarrow>P. metricValue (metrics p) metric)"
proof -
  let ?S = "\<Sum>l\<leftarrow>ls. if l_source l \<in> set (root_ids P) then l_value l else 0"
  have q: "link_quantity metric l_value (\<lambda>ms. metricValue ms metric)" by (simp add: link_quantity_def)
  have "?S = (\<Sum>p\<leftarrow>P. metricValue (metrics p) metric *
      of_nat (length (filter (\<lambda>(a, b). p_id a \<in> set (root_ids P)) (steps (path p)))))"
    by (rule graph_link_sum_core [OF nf q ls, of "\<lambda>s t. s \<in> set (root_ids P)"])
  also have "\<dots> = (\<Sum>p\<leftarrow>P. metricValue (metrics p) metric)"
    using one_root_step [OF wf resolved_stages(1,2)]
    by (intro arg_cong [where f = sum_list] map_cong) simp_all
  finally show S: "?S = (\<Sum>p\<leftarrow>P. metricValue (metrics p) metric)" .
  have "first_step_total P ls = ?S"
    by (simp add: first_step_total_def foldl_sum Let_def sum_list_map_filter')
  with S show "first_step_total P ls = (\<Sum>p\<leftarrow>P. metricValue (metrics p) metric)" by simp
qed

text \<open>
  C24: shares are fractions of the whole. The links that leave the first visible stage add up to the total of
  the metric over all prepared paths, every link carries its value divided by that total, and the
  shares of the first column add up to one when the total is positive (they are zero otherwise).
  Unless overflowing nodes are hidden, the total is the one the summary shows; when they are hidden,
  it is the total over the rows all of whose visible nodes are within the limit.
\<close>

theorem first_column_shares:
  assumes "\<forall>row \<in> set rows. nul_free row"
    and g: "g = buildFlowGraph h rows metric r palette visible ctx options"
    and P: "P = flow_prepared h rows metric (resolveVisibleStages r visible) ctx options"
    and T: "T = (\<Sum>p\<leftarrow>P. metricValue (metrics p) metric)"
  shows "(\<Sum>l\<leftarrow>links g. if l_source l \<in> set (root_ids P) then l_value l else 0) = T \<and>
    (\<forall>l \<in> set (links g). l_share l = (if T > 0 then l_value l / T else 0)) \<and>
    (T > 0 \<longrightarrow> (\<Sum>l\<leftarrow>links g. if l_source l \<in> set (root_ids P) then l_share l else 0) = 1) \<and>
    (overflowMode options \<noteq> Some Hide \<longrightarrow> T = metricValue (buildSummary rows) metric) \<and>
    (overflowMode options = Some Hide \<longrightarrow>
       T = (\<Sum>row\<leftarrow>filter (within_limit h rows metric (resolveVisibleStages r visible) ctx options) rows.
              metricValue (rowMetrics row) metric))"
proof -
  note prep = graph_prepared [OF assms(1) P]
  let ?S = "\<lambda>f. \<Sum>l\<leftarrow>links g. if l_source l \<in> set (root_ids P) then f l else 0"
  have sumT: "?S l_value = T"
    using first_step_total_eq(1) [OF prep(1,2) graph_core(2) [OF P refl g]] T by simp
  obtain ls where ls: "links g = assignLinkDisplayColors h (map (set_share (first_step_total P ls)) ls)"
    and core: "mset (map link_core ls) = mset (map link_core (map_values (raw_links metric (graph_colors h P palette) P)))"
    using graph_core(3) [OF P refl g] by blast
  have "first_step_total P ls = T" using first_step_total_eq(2) [OF prep(1,2) core] T by simp
  then have plain: "map link_plain (links g) = map link_plain (map (set_share T) ls)" by (simp only: ls assign_plain)
  have share: "l_share l = (if T > 0 then l_value l / T else 0)" if "l \<in> set (links g)" for l
  proof -
    have "link_plain l \<in> set (map link_plain (map (set_share T) ls))" using that plain by (metis image_eqI list.set_map)
    then obtain l' where "link_plain l = link_plain (set_share T l')" by auto
    then have "l_share l = l_share (set_share T l')" "l_value l = l_value (set_share T l')"
      by (metis link_plain_fields(3,4))+
    then show ?thesis by (simp add: set_share_def)
  qed
  have one: "?S l_share = 1" if "T > 0"
  proof -
    have "?S l_share = (\<Sum>l\<leftarrow>links g. (if l_source l \<in> set (root_ids P) then l_value l else 0) * (1 / T))"
      using share that by (intro arg_cong [where f = sum_list] map_cong) simp_all
    also have "\<dots> = ?S l_value * (1 / T)" by (simp only: sum_list_mult_const)
    finally show ?thesis using sumT that by simp
  qed
  have "T = metricValue (buildSummary rows) metric" if "overflowMode options \<noteq> Some Hide"
  proof -
    have "(\<Sum>m\<leftarrow>map metrics P. metricValue m metric) = (\<Sum>m\<leftarrow>map rowMetrics rows. metricValue m metric)"
      by (simp only: P aggregate_keeps_rows [OF that])
    then show ?thesis by (simp add: T metricValue_summary comp_def)
  qed
  moreover have "T = (\<Sum>row\<leftarrow>filter (within_limit h rows metric (resolveVisibleStages r visible) ctx options) rows.
      metricValue (rowMetrics row) metric)" if "overflowMode options = Some Hide"
  proof -
    have "T = (\<Sum>m\<leftarrow>map metrics P. metricValue m metric)" by (simp add: T comp_def)
    then show ?thesis by (simp only: P hide_keeps_rows [OF that] map_map comp_def)
  qed
  ultimately show ?thesis using sumT share one by blast
qed

theorem first_column_shares_witness:
  "(\<Sum>l\<leftarrow>links example_graph. if l_source l \<in> set (root_ids example_paths) then l_share l else 0) = 1 \<and>
   metricValue (buildSummary example_rows) M_quota = 10"
proof -
  have T: "(\<Sum>p\<leftarrow>example_paths. metricValue (metrics p) M_quota) = 10" by code_simp
  have "metricValue (buildSummary example_rows) M_quota = 10" by code_simp
  with first_column_shares [OF example_rows_nul_free refl refl T [symmetric]] show ?thesis by simp
qed

end
