(* ===== verification/Flow_View.thy ===== *)
theory Flow_View
  imports Flow_Graph
begin

text \<open>
  What the view options of the flow graph do: filters select rows, the node limit keeps the largest
  nodes of a stage, highlighting follows the selected paths, and masking hides the labels of
  sensitive nodes and nothing else.
\<close>

section \<open>Filters\<close>

lemma add_to_kind_get:
  "map_get (add_to_kind k i m) k' =
     (if k' = k then Some (set_add i (case map_get m k of None \<Rightarrow> [] | Some s \<Rightarrow> s)) else map_get m k')"
  by (simp add: add_to_kind_def store_simps)

lemma map_wf_add_to_kind [simp]: "map_wf m \<Longrightarrow> map_wf (add_to_kind k i m)"
  by (simp add: add_to_kind_def)

definition kind_ids :: "(FlowNodeKind, string list) jmap \<Rightarrow> FlowNodeKind \<Rightarrow> string set" where
  "kind_ids m k = (case map_get m k of None \<Rightarrow> {} | Some s \<Rightarrow> set s)"

definition no_empty :: "(FlowNodeKind, string list) jmap \<Rightarrow> bool" where
  "no_empty m \<longleftrightarrow> map_wf m \<and> (\<forall>k. map_get m k \<noteq> Some [])"

lemma set_add_not_Nil [simp]: "set_add x s \<noteq> []"
  by (auto simp: set_add_def)

lemma no_empty_Nil [simp]: "no_empty []" "kind_ids [] k = {}"
  by (simp_all add: no_empty_def kind_ids_def)

lemma no_empty_add [simp]: "no_empty m \<Longrightarrow> no_empty (add_to_kind k i m)"
  by (simp add: no_empty_def add_to_kind_get)

lemma kind_ids_add [simp]:
  "kind_ids (add_to_kind k i m) k' = (if k' = k then insert i (kind_ids m k') else kind_ids m k')"
  by (simp add: kind_ids_def add_to_kind_get split: option.split)

lemma kind_ids_fold:
  "no_empty m \<Longrightarrow> no_empty (foldl (\<lambda>m x. if Q x then add_to_kind (kf x) (idf x) m else m) m xs) \<and>
     kind_ids (foldl (\<lambda>m x. if Q x then add_to_kind (kf x) (idf x) m else m) m xs) k =
       kind_ids m k \<union> idf ` {x \<in> set xs. Q x \<and> kf x = k}"
proof (induction xs arbitrary: m)
  case (Cons x xs)
  let ?m = "if Q x then add_to_kind (kf x) (idf x) m else m"
  have "no_empty ?m" using Cons.prems by simp
  from Cons.IH [OF this] show ?case by auto
qed simp

lemma no_empty_lookup: "no_empty m \<Longrightarrow> map_get m k = None \<longleftrightarrow> kind_ids m k = {}"
  by (auto simp: no_empty_def kind_ids_def split: option.splits)

lemma normalized_filters:
  assumes "sel = (case selected of None \<Rightarrow> [] | Some fs \<Rightarrow> fs)"
  shows "no_empty (normalizeSelectedNodeFilters selected stages)"
    and "kind_ids (normalizeSelectedNodeFilters selected stages) k =
       f_id ` {flt \<in> set sel. f_kind flt \<in> set stages \<and> f_kind flt = k}"
proof -
  have "(\<lambda>m (flt :: FlowNodeFilter). if f_kind flt \<notin> set stages then m else add_to_kind (f_kind flt) (f_id flt) m) =
      (\<lambda>m flt. if f_kind flt \<in> set stages then add_to_kind (f_kind flt) (f_id flt) m else m)"
    by (intro ext) simp
  then have eq: "normalizeSelectedNodeFilters selected stages =
      foldl (\<lambda>m flt. if f_kind flt \<in> set stages then add_to_kind (f_kind flt) (f_id flt) m else m) [] sel"
    unfolding normalizeSelectedNodeFilters_def assms by (simp only:)
  note fold = kind_ids_fold [OF no_empty_Nil(1), of "\<lambda>flt. f_kind flt \<in> set stages" f_kind f_id sel k]
  show "no_empty (normalizeSelectedNodeFilters selected stages)" unfolding eq by (rule conjunct1 [OF fold])
  show "kind_ids (normalizeSelectedNodeFilters selected stages) k =
      f_id ` {flt \<in> set sel. f_kind flt \<in> set stages \<and> f_kind flt = k}"
    unfolding eq conjunct2 [OF fold] by simp
qed

lemma path_kind_ids:
  "kind_ids (foldl (\<lambda>m n. add_to_kind (p_kind n) (p_id n) m) [] pth) k = p_id ` {n \<in> set pth. p_kind n = k}"
  "no_empty (foldl (\<lambda>m n. add_to_kind (p_kind n) (p_id n) m) [] pth)"
  using kind_ids_fold [OF no_empty_Nil(1), of "\<lambda>_. True" p_kind p_id pth k] by simp_all

lemma pathMatches_iff:
  assumes "no_empty filters"
  shows "pathMatchesNodeFilters pth filters \<longleftrightarrow>
     (\<forall>k. kind_ids filters k \<noteq> {} \<longrightarrow> kind_ids filters k \<inter> p_id ` {n \<in> set pth. p_kind n = k} \<noteq> {})"
proof -
  let ?by = "foldl (\<lambda>m n. add_to_kind (p_kind n) (p_id n) m) [] pth"
  have wf: "map_wf filters" using assms by (simp add: no_empty_def)
  have one: "(case map_get ?by k of None \<Rightarrow> False | Some ids \<Rightarrow> list_ex (\<lambda>i. i \<in> set ids) s) \<longleftrightarrow>
      set s \<inter> p_id ` {n \<in> set pth. p_kind n = k} \<noteq> {}" for k s
    unfolding path_kind_ids(1) [symmetric] kind_ids_def by (auto split: option.split simp: list_ex_iff)
  have all: "list_all (\<lambda>(k, s). R k s) filters \<longleftrightarrow> (\<forall>k s. map_get filters k = Some s \<longrightarrow> R k s)" for R
    using wf by (auto simp: list_all_iff map_get_in)
  have "pathMatchesNodeFilters pth filters \<longleftrightarrow>
      (\<forall>k s. map_get filters k = Some s \<longrightarrow> set s \<inter> p_id ` {n \<in> set pth. p_kind n = k} \<noteq> {})"
    unfolding pathMatchesNodeFilters_def Let_def one all by (cases filters) simp_all
  also have "\<dots> \<longleftrightarrow> (\<forall>k. kind_ids filters k \<noteq> {} \<longrightarrow>
      kind_ids filters k \<inter> p_id ` {n \<in> set pth. p_kind n = k} \<noteq> {})"
    using assms by (auto simp: kind_ids_def no_empty_def split: option.splits)
  finally show ?thesis .
qed

lemma path_kind_node:
  "p_id ` {n \<in> set (flowPathForStages row stages ctx). p_kind n = k} =
     (if k \<in> set stages then {p_id (NODE_BUILDERS k row ctx)} else {})"
  by (auto simp: flowPathForStages_def)

text \<open>
  C29: node filters select exactly the rows they name. Filters of the same kind are alternatives, filters of
  different kinds must all match, and filters of a kind that is not a visible stage are ignored.
\<close>

theorem node_filters_select:
  "filterRowsByNodes rows (Some sel) stages ctx =
     filter (\<lambda>row. \<forall>k \<in> set stages. (\<exists>flt \<in> set sel. f_kind flt = k) \<longrightarrow>
       (\<exists>flt \<in> set sel. f_kind flt = k \<and> f_id flt = p_id (NODE_BUILDERS k row ctx))) rows"
proof -
  let ?f = "normalizeSelectedNodeFilters (Some sel) stages"
  note ne = normalized_filters(1) [of sel "Some sel" stages, simplified]
  note ids = normalized_filters(2) [of sel "Some sel" stages, simplified]
  have ids': "kind_ids ?f k = (if k \<in> set stages then f_id ` {flt \<in> set sel. f_kind flt = k} else {})" for k
    unfolding ids by auto
  have A: "f_id ` {flt \<in> set sel. f_kind flt = k} \<inter> {x} \<noteq> {} \<longleftrightarrow> (\<exists>flt \<in> set sel. f_kind flt = k \<and> f_id flt = x)"
    "f_id ` {flt \<in> set sel. f_kind flt = k} \<noteq> {} \<longleftrightarrow> (\<exists>flt \<in> set sel. f_kind flt = k)" for k x
    by auto
  have step: "(kind_ids ?f k \<noteq> {} \<longrightarrow> kind_ids ?f k \<inter> p_id ` {n \<in> set (flowPathForStages row stages ctx). p_kind n = k} \<noteq> {}) \<longleftrightarrow>
      (k \<in> set stages \<longrightarrow> (\<exists>flt \<in> set sel. f_kind flt = k) \<longrightarrow>
         (\<exists>flt \<in> set sel. f_kind flt = k \<and> f_id flt = p_id (NODE_BUILDERS k row ctx)))" for k row
    by (cases "k \<in> set stages") (simp_all only: ids' path_kind_node if_True if_False A simp_thms)
  have row: "pathMatchesNodeFilters (flowPathForStages row stages ctx) ?f \<longleftrightarrow>
      (\<forall>k \<in> set stages. (\<exists>flt \<in> set sel. f_kind flt = k) \<longrightarrow>
         (\<exists>flt \<in> set sel. f_kind flt = k \<and> f_id flt = p_id (NODE_BUILDERS k row ctx)))" for row
    unfolding pathMatches_iff [OF ne] step Ball_def ..
  have "filterRowsByNodes rows (Some sel) stages ctx =
      filter (\<lambda>row. pathMatchesNodeFilters (flowPathForStages row stages ctx) ?f) rows"
    by (simp add: filterRowsByNodes_def pathMatchesNodeFilters_def Let_def)
  then show ?thesis unfolding row .
qed

theorem node_filters_select_witness:
  "map quota (filterRowsByNodes example_rows
     (Some [\<lparr>f_kind = K_group, f_id = ''group:vip''\<rparr>, \<lparr>f_kind = K_model, f_id = ''model:m1''\<rparr>,
            \<lparr>f_kind = K_user, f_id = ''user:9''\<rparr>]) [K_token, K_group, K_model] None) =
   [JNum (Fin 5)]"
  unfolding node_filters_select by code_simp

section \<open>The largest nodes of a stage\<close>

definition rank_ini :: "FlowPathNode \<Rightarrow> FlowNodeRank" where
  "rank_ini n = \<lparr>rank_node = n, rank_value = 0\<rparr>"

definition stage_step :: "num \<Rightarrow> (string, FlowNodeRank) jmap \<Rightarrow> FlowPathNode \<Rightarrow> (string, FlowNodeRank) jmap" where
  "stage_step v = jm.upsert p_id rank_ini (\<lambda>n r. r\<lparr>rank_value := rank_value r + v\<rparr>)"

lemma add_total_get:
  "map_get (add_total v totals n) k =
     (if p_kind n = k then map_option (\<lambda>st. stage_step v st n) (map_get totals k) else map_get totals k)"
  by (auto simp: add_total_def stage_step_def jm.upsert_def rank_ini_def store_simps Let_def split: option.splits)

lemma add_totals_get:
  "map_get (foldl (add_total v) totals ns) k =
     map_option (\<lambda>st. foldl (stage_step v) st (filter (\<lambda>n. p_kind n = k) ns)) (map_get totals k)"
  by (induction ns arbitrary: totals) (simp_all add: add_total_get option.map_comp comp_def option.map_ident)

lemma stage_nodes:
  "distinct stages \<Longrightarrow> k \<in> set stages \<Longrightarrow>
     filter (\<lambda>n. p_kind n = k) (flowPathForStages row stages ctx) = [NODE_BUILDERS k row ctx]"
  by (induction stages) (auto simp: flowPathForStages_def filter_empty_conv)

definition row_step :: "FlowMetric \<Rightarrow> FlowPathContext \<Rightarrow> FlowNodeKind \<Rightarrow> (string, FlowNodeRank) jmap \<Rightarrow> FlowQuotaDataItem \<Rightarrow>
    (string, FlowNodeRank) jmap" where
  "row_step metric ctx k = jm.upsert (\<lambda>row. p_id (NODE_BUILDERS k row ctx)) (\<lambda>row. rank_ini (NODE_BUILDERS k row ctx))
     (\<lambda>row r. r\<lparr>rank_value := rank_value r + metricValue (rowMetrics row) metric\<rparr>)"

lemma row_totals_get:
  assumes "distinct stages" "k \<in> set stages" "map_get totals k = Some st"
  shows "map_get (foldl (\<lambda>m row. foldl (add_total (metricValue (rowMetrics row) metric)) m
      (flowPathForStages row stages ctx)) totals rows) k = Some (foldl (row_step metric ctx k) st rows)"
  using assms(3)
proof (induction rows arbitrary: totals st)
  case (Cons row rows)
  have "stage_step (metricValue (rowMetrics row) metric) st (NODE_BUILDERS k row ctx) = row_step metric ctx k st row"
    by (simp add: stage_step_def row_step_def jm.upsert_def)
  then have "map_get (foldl (add_total (metricValue (rowMetrics row) metric)) totals
      (flowPathForStages row stages ctx)) k = Some (row_step metric ctx k st row)"
    using Cons.prems by (simp add: add_totals_get stage_nodes [OF assms(1,2)])
  then show ?case using Cons.IH by simp
qed simp

lemma initial_totals: "k \<in> set stages \<Longrightarrow> map_get (foldl (\<lambda>m stage. map_set stage [] m) m0 stages) k = Some []"
proof (induction stages arbitrary: m0)
  case (Cons s stages)
  have "map_get m k = Some [] \<Longrightarrow> map_get (foldl (\<lambda>m stage. map_set stage [] m) m st) k = Some []" for m st
    by (induction st arbitrary: m) (simp_all add: store_simps)
  then show ?case using Cons by (auto simp: store_simps)
qed simp

lemma fold_set_get:
  assumes "map_get m0 k = None" "map_wf ts"
  shows "map_get (foldl (\<lambda>m (k, v). map_set k (F v) m) m0 ts) k = map_option F (map_get ts k)"
  using assms
proof (induction ts arbitrary: m0)
  case (Cons t ts)
  obtain k' v where t: "t = (k', v)" by fastforce
  have keep: "k \<notin> set (map_keys ts) \<Longrightarrow>
      map_get (foldl (\<lambda>m (k, v). map_set k (F v) m) m ts) k = map_get m k" for m
    by (induction ts arbitrary: m) (auto simp: store_simps)
  have wf: "map_wf ts" "k' \<notin> set (map_keys ts)" using Cons.prems t by (auto simp: map_wf_def)
  show ?case
  proof (cases "k' = k")
    case True
    then show ?thesis using t wf keep by (simp add: store_simps map_get_Cons)
  next
    case False
    then show ?thesis using Cons.IH [of "map_set k' (F v) m0"] Cons.prems wf t by (simp add: store_simps map_get_Cons)
  qed
qed simp

lemma map_wf_add_totals: "map_wf m \<Longrightarrow> map_wf (foldl (add_total v) m ns)"
  by (induction ns arbitrary: m) (simp_all add: add_total_def Let_def split: option.split)

lemma map_wf_row_totals:
  "map_wf m \<Longrightarrow> map_wf (foldl (\<lambda>m row. foldl (add_total (metricValue (rowMetrics row) metric)) m
     (flowPathForStages row stages ctx)) m rows)"
  by (induction rows arbitrary: m) (simp_all add: map_wf_add_totals)

lemma map_wf_initial_totals: "map_wf m \<Longrightarrow> map_wf (foldl (\<lambda>m stage. map_set stage [] m) m stages)"
  by (induction stages arbitrary: m) simp_all

definition stage_ranks ::
  "FlowMetric \<Rightarrow> FlowPathContext \<Rightarrow> FlowNodeKind \<Rightarrow> FlowQuotaDataItem list \<Rightarrow> FlowNodeRank list" where
  "stage_ranks metric ctx k rows = map_values (foldl (row_step metric ctx k) [] rows)"

definition kept_ids ::
  "Host \<Rightarrow> FlowMetric \<Rightarrow> FlowPathContext \<Rightarrow> nat \<Rightarrow> FlowQuotaDataItem list \<Rightarrow> FlowNodeKind \<Rightarrow> string list" where
  "kept_ids h metric ctx l rows k =
     map (\<lambda>r. p_id (rank_node r)) (take l (js_sort (rank_cmp h) (stage_ranks metric ctx k rows)))"

lemma buildTopNodeSets_get:
  assumes "distinct stages" "0 < l"
  obtains tops where "buildTopNodeSets h rows metric stages (Some l) ctx = Some tops"
    and "\<And>k. k \<in> set stages \<Longrightarrow> map_get tops k = Some (uniq (kept_ids h metric ctx l rows k))"
proof -
  obtain l' where l: "l = Suc l'" using assms(2) by (cases l) auto
  let ?F = "\<lambda>st. uniq (map (\<lambda>r. p_id (rank_node r)) (take l (js_sort (rank_cmp h) (map_values st))))"
  let ?totals = "foldl (\<lambda>m row. foldl (add_total (metricValue (rowMetrics row) metric)) m
      (flowPathForStages row stages ctx)) (foldl (\<lambda>m stage. map_set stage [] m) [] stages) rows"
  let ?tops = "foldl (\<lambda>m (k, st). map_set k (?F st) m) [] ?totals"
  have "map_get ?tops k = Some (uniq (kept_ids h metric ctx l rows k))" if k: "k \<in> set stages" for k
  proof -
    have "map_get ?tops k = map_option ?F (map_get ?totals k)"
      by (rule fold_set_get) (simp_all add: map_wf_row_totals map_wf_initial_totals)
    then show ?thesis
      by (simp add: row_totals_get [OF assms(1) k initial_totals [OF k]] kept_ids_def stage_ranks_def)
  qed
  then show thesis
    by (rule that [of ?tops, rotated]) (simp_all add: l buildTopNodeSets_def Let_def)
qed

definition stage_total :: "FlowMetric \<Rightarrow> FlowPathContext \<Rightarrow> FlowNodeKind \<Rightarrow> FlowQuotaDataItem list \<Rightarrow> string \<Rightarrow> num" where
  "stage_total metric ctx k rows i =
     (\<Sum>row\<leftarrow>filter (\<lambda>row. p_id (NODE_BUILDERS k row ctx) = i) rows. metricValue (rowMetrics row) metric)"

lemma stage_ranks_spec:
  shows "set (map (\<lambda>r. p_id (rank_node r)) (stage_ranks metric ctx k rows)) = (\<lambda>row. p_id (NODE_BUILDERS k row ctx)) ` set rows"
    and "a \<in> set (stage_ranks metric ctx k rows) \<Longrightarrow> rank_value a = stage_total metric ctx k rows (p_id (rank_node a))"
proof -
  let ?key = "\<lambda>row. p_id (NODE_BUILDERS k row ctx)"
  let ?m = "foldl (row_step metric ctx k) [] rows"
  have wf: "map_wf ?m" by (simp add: row_step_def)
  have "\<forall>(i, v) \<in> set ?m. p_id (rank_node v) = i"
    unfolding row_step_def by (rule group_values_invariant) (simp_all add: rank_ini_def)
  then have inv: "p_id (rank_node v) = i" if "(i, v) \<in> set ?m" for i v using that by blast
  then have "map (\<lambda>r. p_id (rank_node r)) (map_values ?m) = map_keys ?m" by auto
  then have "set (map (\<lambda>r. p_id (rank_node r)) (stage_ranks metric ctx k rows)) = set (map_keys ?m)"
    by (simp only: stage_ranks_def)
  also have "\<dots> = ?key ` set rows" unfolding row_step_def jm.keys_group by simp
  finally show "set (map (\<lambda>r. p_id (rank_node r)) (stage_ranks metric ctx k rows)) = ?key ` set rows" .
  assume "a \<in> set (stage_ranks metric ctx k rows)"
  then obtain i where i: "(i, a) \<in> set ?m" by (auto simp: stage_ranks_def)
  have "rank_value a = wsum (\<lambda>i'. i' = i) rank_value ?m" using wsum_point [OF wf i] by simp
  also have "\<dots> = (\<Sum>row\<leftarrow>rows. if ?key row = i then metricValue (rowMetrics row) metric else 0)"
    unfolding row_step_def
    using wsum_group [of rank_value "\<lambda>row. rank_ini (NODE_BUILDERS k row ctx)"
        "\<lambda>row r. r\<lparr>rank_value := rank_value r + metricValue (rowMetrics row) metric\<rparr>"
        "\<lambda>row. metricValue (rowMetrics row) metric" "[]" "\<lambda>i'. i' = i" ?key]
    by (simp add: rank_ini_def)
  finally show "rank_value a = stage_total metric ctx k rows (p_id (rank_node a))"
    using inv [OF i] by (simp add: stage_total_def sum_list_map_filter')
qed

lemma consistent_rank: "collation (localeCompare h) \<Longrightarrow> consistent (rank_cmp h)"
proof -
  assume "collation (localeCompare h)"
  then have c: "consistent (localeCompare h)"
    by (simp add: collation_def consistent_def comparator_def consistent_axioms_def)
  show ?thesis
    unfolding rank_cmp_def [abs_def]
    by (intro consistent_then consistent_desc consistent_proj [OF c, of "\<lambda>a. p_label (rank_node a)"]
        consistent_proj [OF c, of "\<lambda>a. p_id (rank_node a)"])
qed

lemma kept_ids_largest:
  assumes "collation (localeCompare h)" "i \<in> set (kept_ids h metric ctx l rows k)"
    and "row \<in> set rows" "j = p_id (NODE_BUILDERS k row ctx)" "j \<notin> set (kept_ids h metric ctx l rows k)"
  shows "stage_total metric ctx k rows j \<le> stage_total metric ctx k rows i"
proof -
  let ?s = "js_sort (rank_cmp h) (stage_ranks metric ctx k rows)"
  have sorted: "sorted_wrt (\<lambda>a b. rank_cmp h a b \<le> 0) (take l ?s @ drop l ?s)"
    using consistent_sorted [OF consistent_rank [OF assms(1)]] by simp
  obtain a where a: "a \<in> set (take l ?s)" "i = p_id (rank_node a)" using assms(2) by (auto simp: kept_ids_def)
  have "j \<in> set (map (\<lambda>r. p_id (rank_node r)) (stage_ranks metric ctx k rows))"
    using assms(3,4) by (simp only: stage_ranks_spec(1)) blast
  then obtain b where b: "b \<in> set ?s" "j = p_id (rank_node b)" by auto
  have "b \<notin> set (take l ?s)" using assms(5) b(2) by (auto simp: kept_ids_def)
  then have "b \<in> set (drop l ?s)" using b(1) by (metis Un_iff append_take_drop_id set_append)
  then have "rank_cmp h a b \<le> 0" using sorted a(1) unfolding sorted_wrt_append by blast
  then have "rank_value b \<le> rank_value a" by (auto simp: rank_cmp_def then_cmp_def split: if_splits)
  moreover have "a \<in> set ?s" using a(1) by (meson in_set_takeD)
  ultimately show ?thesis using a(2) b stage_ranks_spec(2) by simp
qed

lemma normalizeTopNodeLimit_pos: "normalizeTopNodeLimit limit = Some l \<Longrightarrow> 0 < l"
proof -
  assume "normalizeTopNodeLimit limit = Some l"
  then obtain n r where "js_floor n = Fin r" "r > 0" "l = nat \<lfloor>r\<rfloor>"
    by (auto simp: normalizeTopNodeLimit_def split: option.splits jsnum.splits if_splits)
  moreover from this have "r = of_int \<lfloor>r\<rfloor>" by (cases n) auto
  ultimately show "0 < l" by (metis of_int_0_less_iff zero_less_nat_eq)
qed

abbreviation graph_mode where
  "graph_mode options \<equiv> (case overflowMode options of None \<Rightarrow> Aggregate | Some m \<Rightarrow> m)"

lemma limited_path_node:
  assumes P: "p \<in> set (flow_prepared h rows metric stages ctx options)"
    and l: "normalizeTopNodeLimit (topNodeLimit options) = Some l" and st: "distinct stages" "k \<in> set stages"
    and m: "m \<in> set (path p)" "p_kind m = k"
  shows "p_id m \<in> set (kept_ids h metric ctx l rows k) \<or> graph_mode options = Aggregate \<and> p_id m = OTHER_FLOW_NODE_IDS k"
proof -
  obtain tops where tops: "buildTopNodeSets h rows metric stages (Some l) ctx = Some tops"
    and get: "map_get tops k = Some (uniq (kept_ids h metric ctx l rows k))"
    using buildTopNodeSets_get [OF st(1) normalizeTopNodeLimit_pos [OF l]] st(2) by metis
  obtain row where lim: "applyTopNodeLimit (flowPathForStages row stages ctx) (Some tops) (graph_mode options)
      (otherNodeLabel options) = Some (path p)"
    using P unfolding flow_prepared_def prepared_in l tops by blast
  have top: "isTopFlowNode n (Some tops) \<longleftrightarrow> p_id n \<in> set (kept_ids h metric ctx l rows k)" if "p_kind n = k" for n
    using get that by (simp add: isTopFlowNode_def)
  show ?thesis
  proof (cases "list_ex (\<lambda>n. \<not> isTopFlowNode n (Some tops)) (flowPathForStages row stages ctx)")
    case False
    then have "isTopFlowNode m (Some tops)" using lim m(1) by (auto simp: applyTopNodeLimit_def list_ex_iff)
    then show ?thesis using top m(2) by blast
  next
    case True
    then have "graph_mode options = Aggregate" and pth: "path p = map (\<lambda>n. if isTopFlowNode n (Some tops) then n
        else otherFlowNode (p_kind n) (otherNodeLabel options)) (flowPathForStages row stages ctx)"
      using lim by (cases "graph_mode options"; simp add: applyTopNodeLimit_def)+
    then show ?thesis using m top by (auto simp: otherFlowNode_def)
  qed
qed

lemma kept_row_shown:
  assumes "overflowMode options \<noteq> Some Hide" "row \<in> set rows"
    and l: "normalizeTopNodeLimit (topNodeLimit options) = Some l" and st: "distinct stages" "k \<in> set stages"
    and kept: "p_id (NODE_BUILDERS k row ctx) \<in> set (kept_ids h metric ctx l rows k)"
  shows "\<exists>p \<in> set (flow_prepared h rows metric stages ctx options). NODE_BUILDERS k row ctx \<in> set (path p)"
proof -
  obtain tops where tops: "buildTopNodeSets h rows metric stages (Some l) ctx = Some tops"
    and get: "map_get tops k = Some (uniq (kept_ids h metric ctx l rows k))"
    using buildTopNodeSets_get [OF st(1) normalizeTopNodeLimit_pos [OF l]] st(2) by metis
  let ?n = "NODE_BUILDERS k row ctx" and ?pth = "flowPathForStages row stages ctx"
  have mode: "graph_mode options = Aggregate"
    using assms(1) by (cases "overflowMode options") (auto intro: FlowOverflowMode.exhaust)
  have top: "isTopFlowNode ?n (Some tops)" using get kept by (simp add: isTopFlowNode_def)
  have n: "?n \<in> set ?pth" using st(2) by (simp add: flowPathForStages_def)
  have "\<exists>pth. applyTopNodeLimit ?pth (Some tops) (graph_mode options) (otherNodeLabel options) = Some pth"
    by (simp add: applyTopNodeLimit_def mode)
  then obtain pth where
    pth: "applyTopNodeLimit ?pth (Some tops) (graph_mode options) (otherNodeLabel options) = Some pth" by blast
  then have "?n \<in> set pth"
    using top n by (cases rule: applyTopNodeLimit_cases) (auto simp: image_iff)
  moreover have "\<lparr>path = pth, metrics = rowMetrics row\<rparr> \<in> set (flow_prepared h rows metric stages ctx options)"
    unfolding flow_prepared_def prepared_in l tops using assms(2) pth by auto
  ultimately show ?thesis by force
qed

lemma shown_node_kept:
  assumes l: "normalizeTopNodeLimit (topNodeLimit options) = Some l"
    and k: "k \<in> set (resolveVisibleStages r visible)"
    and g: "g = buildFlowGraph h rows metric r palette visible ctx options"
    and n: "n \<in> set (nodes g)" "n_kind n = k"
  shows "n_id n \<in> set (kept_ids h metric ctx l rows k) \<or>
    graph_mode options = Aggregate \<and> n_id n = OTHER_FLOW_NODE_IDS k"
proof -
  define P where P: "P = graph_paths h rows metric r visible ctx options"
  have "n_id n \<in> (\<Union>p \<in> set P. p_id ` set (path p))" using n graph_node_in(2) [OF g P] by blast
  then obtain p m where m: "p \<in> set P" "m \<in> set (path p)" "p_id m = n_id n" by auto
  have wf: "path_wf (resolveVisibleStages r visible) (path p)" using m(1) prepared_path_wf unfolding P by blast
  have "kind_name (p_kind m) = kind_name k"
    using path_wf_kinds(2) [OF wf m(2)] node_id_kind(1) [OF g P n(1)] m(3) n(2) by simp
  then have "p_kind m = k" by simp
  from limited_path_node [OF m(1) [unfolded P] l resolved_stages(1) k m(2) this] show ?thesis
    using m(3) by simp
qed

text \<open>
  C25: the node limit keeps to the largest nodes. With a limit of l, every visible stage of the graph shows at
  most l nodes besides the overflow node of the stage, which exists only when overflow is
  aggregated. The nodes shown are among l nodes of the stage than which no other node has a larger total; and when overflow is
  aggregated, no node that was merged away has a larger total than one that is shown. (When it is hidden, one of the l
  nodes may be missing because all its paths overflow at other stages.)
\<close>

theorem node_limit_keeps_largest:
  assumes "collation (localeCompare h)" and l: "normalizeTopNodeLimit (topNodeLimit options) = Some l"
    and k: "k \<in> set (resolveVisibleStages r visible)"
    and g: "g = buildFlowGraph h rows metric r palette visible ctx options"
    and shown: "shown = {n_id n | n. n \<in> set (nodes g) \<and> n_kind n = k}"
  shows "card (shown - {OTHER_FLOW_NODE_IDS k}) \<le> l \<and>
    card shown \<le> l + (if overflowMode options = Some Hide then 0 else 1) \<and>
    (\<exists>top. finite top \<and> card top \<le> l \<and> shown - {OTHER_FLOW_NODE_IDS k} \<subseteq> top \<and>
      (\<forall>i \<in> top. \<forall>row \<in> set rows. p_id (NODE_BUILDERS k row ctx) \<notin> top \<longrightarrow>
         stage_total metric ctx k rows (p_id (NODE_BUILDERS k row ctx)) \<le> stage_total metric ctx k rows i)) \<and>
    (overflowMode options \<noteq> Some Hide \<longrightarrow>
      (\<forall>i \<in> shown - {OTHER_FLOW_NODE_IDS k}. \<forall>row \<in> set rows.
         p_id (NODE_BUILDERS k row ctx) \<notin> shown \<longrightarrow>
         stage_total metric ctx k rows (p_id (NODE_BUILDERS k row ctx)) \<le> stage_total metric ctx k rows i))"
proof -
  let ?st = "resolveVisibleStages r visible" and ?o = "OTHER_FLOW_NODE_IDS k"
  define P where P: "P = graph_paths h rows metric r visible ctx options"
  let ?kept = "kept_ids h metric ctx l rows k"
  have len: "card (set ?kept) \<le> l"
    using card_length [of ?kept] by (simp add: kept_ids_def)
  have shown_kept: "i \<in> set ?kept \<or> graph_mode options = Aggregate \<and> i = ?o" if i: "i \<in> shown" for i
    using shown_node_kept [OF l k g] i unfolding shown by blast
  have fin: "finite (set ?kept)" by simp
  have sub: "shown - {?o} \<subseteq> set ?kept" using shown_kept by blast
  then have c1: "card (shown - {?o}) \<le> l" using card_mono [OF fin sub] len by linarith
  have c2: "card shown \<le> l + (if overflowMode options = Some Hide then 0 else 1)"
  proof (cases "overflowMode options = Some Hide")
    case True
    then have mode: "graph_mode options \<noteq> Aggregate" by simp
    have "shown \<subseteq> set ?kept" using shown_kept mode by blast
    from card_mono [OF fin this] show ?thesis using len by simp
  next
    case False
    have finS: "finite (shown - {?o})" by (rule finite_subset [OF sub fin])
    have "card shown \<le> card (insert ?o (shown - {?o}))" by (rule card_mono) (use finS in auto)
    also have "\<dots> \<le> Suc (card (shown - {?o}))" by (subst card_insert_disjoint [OF finS]) simp_all
    finally show ?thesis using c1 False by simp
  qed
  have rank: "stage_total metric ctx k rows j \<le> stage_total metric ctx k rows i"
    if agg: "overflowMode options \<noteq> Some Hide" and i: "i \<in> shown - {?o}"
      and row: "row \<in> set rows" "j = p_id (NODE_BUILDERS k row ctx)" "j \<notin> shown" for i j row
  proof -
    have "j \<notin> set ?kept"
    proof
      assume "j \<in> set ?kept"
      then obtain p where "p \<in> set P" "NODE_BUILDERS k row ctx \<in> set (path p)"
        using kept_row_shown [OF agg row(1) l resolved_stages(1) k] row(2) unfolding P by blast
      then have "j \<in> n_id ` set (nodes g)" unfolding graph_node_in(2) [OF g P] using row(2) by blast
      then obtain n where n: "n \<in> set (nodes g)" "n_id n = j" by auto
      have "kind_name (n_kind n) = kind_name k"
        using node_id_kind(1) [OF g P n(1)] node_wf_builder [of k row ctx] n(2) row(2) by (simp add: node_wf_def)
      then show False using n row(3) shown by auto
    qed
    moreover have "i \<in> set ?kept" using sub i by (rule subsetD)
    ultimately show ?thesis using kept_ids_largest [OF assms(1) _ row(1,2)] by blast
  qed
  have top: "\<exists>top. finite top \<and> card top \<le> l \<and> shown - {?o} \<subseteq> top \<and>
      (\<forall>i \<in> top. \<forall>row \<in> set rows. p_id (NODE_BUILDERS k row ctx) \<notin> top \<longrightarrow>
         stage_total metric ctx k rows (p_id (NODE_BUILDERS k row ctx)) \<le> stage_total metric ctx k rows i)"
    by (intro exI [of _ "set ?kept"] conjI fin len sub ballI impI, rule kept_ids_largest [OF assms(1) _ _ refl])
  show ?thesis
    by (intro conjI, rule c1, rule c2, rule top) (intro impI ballI rank [OF _ _ _ refl])
qed

theorem node_limit_keeps_largest_witness:
  "card {n_id n | n. n \<in> set (nodes example_graph) \<and> n_kind n = K_token} \<le> 2 \<and>
   stage_total M_quota None K_token example_rows ''token:t2'' < stage_total M_quota None K_token example_rows ''token:t1''"
proof
  have c: "collation (localeCompare example_host)"
    by (simp add: example_host_def code_units.collation_axioms)
  have l: "normalizeTopNodeLimit (topNodeLimit example_options) = Some 1" by code_simp
  have k: "K_token \<in> set (resolveVisibleStages R_user None)" by code_simp
  have "card {n_id n | n. n \<in> set (nodes example_graph) \<and> n_kind n = K_token} \<le>
      1 + (if overflowMode example_options = Some Hide then 0 else 1)"
    by (rule conjunct1 [OF conjunct2 [OF node_limit_keeps_largest [OF c l k refl refl]]])
  then show "card {n_id n | n. n \<in> set (nodes example_graph) \<and> n_kind n = K_token} \<le> 2"
    by (simp add: example_options_def)
  show "stage_total M_quota None K_token example_rows ''token:t2'' < stage_total M_quota None K_token example_rows ''token:t1''"
    by code_simp
qed

section \<open>Reading nodes back from the chart\<close>

lemma isFlowNodeKind_name [simp]: "isFlowNodeKind (JStr (kind_name k)) = Some k"
  by (cases k) (simp_all add: isFlowNodeKind_def FLOW_NODE_KINDS_def)

lemma sankey_node_fields:
  "field (sankey_node n) ''key'' = JStr (n_id n)" "field (sankey_node n) ''kind'' = JStr (kind_name (n_kind n))"
  "field (sankey_node n) ''source'' = JUndefined" "field (sankey_node n) ''target'' = JUndefined"
  "field (sankey_node n) ''datum'' = JUndefined" "recordValue (sankey_node n) = Some (sankey_node n)"
  by (simp_all add: sankey_node_def recordValue_def)

lemma datum_of_source:
  assumes r: "recordValue d = Some d" and src: "sankeyDatumSource d = sankey_node n"
    and none: "\<forall>key \<in> {''key'', ''kind'', ''source'', ''target''}. field d key \<in> {JUndefined, field (sankey_node n) key}"
  shows "flowNodeFilterFromSankeyDatum d = Some \<lparr>f_kind = n_kind n, f_id = n_id n\<rparr>"
proof -
  have "sankeyDatumValue d key = field (sankey_node n) key" if "key \<in> {''key'', ''kind'', ''source'', ''target''}" for key
    using none that src unfolding sankeyDatumValue_def by auto
  then show ?thesis
    by (simp add: flowNodeFilterFromSankeyDatum_def flowSankeyDatumValue_def isSankeyLinkDatum_def r sankey_node_fields)
qed

text \<open>
  Clicking a node of the rendered chart selects that node. The datum of a node is read back as a filter on the
  node, whether the chart library hands over the datum itself, wraps it, or hands over the chain of
  data with the depth at which the node sits.
\<close>

lemma chart_node_round_trip:
  "flowNodeFilterFromSankeyDatum (sankey_node n) = Some \<lparr>f_kind = n_kind n, f_id = n_id n\<rparr> \<and>
   flowNodeFilterFromSankeyDatum (JObj [(''datum'', sankey_node n)]) = Some \<lparr>f_kind = n_kind n, f_id = n_id n\<rparr> \<and>
   flowNodeFilterFromSankeyDatum (JObj [(''datum'', JArr (pre @ sankey_node n # post)),
       (''depth'', JNum (Fin (of_nat (length pre))))]) = Some \<lparr>f_kind = n_kind n, f_id = n_id n\<rparr>"
proof (intro conjI)
  show "flowNodeFilterFromSankeyDatum (sankey_node n) = Some \<lparr>f_kind = n_kind n, f_id = n_id n\<rparr>"
    by (rule datum_of_source)
      (simp_all add: sankeyDatumSource_def sankey_node_fields, simp add: recordValue_def)
  show "flowNodeFilterFromSankeyDatum (JObj [(''datum'', sankey_node n)]) = Some \<lparr>f_kind = n_kind n, f_id = n_id n\<rparr>"
    by (rule datum_of_source)
      (simp_all add: sankeyDatumSource_def recordValue_def, simp add: sankey_node_def recordValue_def Let_def)
  show "flowNodeFilterFromSankeyDatum (JObj [(''datum'', JArr (pre @ sankey_node n # post)),
       (''depth'', JNum (Fin (of_nat (length pre))))]) = Some \<lparr>f_kind = n_kind n, f_id = n_id n\<rparr>"
    by (rule datum_of_source)
      (simp_all add: sankeyDatumSource_def recordValue_def array_at_def numberValue_def nth_append,
       simp add: sankey_node_def recordValue_def Let_def)
qed

end
