(* ===== verification/Flow_Mask.thy ===== *)
theory Flow_Mask
  imports Flow_View
begin

text \<open>
  Highlighting and masking of the flow graph: a selection marks exactly the nodes and links of the
  selected paths, masking hides the labels of sensitive nodes and changes nothing else.
\<close>

section \<open>Highlighting\<close>

definition selection_active :: "'a FlowGraphOptions_scheme \<Rightarrow> FlowNodeKind list \<Rightarrow> bool" where
  "selection_active options stages \<longleftrightarrow>
     activeLink options \<noteq> None \<or> (\<exists>a. activeNode options = Some a \<and> f_kind a \<in> set stages)"

abbreviation matching_paths where
  "matching_paths options P \<equiv> filter (\<lambda>p. matchesPath (activeNode options) (activeLink options) (path p)) P"

lemma highlight_sets:
  assumes "\<And>p. p \<in> set P \<Longrightarrow> path p \<noteq> []"
  shows "buildFlowHighlightSets P (activeNode options) (activeLink options) stages =
     (if selection_active options stages \<and> matching_paths options P \<noteq> []
      then Some \<lparr>hl_nodes = uniq (concat (map (\<lambda>p. map p_id (path p)) (matching_paths options P))),
        hl_links = uniq (concat (map (\<lambda>p. map (\<lambda>(a, b). pathLinkKey a b) (steps (path p)))
          (matching_paths options P)))\<rparr>
      else None)"
proof -
  have "concat (map (\<lambda>p. map p_id (path p)) (matching_paths options P)) = [] \<longleftrightarrow> matching_paths options P = []"
    using assms by (auto simp: concat_eq_Nil_conv filter_empty_conv)
  then show ?thesis
    by (auto simp: buildFlowHighlightSets_def selection_active_def Let_def simp del: filter_empty_conv
        split: option.splits)
qed

definition mark_node :: "FlowHighlightSets option \<Rightarrow> DashboardFlowNode \<Rightarrow> bool" where
  "mark_node hs n \<longleftrightarrow> n_highlighted n = map_option (\<lambda>s. n_id n \<in> set (hl_nodes s)) hs \<and>
     n_dimmed n = map_option (\<lambda>s. n_id n \<notin> set (hl_nodes s)) hs"

definition mark_link :: "FlowHighlightSets option \<Rightarrow> DashboardFlowLink \<Rightarrow> bool" where
  "mark_link hs l \<longleftrightarrow> l_highlighted l = map_option (\<lambda>s. linkStableKey l \<in> set (hl_links s)) hs \<and>
     l_dimmed l = map_option (\<lambda>s. linkStableKey l \<notin> set (hl_links s)) hs"

definition unmarked :: "(string, DashboardFlowNode) jmap \<Rightarrow> (string, DashboardFlowLink) jmap \<Rightarrow> bool" where
  "unmarked ns ls \<longleftrightarrow> (\<forall>n \<in> set (map_values ns). n_highlighted n = None \<and> n_dimmed n = None) \<and>
     (\<forall>l \<in> set (map_values ls). l_highlighted l = None \<and> l_dimmed l = None)"

lemma highlight_marks:
  assumes "unmarked ns ls"
  shows "n \<in> set (map_values (fst (applyFlowHighlights ns ls hs))) \<Longrightarrow> mark_node hs n"
    and "l \<in> set (map_values (snd (applyFlowHighlights ns ls hs))) \<Longrightarrow> mark_link hs l"
  using assms
  by (auto simp: unmarked_def applyFlowHighlights_def mark_node_def mark_link_def linkStableKey_def
      split: option.splits)

lemma unmarked_raw: "unmarked (raw_nodes metric c P) (raw_links metric c P)"
proof -
  have "\<forall>(k, n) \<in> set (raw_nodes metric c P). n_highlighted n = None \<and> n_dimmed n = None"
    unfolding raw_nodes_def
    by (rule group_values_invariant) (simp_all add: node_upd_def node_ini_def case_prod_unfold)
  moreover have "\<forall>(k, l) \<in> set (raw_links metric c P). l_highlighted l = None \<and> l_dimmed l = None"
    unfolding raw_links_def
    by (rule group_values_invariant) (simp_all add: link_upd_def link_ini_def case_prod_unfold)
  ultimately show ?thesis by (auto simp: unmarked_def)
qed

lemma unmarked_masked: "unmarked ns ls \<Longrightarrow> unmarked (fst (masked_graph options ns ls)) (snd (masked_graph options ns ls))"
  by (auto simp: unmarked_def masked_graph_def maskFlowGraphLabels_def Let_def)

lemma plain_in:
  "l \<in> set (assignLinkDisplayColors h (map (set_share t) ls)) \<Longrightarrow> \<exists>l' \<in> set ls. link_plain l = link_plain (set_share t l')"
proof -
  assume "l \<in> set (assignLinkDisplayColors h (map (set_share t) ls))"
  then have "link_plain l \<in> set (map link_plain (assignLinkDisplayColors h (map (set_share t) ls)))"
    unfolding set_map by (rule imageI)
  then have "link_plain l \<in> set (map link_plain (map (set_share t) ls))" by (simp only: assign_plain)
  then show ?thesis by auto
qed

lemma graph_marked:
  assumes P: "P = graph_paths h rows metric r visible ctx options"
    and g: "g = buildFlowGraph h rows metric r palette visible ctx options"
    and hs: "hs = buildFlowHighlightSets P (activeNode options) (activeLink options) (resolveVisibleStages r visible)"
  shows "n \<in> set (nodes g) \<Longrightarrow> mark_node hs n" "l \<in> set (links g) \<Longrightarrow> mark_link hs l"
proof -
  let ?c = "graph_colors h P palette"
  let ?g' = "masked_graph options (raw_nodes metric ?c P) (raw_links metric ?c P)"
  note eq = graph_eq [OF P refl g refl refl]
  have m: "marked_graph metric ?c P (resolveVisibleStages r visible) options = applyFlowHighlights (fst ?g') (snd ?g') hs"
    by (simp add: marked_graph_def hs Let_def)
  note marks = highlight_marks [OF unmarked_masked [OF unmarked_raw]]
  show "n \<in> set (nodes g) \<Longrightarrow> mark_node hs n"
    unfolding eq(1) m set_js_sort by (rule marks(1))
  assume "l \<in> set (links g)"
  then obtain l' t where l': "l' \<in> set (map_values (snd (applyFlowHighlights (fst ?g') (snd ?g') hs)))"
    and p: "link_plain l = link_plain (set_share t l')"
    unfolding eq(2) m by (metis plain_in set_js_sort)
  have "mark_link hs l'" using l' by (rule marks(2))
  moreover have "l_highlighted l = l_highlighted l'" "l_dimmed l = l_dimmed l'" "linkStableKey l = linkStableKey l'"
    using arg_cong [OF p, of l_highlighted] arg_cong [OF p, of l_dimmed] arg_cong [OF p, of l_source]
      arg_cong [OF p, of l_target]
    by (simp_all add: set_share_def linkStableKey_def)
  ultimately show "mark_link hs l" by (simp add: mark_link_def)
qed

lemma key_in_steps:
  assumes nf: "paths_nul_free P" and sub: "set M \<subseteq> set P" and l: "NUL \<notin> set (l_source l)"
  shows "linkStableKey l \<in> set (concat (map (\<lambda>p. map (\<lambda>(a, b). pathLinkKey a b) (steps (path p))) M)) \<longleftrightarrow>
     (\<exists>p \<in> set M. traverses (link_ends l) p)"
proof -
  have "linkStableKey l = pathLinkKey a b \<longleftrightarrow> link_ends l = (p_id a, p_id b)"
    if "p \<in> set M" "(a, b) \<in> set (steps (path p))" for p a b
  proof -
    have "NUL \<notin> set (p_id a)"
      using nf sub that by (auto simp: paths_nul_free_def dest!: set_zip_leftD)
    then show ?thesis
      using key_parts [OF l, of "l_target l"] key_parts [of "p_id a" "p_id b"]
      by (auto simp: linkStableKey_def pathLinkKey_def)
  qed
  then show ?thesis by (fastforce simp: traverses_def id_steps_def)
qed

text \<open>
  C28: a selection highlights exactly the paths it names. When a node of a visible stage or a link is selected and
  some path runs through it, the highlighted nodes and links are those of the matching paths and
  all others are dimmed; otherwise nothing is marked.
\<close>

theorem highlight_follows_paths:
  assumes "\<forall>row \<in> set rows. nul_free row"
    and g: "g = buildFlowGraph h rows metric r palette visible ctx options"
    and P: "P = flow_prepared h rows metric (resolveVisibleStages r visible) ctx options"
    and M: "M = filter (\<lambda>p. matchesPath (activeNode options) (activeLink options) (path p)) P"
  shows "if selection_active options (resolveVisibleStages r visible) \<and> M \<noteq> [] then
      (\<forall>n \<in> set (nodes g). n_highlighted n = Some (\<exists>p \<in> set M. visits (n_id n) p) \<and>
         n_dimmed n = Some (\<not> (\<exists>p \<in> set M. visits (n_id n) p))) \<and>
      (\<forall>l \<in> set (links g). l_highlighted l = Some (\<exists>p \<in> set M. traverses (link_ends l) p) \<and>
         l_dimmed l = Some (\<not> (\<exists>p \<in> set M. traverses (link_ends l) p)))
    else (\<forall>n \<in> set (nodes g). n_highlighted n = None \<and> n_dimmed n = None) \<and>
      (\<forall>l \<in> set (links g). l_highlighted l = None \<and> l_dimmed l = None)"
proof -
  let ?st = "resolveVisibleStages r visible"
  note prep = graph_prepared [OF assms(1) P]
  have ne: "path p \<noteq> []" if "p \<in> set P" for p using path_wf_not_Nil [OF prep(2) [OF that] resolved_not_Nil] .
  note hs = highlight_sets [OF ne, of P options ?st]
  note marked = graph_marked [OF P g refl]
  have src: "NUL \<notin> set (l_source l)" if "l \<in> set (links g)" for l
  proof -
    have "link_ends l \<in> set (map link_ends (links g))" using that by (force simp: image_iff)
    then obtain p where p: "p \<in> set P" "link_ends l \<in> set (id_steps p)"
      unfolding link_set(2) [OF prep(1) graph_core(2) [OF P refl g]] by blast
    then have "\<exists>n \<in> set (path p). l_source l = p_id n" by (auto simp: id_steps_def dest: set_zip_leftD)
    then show ?thesis using prep(1) p(1) by (auto simp: paths_nul_free_def)
  qed
  show ?thesis
  proof (cases "selection_active options ?st \<and> M \<noteq> []")
    case True
    let ?nodes = "uniq (concat (map (\<lambda>p. map p_id (path p)) M))"
    let ?links = "uniq (concat (map (\<lambda>p. map (\<lambda>(a, b). pathLinkKey a b) (steps (path p))) M))"
    have s: "buildFlowHighlightSets P (activeNode options) (activeLink options) ?st = Some \<lparr>hl_nodes = ?nodes, hl_links = ?links\<rparr>"
      using hs True unfolding M by simp
    have n: "n_id n \<in> set ?nodes \<longleftrightarrow> (\<exists>p \<in> set M. visits (n_id n) p)" for n
      by (simp add: visits_def)
    have l: "linkStableKey l \<in> set ?links \<longleftrightarrow> (\<exists>p \<in> set M. traverses (link_ends l) p)" if "l \<in> set (links g)" for l
      unfolding set_uniq by (rule key_in_steps [OF prep(1) _ src [OF that]]) (simp add: M)
    have "mark_node (Some \<lparr>hl_nodes = ?nodes, hl_links = ?links\<rparr>) n" if "n \<in> set (nodes g)" for n
      using marked(1) [OF that] unfolding s .
    moreover have "mark_link (Some \<lparr>hl_nodes = ?nodes, hl_links = ?links\<rparr>) l" if "l \<in> set (links g)" for l
      using marked(2) [OF that] unfolding s .
    ultimately show ?thesis
      using True l by (simp only: mark_node_def mark_link_def option.map FlowHighlightSets.simps n if_True simp_thms) blast
  next
    case False
    then have s: "buildFlowHighlightSets P (activeNode options) (activeLink options) ?st = None"
      using hs unfolding M by simp
    show ?thesis
      using marked unfolding s if_not_P [OF False] by (simp add: mark_node_def mark_link_def)
  qed
qed

definition select_options :: FlowGraphOptions where
  "select_options = example_options\<lparr>activeNode := Some \<lparr>f_kind = K_model, f_id = ''model:m1''\<rparr>\<rparr>"

theorem highlight_follows_paths_witness:
  "\<exists>n \<in> set (nodes (buildFlowGraph example_host example_rows M_quota R_user None None None select_options)).
     n_highlighted n = Some True"
proof -
  let ?g = "buildFlowGraph example_host example_rows M_quota R_user None None None select_options"
  let ?P = "flow_prepared example_host example_rows M_quota (resolveVisibleStages R_user None) None select_options"
  let ?M = "filter (\<lambda>p. matchesPath (activeNode select_options) (activeLink select_options) (path p)) ?P"
  have a: "selection_active select_options (resolveVisibleStages R_user None)"
    by (simp add: selection_active_def select_options_def resolveVisibleStages_def)
  have e: "\<exists>p \<in> set ?M. visits ''model:m1'' p" by code_simp
  from e have "set ?M \<noteq> {}" by (rule bexE) (erule ex_in_conv [THEN iffD1, OF exI])
  with a have act: "selection_active select_options (resolveVisibleStages R_user None) \<and> ?M \<noteq> []"
    by (simp only: set_empty simp_thms)
  note th = highlight_follows_paths [OF example_rows_nul_free refl refl refl, where options = select_options and
        r = R_user and visible = None and h = example_host and metric = M_quota and ctx = None and palette = None,
      unfolded if_P [OF act]]
  have "''model:m1'' \<in> (\<Union>p \<in> set ?P. p_id ` set (path p))" by code_simp
  then have "''model:m1'' \<in> n_id ` set (nodes ?g)" unfolding graph_node_in(2) [OF refl refl] .
  then obtain n where n: "n_id n = ''model:m1''" "n \<in> set (nodes ?g)" by (rule imageE) (rule that [OF sym])
  have "n_highlighted n = Some (\<exists>p \<in> set ?M. visits (n_id n) p)"
    by (rule conjunct1 [OF bspec [OF conjunct1 [OF th] n(2)]])
  then have "n_highlighted n = Some True" unfolding n(1) by (simp only: e)
  then show ?thesis using n(2) by (rule bexI)
qed

section \<open>Masking\<close>

lemma masked_by_id:
  fixes Q :: "'n \<Rightarrow> bool" and idf :: "'n \<Rightarrow> 'k" and f :: "'n \<Rightarrow> 'v"
  defines "F \<equiv> foldl (\<lambda>m n. if Q n then map_set (idf n) (f n) m else m)"
  shows "map_get (F m vs) i = Some x \<Longrightarrow> map_get m i = Some x \<or> (\<exists>n \<in> set vs. Q n \<and> idf n = i \<and> x = f n)"
    and "n \<in> set vs \<Longrightarrow> Q n \<Longrightarrow> map_get (F m vs) (idf n) \<noteq> None"
proof -
  show "map_get (F m vs) i = Some x \<Longrightarrow> map_get m i = Some x \<or> (\<exists>n \<in> set vs. Q n \<and> idf n = i \<and> x = f n)"
    by (induction vs arbitrary: m) (fastforce simp: F_def store_simps split: if_splits)+
  have keep: "map_get m j \<noteq> None \<Longrightarrow> map_get (F m vs) j \<noteq> None" for m j vs
    by (induction vs arbitrary: m) (simp_all add: F_def store_simps)
  show "n \<in> set vs \<Longrightarrow> Q n \<Longrightarrow> map_get (F m vs) (idf n) \<noteq> None"
  proof (induction vs arbitrary: m)
    case (Cons v vs)
    have F: "F m (v # vs) = F (if Q v then map_set (idf v) (f v) m else m) vs" by (simp add: F_def)
    show ?case
    proof (cases "n = v")
      case True
      then show ?thesis unfolding F using Cons.prems by (intro keep) (simp add: store_simps)
    next
      case False
      then show ?thesis unfolding F using Cons by simp
    qed
  qed simp
qed

definition hidden_label :: "string \<Rightarrow> bool" where
  "hidden_label s \<longleftrightarrow> s = [] \<or> s = FLOW_MASK_TEXT"

lemma hidden_mask [simp]: "hidden_label (maskFlowLabel s)"
  by (simp add: hidden_label_def maskFlowLabel_def)

lemma mask_labels:
  assumes "(ns', ls') = maskFlowGraphLabels ns ls"
  shows "n \<in> set (map_values ns') \<Longrightarrow> to_mask n \<Longrightarrow> hidden_label (n_label n)"
    and "l \<in> set (map_values ls') \<Longrightarrow> n \<in> set (map_values ns') \<Longrightarrow> to_mask n \<Longrightarrow>
      (l_source l = n_id n \<longrightarrow> hidden_label (l_sourceLabel l)) \<and> (l_target l = n_id n \<longrightarrow> hidden_label (l_targetLabel l))"
proof -
  let ?by = "foldl (\<lambda>m n. if to_mask n then map_set (n_id n) (maskFlowLabel (n_label n)) m else m) [] (map_values ns)"
  have ns': "map_values ns' = map (\<lambda>n. if to_mask n then n\<lparr>n_label := maskFlowLabel (n_label n)\<rparr> else n) (map_values ns)"
    using assms by (auto simp: maskFlowGraphLabels_def Let_def comp_def case_prod_unfold split: if_splits)
  have tm: "to_mask (n\<lparr>n_label := s\<rparr>) = to_mask n" for n s by (simp add: to_mask_def)
  show "n \<in> set (map_values ns') \<Longrightarrow> to_mask n \<Longrightarrow> hidden_label (n_label n)"
    unfolding ns' by (auto simp: tm)
  have by_some: "\<exists>s. map_get ?by (n_id n) = Some s \<and> hidden_label s" if n: "n \<in> set (map_values ns')" "to_mask n" for n
  proof -
    obtain n0 where "n0 \<in> set (map_values ns)"
      and e: "n = (if to_mask n0 then n0\<lparr>n_label := maskFlowLabel (n_label n0)\<rparr> else n0)"
      using n(1) unfolding ns' set_map by blast
    then have n0: "n0 \<in> set (map_values ns)" "to_mask n0" "n_id n0 = n_id n"
      using n(2) by (simp_all add: tm split: if_splits)
    have "map_get ?by (n_id n) \<noteq> None"
      using masked_by_id(2) [of n0 "map_values ns" to_mask n_id "\<lambda>n. maskFlowLabel (n_label n)" "[]"] n0 by simp
    then obtain s where s: "map_get ?by (n_id n) = Some s" by blast
    from masked_by_id(1) [OF this] have "hidden_label s"
      by (auto simp only: map_get_empty option.distinct hidden_mask)
    with s show ?thesis by simp
  qed
  assume l: "l \<in> set (map_values ls')" and n: "n \<in> set (map_values ns')" "to_mask n"
  obtain s where s: "map_get ?by (n_id n) = Some s" "hidden_label s" using by_some [OF n] by blast
  then have "?by \<noteq> []" by (metis map_get_empty option.distinct(1))
  then have ls': "ls' = map (\<lambda>(k, l).
       (k, l\<lparr>l_sourceLabel := (case map_get ?by (l_source l) of None \<Rightarrow> l_sourceLabel l | Some t \<Rightarrow> t),
             l_targetLabel := (case map_get ?by (l_target l) of None \<Rightarrow> l_targetLabel l | Some t \<Rightarrow> t)\<rparr>)) ls"
    using assms unfolding maskFlowGraphLabels_def Let_def by (simp only: if_False prod.inject)
  show "(l_source l = n_id n \<longrightarrow> hidden_label (l_sourceLabel l)) \<and> (l_target l = n_id n \<longrightarrow> hidden_label (l_targetLabel l))"
  proof -
    let ?f = "\<lambda>l. l\<lparr>l_sourceLabel := (case map_get ?by (l_source l) of None \<Rightarrow> l_sourceLabel l | Some t \<Rightarrow> t),
        l_targetLabel := (case map_get ?by (l_target l) of None \<Rightarrow> l_targetLabel l | Some t \<Rightarrow> t)\<rparr>"
    have "map_values ls' = map ?f (map_values ls)" unfolding ls' by (simp add: comp_def case_prod_unfold)
    with l obtain l0 where "l = ?f l0" by auto
    then show ?thesis using s by simp
  qed
qed

definition set_node_marks :: "FlowHighlightSets option \<Rightarrow> DashboardFlowNode \<Rightarrow> DashboardFlowNode" where
  "set_node_marks hs n = (case hs of None \<Rightarrow> n | Some s \<Rightarrow>
     n\<lparr>n_highlighted := Some (n_id n \<in> set (hl_nodes s)), n_dimmed := Some (n_id n \<notin> set (hl_nodes s))\<rparr>)"

definition set_link_marks :: "FlowHighlightSets option \<Rightarrow> DashboardFlowLink \<Rightarrow> DashboardFlowLink" where
  "set_link_marks hs l = (case hs of None \<Rightarrow> l | Some s \<Rightarrow>
     l\<lparr>l_highlighted := Some (linkStableKey l \<in> set (hl_links s)),
       l_dimmed := Some (linkStableKey l \<notin> set (hl_links s))\<rparr>)"

lemma highlight_values:
  "map_values (fst (applyFlowHighlights ns ls hs)) = map (set_node_marks hs) (map_values ns)"
  "map_values (snd (applyFlowHighlights ns ls hs)) = map (set_link_marks hs) (map_values ls)"
  by (auto simp: applyFlowHighlights_def set_node_marks_def set_link_marks_def split: option.splits)

lemma label_in_marked:
  assumes P: "P = graph_paths h rows metric r visible ctx options"
    and g: "g = buildFlowGraph h rows metric r palette visible ctx options"
    and g': "g' = masked_graph options (raw_nodes metric (graph_colors h P palette) P)
               (raw_links metric (graph_colors h P palette) P)"
  shows "n \<in> set (nodes g) \<Longrightarrow> \<exists>n' \<in> set (map_values (fst g')). n_id n' = n_id n \<and> n_kind n' = n_kind n \<and> n_label n' = n_label n"
    and "l \<in> set (links g) \<Longrightarrow> \<exists>l' \<in> set (map_values (snd g')). link_ends l' = link_ends l \<and>
       l_sourceLabel l' = l_sourceLabel l \<and> l_targetLabel l' = l_targetLabel l"
proof -
  let ?c = "graph_colors h P palette"
  let ?hs = "buildFlowHighlightSets P (activeNode options) (activeLink options) (resolveVisibleStages r visible)"
  note eq = graph_eq [OF P refl g refl refl]
  have m: "marked_graph metric ?c P (resolveVisibleStages r visible) options = applyFlowHighlights (fst g') (snd g') ?hs"
    by (simp add: marked_graph_def g' Let_def)
  show "\<exists>n' \<in> set (map_values (fst g')). n_id n' = n_id n \<and> n_kind n' = n_kind n \<and> n_label n' = n_label n"
    if n: "n \<in> set (nodes g)"
  proof -
    obtain n' where "n' \<in> set (map_values (fst g'))" "n = set_node_marks ?hs n'"
      using n unfolding eq(1) m set_js_sort highlight_values set_map by blast
    then show ?thesis by (intro bexI [of _ n']) (simp_all add: set_node_marks_def split: option.split)
  qed
  assume "l \<in> set (links g)"
  then obtain l1 t where l1: "l1 \<in> set (map_values (snd (applyFlowHighlights (fst g') (snd g') ?hs)))"
    and p: "link_plain l = link_plain (set_share t l1)"
    unfolding eq(2) m by (metis plain_in set_js_sort)
  obtain l' where l0: "l' \<in> set (map_values (snd g'))" "l1 = set_link_marks ?hs l'"
    using l1 unfolding highlight_values set_map by blast
  then have l': "l' \<in> set (map_values (snd g'))" "link_ends l' = link_ends l1"
      "l_sourceLabel l' = l_sourceLabel l1" "l_targetLabel l' = l_targetLabel l1"
    by (simp_all add: set_link_marks_def split: option.split)
  have "link_ends l = link_ends l1" "l_sourceLabel l = l_sourceLabel l1" "l_targetLabel l = l_targetLabel l1"
    using arg_cong [OF p, of l_source] arg_cong [OF p, of l_target] arg_cong [OF p, of l_sourceLabel]
      arg_cong [OF p, of l_targetLabel] by (simp_all add: set_share_def)
  with l' show "\<exists>l' \<in> set (map_values (snd g')). link_ends l' = link_ends l \<and>
      l_sourceLabel l' = l_sourceLabel l \<and> l_targetLabel l' = l_targetLabel l"
    by (intro bexI [of _ l']) simp_all
qed

text \<open>
  C26: masking hides every sensitive label. With masking on, the label of each user, node, token, group and
  channel (the overflow nodes apart) is the mask or empty, and so is the label of each end of a
  link that is such a node.
\<close>

theorem masking_hides_labels:
  assumes "maskSensitive options"
    and g: "g = buildFlowGraph h rows metric r palette visible ctx options"
    and n: "n \<in> set (nodes g)" "n_kind n \<in> set SENSITIVE_FLOW_KINDS" "n_id n \<notin> set OTHER_FLOW_NODE_ID_SET"
  shows "n_label n \<in> {[], FLOW_MASK_TEXT} \<and>
    (\<forall>l \<in> set (links g). (l_source l = n_id n \<longrightarrow> l_sourceLabel l \<in> {[], FLOW_MASK_TEXT}) \<and>
       (l_target l = n_id n \<longrightarrow> l_targetLabel l \<in> {[], FLOW_MASK_TEXT}))"
proof -
  define P where P: "P = graph_paths h rows metric r visible ctx options"
  let ?c = "graph_colors h P palette"
  let ?g' = "maskFlowGraphLabels (raw_nodes metric ?c P) (raw_links metric ?c P)"
  have g': "?g' = masked_graph options (raw_nodes metric ?c P) (raw_links metric ?c P)"
    by (simp add: masked_graph_def assms(1))
  note marked = label_in_marked [OF P g g']
  obtain n' where n': "n' \<in> set (map_values (fst ?g'))" "n_id n' = n_id n" "n_kind n' = n_kind n" "n_label n' = n_label n"
    using marked(1) [OF n(1)] by blast
  then have tm: "to_mask n'" using n by (simp add: to_mask_def)
  note hide = mask_labels [OF prod.collapse [of ?g']]
  have "hidden_label (n_label n)" using hide(1) [OF n'(1) tm] n'(4) by simp
  moreover have "(l_source l = n_id n \<longrightarrow> hidden_label (l_sourceLabel l)) \<and>
      (l_target l = n_id n \<longrightarrow> hidden_label (l_targetLabel l))" if l: "l \<in> set (links g)" for l
  proof -
    obtain l' where l': "l' \<in> set (map_values (snd ?g'))" "link_ends l' = link_ends l"
        "l_sourceLabel l' = l_sourceLabel l" "l_targetLabel l' = l_targetLabel l"
      using marked(2) [OF l] by blast
    then show ?thesis using hide(2) [OF l'(1) n'(1) tm] n'(2) by simp
  qed
  ultimately show ?thesis by (simp add: hidden_label_def)
qed

theorem masking_hides_labels_witness:
  "\<exists>n \<in> set (nodes example_graph). n_id n = ''group:vip'' \<and> n_label n \<in> {[], FLOW_MASK_TEXT}"
proof -
  obtain n where n: "n \<in> set (nodes example_graph)" "n_id n = ''group:vip''" "n_kind n = K_group"
    using example_node by blast
  have m: "maskSensitive example_options" by (simp add: example_options_def)
  have k: "n_kind n \<in> set SENSITIVE_FLOW_KINDS" by (simp add: n SENSITIVE_FLOW_KINDS_def)
  have "''group:vip'' \<notin> set OTHER_FLOW_NODE_ID_SET" by code_simp
  then have o: "n_id n \<notin> set OTHER_FLOW_NODE_ID_SET" unfolding n(2) .
  from n(2) conjunct1 [OF masking_hides_labels [OF m refl n(1) k o]]
  have "n_id n = ''group:vip'' \<and> n_label n \<in> {[], FLOW_MASK_TEXT}" by (rule conjI)
  then show ?thesis using n(1) by (rule bexI)
qed

text \<open>Erasing the labels commutes with the passes that follow masking.\<close>

definition erase_node :: "DashboardFlowNode \<Rightarrow> DashboardFlowNode" where
  "erase_node n = n\<lparr>n_label := []\<rparr>"

definition erase_link :: "DashboardFlowLink \<Rightarrow> DashboardFlowLink" where
  "erase_link l = l\<lparr>l_sourceLabel := [], l_targetLabel := []\<rparr>"

lemma erase_link_fields [simp]:
  "l_source (erase_link l) = l_source l" "l_target (erase_link l) = l_target l" "l_value (erase_link l) = l_value l"
  "linkStableKey (erase_link l) = linkStableKey l"
  "display_link len i (erase_link l) = erase_link (display_link len i l)"
  "set_share t (erase_link l) = erase_link (set_share t l)"
  "set_link_marks hs (erase_link l) = erase_link (set_link_marks hs l)"
  by (simp_all add: erase_link_def linkStableKey_def display_link_def set_share_def set_link_marks_def Let_def
      split: option.split)

lemma erase_node_marks: "set_node_marks hs (erase_node n) = erase_node (set_node_marks hs n)"
  by (simp add: erase_node_def set_node_marks_def split: option.split)

definition group_step :: "nat \<Rightarrow> DashboardFlowLink list \<Rightarrow> nat \<times> DashboardFlowLink \<Rightarrow> DashboardFlowLink list" where
  "group_step len ls ix =
     map (\<lambda>l. if linkStableKey l = linkStableKey (snd ix) then display_link len (fst ix) l else l) ls"

lemma assign_group_steps:
  "assign_group h ls grp = (let sorted = js_sort (by_value_then_key h) grp in
     foldl (group_step (length sorted)) ls (enumerate 0 sorted))"
  by (simp add: assign_group_def group_step_def [abs_def] case_prod_unfold Let_def)

lemma enumerate_map: "enumerate n (map f xs) = map (apsnd f) (enumerate n xs)"
  by (induction xs arbitrary: n) simp_all

lemma group_step_erase:
  "group_step len (map erase_link ls) (apsnd erase_link ix) = map erase_link (group_step len ls ix)"
  by (simp add: group_step_def)

lemma group_steps_erase:
  "foldl (group_step len) (map erase_link ls) (map (apsnd erase_link) ixs) =
     map erase_link (foldl (group_step len) ls ixs)"
  by (induction ixs arbitrary: ls) (simp_all add: group_step_erase)

lemma assign_group_erase:
  "assign_group h (map erase_link ls) (map erase_link grp) = map erase_link (assign_group h ls grp)"
proof -
  have "js_sort (by_value_then_key h) (map erase_link grp) = map erase_link (js_sort (by_value_then_key h) grp)"
    by (rule js_sort_map) (simp add: by_value_then_key_def)
  then show ?thesis by (simp add: assign_group_steps Let_def enumerate_map group_steps_erase)
qed

definition source_add :: "(string, DashboardFlowLink list) jmap \<Rightarrow> DashboardFlowLink \<Rightarrow> (string, DashboardFlowLink list) jmap" where
  "source_add m link =
     map_set (l_source link) ((case map_get m (l_source link) of None \<Rightarrow> [] | Some xs \<Rightarrow> xs) @ [link]) m"

lemma assign_source_add:
  "assignLinkDisplayColors h ls = foldl (assign_group h) ls (map_values (foldl source_add [] ls))"
  by (simp add: assignLinkDisplayColors_def source_add_def [abs_def] Let_def)

lemma map_set_map: "map_set k (f v) (map (apsnd f) m) = map (apsnd f) (map_set k v m)"
  by (induction m) auto

lemma map_get_map: "map_get (map (apsnd f) m) k = map_option f (map_get m k)"
  by (induction m) (auto simp: map_get_def)

lemma source_add_erase:
  "source_add (map (apsnd (map erase_link)) m) (erase_link l) = map (apsnd (map erase_link)) (source_add m l)"
proof -
  have "(case map_get (map (apsnd (map erase_link)) m) k of None \<Rightarrow> [] | Some xs \<Rightarrow> xs) @ [erase_link l] =
      map erase_link ((case map_get m k of None \<Rightarrow> [] | Some xs \<Rightarrow> xs) @ [l])" for k
    by (simp add: map_get_map split: option.split)
  then show ?thesis unfolding source_add_def by (simp only: erase_link_fields map_set_map)
qed

lemma sources_erase:
  "foldl source_add (map (apsnd (map erase_link)) m) (map erase_link ls) = map (apsnd (map erase_link)) (foldl source_add m ls)"
  by (induction ls arbitrary: m) (simp_all add: source_add_erase)

lemma assign_groups_erase:
  "foldl (assign_group h) (map erase_link ls) (map (map erase_link) grps) = map erase_link (foldl (assign_group h) ls grps)"
  by (induction grps arbitrary: ls) (simp_all add: assign_group_erase)

lemma assign_erase: "assignLinkDisplayColors h (map erase_link ls) = map erase_link (assignLinkDisplayColors h ls)"
proof -
  have "map_values (foldl source_add [] (map erase_link ls)) = map (map erase_link) (map_values (foldl source_add [] ls))"
    using sources_erase [of "[]" ls] by simp
  then show ?thesis by (simp only: assign_source_add assign_groups_erase)
qed

lemma mask_erase:
  "map erase_node (map_values (fst (masked_graph options ns ls))) = map erase_node (map_values ns)"
  "map erase_link (map_values (snd (masked_graph options ns ls))) = map erase_link (map_values ls)"
  by (auto simp: masked_graph_def maskFlowGraphLabels_def Let_def erase_node_def erase_link_def)

lemma marked_erase:
  "map erase_node (map_values (fst (marked_graph metric c P stages options))) =
     map (set_node_marks (buildFlowHighlightSets P (activeNode options) (activeLink options) stages))
       (map erase_node (map_values (raw_nodes metric c P)))"
  "map erase_link (map_values (snd (marked_graph metric c P stages options))) =
     map (set_link_marks (buildFlowHighlightSets P (activeNode options) (activeLink options) stages))
       (map erase_link (map_values (raw_links metric c P)))"
proof -
  let ?g' = "masked_graph options (raw_nodes metric c P) (raw_links metric c P)"
  let ?hs = "buildFlowHighlightSets P (activeNode options) (activeLink options) stages"
  have "map erase_node (map (set_node_marks ?hs) xs) = map (set_node_marks ?hs) (map erase_node xs)" for xs
    by (simp add: erase_node_marks)
  then show "map erase_node (map_values (fst (marked_graph metric c P stages options))) =
      map (set_node_marks ?hs) (map erase_node (map_values (raw_nodes metric c P)))"
    unfolding marked_graph_def Let_def highlight_values by (simp only: mask_erase)
  have "map erase_link (map (set_link_marks ?hs) xs) = map (set_link_marks ?hs) (map erase_link xs)" for xs
    by simp
  then show "map erase_link (map_values (snd (marked_graph metric c P stages options))) =
      map (set_link_marks ?hs) (map erase_link (map_values (raw_links metric c P)))"
    unfolding marked_graph_def Let_def highlight_values by (simp only: mask_erase)
qed

lemma first_step_total_erase: "first_step_total P (map erase_link ls) = first_step_total P ls"
  by (simp add: first_step_total_def foldl_sum Let_def filter_map comp_def)

text \<open>
  C27: masking changes labels and nothing else. The masked and the unmasked graph have the same links in the same
  order and the same nodes, with the same totals, colours, shares and highlights, once labels are
  left out of account. (Only the order of nodes of equal value may differ, since it is by label.)
\<close>

theorem masking_changes_only_labels:
  fixes options :: FlowGraphOptions
  assumes g: "g = buildFlowGraph h rows metric r palette visible ctx options"
    and u: "u = buildFlowGraph h rows metric r palette visible ctx (options\<lparr>maskSensitive := False\<rparr>)"
  shows "map (\<lambda>l. l\<lparr>l_sourceLabel := [], l_targetLabel := []\<rparr>) (links g) =
      map (\<lambda>l. l\<lparr>l_sourceLabel := [], l_targetLabel := []\<rparr>) (links u) \<and>
    mset (map (\<lambda>n. n\<lparr>n_label := []\<rparr>) (nodes g)) = mset (map (\<lambda>n. n\<lparr>n_label := []\<rparr>) (nodes u))"
proof -
  let ?u = "options\<lparr>maskSensitive := False\<rparr>" and ?st = "resolveVisibleStages r visible"
  define P where P: "P = graph_paths h rows metric r visible ctx options"
  have P': "P = graph_paths h rows metric r visible ctx ?u" by (simp add: P flow_prepared_def)
  let ?c = "graph_colors h P palette"
  let ?m = "marked_graph metric ?c P ?st options" and ?m' = "marked_graph metric ?c P ?st ?u"
  note eq = graph_eq [OF P refl g refl refl] and eq' = graph_eq [OF P' refl u refl refl]
  have n: "map erase_node (map_values (fst ?m)) = map erase_node (map_values (fst ?m'))"
    unfolding marked_erase by simp
  have l: "map erase_link (map_values (snd ?m)) = map erase_link (map_values (snd ?m'))"
    unfolding marked_erase by simp
  have sort: "map erase_link (js_sort (link_order h) xs) = js_sort (link_order h) (map erase_link xs)" for xs
    by (rule js_sort_map [symmetric]) (simp add: link_order_def)
  have final: "map erase_link (assignLinkDisplayColors h (map (set_share (first_step_total P ls)) ls)) =
      assignLinkDisplayColors h (map (set_share (first_step_total P (map erase_link ls))) (map erase_link ls))" for ls
    by (simp only: first_step_total_erase assign_erase [symmetric] map_map comp_def erase_link_fields)
  have "map erase_link (links g) = map erase_link (links u)"
    unfolding eq(2) eq'(2) final sort l ..
  moreover have "mset (map erase_node (nodes g)) = mset (map erase_node (nodes u))"
    unfolding eq(1) eq'(1) mset_map_sort n ..
  ultimately show ?thesis unfolding erase_link_def [abs_def] erase_node_def [abs_def] by (rule conjI)
qed

theorem masking_changes_only_labels_witness:
  "map (\<lambda>l. l\<lparr>l_sourceLabel := [], l_targetLabel := []\<rparr>) (links example_graph) =
   map (\<lambda>l. l\<lparr>l_sourceLabel := [], l_targetLabel := []\<rparr>) (links (buildFlowGraph example_host example_rows
     M_quota R_user None None None (example_options\<lparr>maskSensitive := False\<rparr>)))"
  by (rule conjunct1 [OF masking_changes_only_labels [OF refl refl]])

end
