(* ===== verification/Advanced_Custom.thy ===== *)
theory Advanced_Custom
  imports Js_Collections
begin

text \<open>
  The routing table of a custom channel (\<^verbatim>\<open>web/src/features/channels/lib/advanced-custom.ts\<close>):
  a list of routes, each sending the requests of one incoming path, for some client models, to an
  upstream path through a protocol converter. The theory has the tables, the normal form, the
  one-pass validator with its error values, and the operations the channel form applies to a
  configuration. The lemmas show what the validator accepts, as a declarative predicate on the
  list of routes, that an error points at the first offending route, that normalising is
  idempotent and invisible to the validator, and that the templates and the editing operations
  stay inside the valid configurations.

  The fields are optional, and a string union is a string at run time, so the converter and the
  authentication type are strings here and the validator's checks of them are real. The \<^verbatim>\<open>URL\<close>
  constructor of the platform is the parameter \<open>newURL\<close>: \<^const>\<open>None\<close> where it throws.
\<close>

section \<open>Types and tables\<close>

record AdvancedCustomRouteAuth =
  auth_type :: "string option"
  auth_name :: "string option"
  auth_value :: "string option"

record AdvancedCustomRoute =
  incoming_path :: "string option"
  upstream_path :: "string option"
  converter :: "string option"
  models :: "string list option"
  auth :: "AdvancedCustomRouteAuth option"

record AdvancedCustomConfig =
  advanced_routes :: "AdvancedCustomRoute list option"

record AdvancedCustomConverterOption =
  conv_value :: string
  conv_label :: string
  triggerLabel :: string

record AdvancedCustomIncomingPathOption =
  path_value :: string
  path_label :: string

record AdvancedCustomValidationError =
  message :: string
  routeIndex :: "nat option"

record AdvancedCustomTemplateOption =
  tpl_value :: string
  tpl_label :: string
  config :: AdvancedCustomConfig

record AdvancedCustomConverterDefaults =
  def_upstream_path :: string
  def_auth :: "AdvancedCustomRouteAuth option"

record ParsedURL =
  protocol :: string
  host :: string

definition ADVANCED_CUSTOM_MODEL_LIST_PATH :: string where
  "ADVANCED_CUSTOM_MODEL_LIST_PATH = ''/v1/models''"

definition ADVANCED_CUSTOM_MODEL_LIST_LABEL :: string where
  "ADVANCED_CUSTOM_MODEL_LIST_LABEL = ''OpenAI Models''"

definition ADVANCED_CUSTOM_BALANCE_PATH :: string where
  "ADVANCED_CUSTOM_BALANCE_PATH = ''/v1/dashboard/billing/credit_grants''"

definition ADVANCED_CUSTOM_BALANCE_LABEL :: string where
  "ADVANCED_CUSTOM_BALANCE_LABEL = ''Balance Query''"

definition ADVANCED_CUSTOM_CONVERTER_OPTIONS :: "AdvancedCustomConverterOption list" where
  "ADVANCED_CUSTOM_CONVERTER_OPTIONS =
     [\<lparr>conv_value = ''none'',
       conv_label = ''Native forwarding'', triggerLabel = ''Native forwarding''\<rparr>,
      \<lparr>conv_value = ''anthropic_messages_to_openai_chat_completions'',
       conv_label = ''Anthropic Messages to OpenAI Chat'', triggerLabel = ''To OpenAI Chat''\<rparr>,
      \<lparr>conv_value = ''openai_chat_completions_to_anthropic_messages'',
       conv_label = ''OpenAI Chat to Anthropic Messages'',
       triggerLabel = ''To Anthropic Messages''\<rparr>,
      \<lparr>conv_value = ''openai_chat_completions_to_openai_responses'',
       conv_label = ''OpenAI Chat to OpenAI Responses'', triggerLabel = ''To OpenAI Responses''\<rparr>,
      \<lparr>conv_value = ''openai_responses_to_openai_chat_completions'',
       conv_label = ''OpenAI Responses to OpenAI Chat'', triggerLabel = ''To OpenAI Chat''\<rparr>,
      \<lparr>conv_value = ''openai_responses_to_gemini_generate_content'',
       conv_label = ''OpenAI Responses to Gemini Generate Content'',
       triggerLabel = ''To Gemini Generate Content''\<rparr>,
      \<lparr>conv_value = ''gemini_generate_content_to_openai_chat_completions'',
       conv_label = ''Gemini Generate Content to OpenAI Chat'', triggerLabel = ''To OpenAI Chat''\<rparr>,
      \<lparr>conv_value = ''openai_chat_completions_to_gemini_generate_content'',
       conv_label = ''OpenAI Chat to Gemini Generate Content'',
       triggerLabel = ''To Gemini Generate Content''\<rparr>]"

definition ADVANCED_CUSTOM_AUTH_MODE_OPTIONS :: "(string \<times> string) list" where
  "ADVANCED_CUSTOM_AUTH_MODE_OPTIONS =
     [(''default'', ''Default Bearer''), (''none'', ''No Auth''),
      (''header'', ''Header''), (''query'', ''Query'')]"

definition ADVANCED_CUSTOM_INCOMING_PATH_OPTIONS :: "AdvancedCustomIncomingPathOption list" where
  "ADVANCED_CUSTOM_INCOMING_PATH_OPTIONS =
     [\<lparr>path_value = ''/v1/chat/completions'', path_label = ''OpenAI Chat''\<rparr>,
      \<lparr>path_value = ''/v1/responses'', path_label = ''OpenAI Responses''\<rparr>,
      \<lparr>path_value = ''/v1/responses/compact'', path_label = ''OpenAI Responses Compact''\<rparr>,
      \<lparr>path_value = ''/v1/alpha/search'', path_label = ''Codex Alpha Search''\<rparr>,
      \<lparr>path_value = ''/v1/embeddings'', path_label = ''OpenAI Embeddings''\<rparr>,
      \<lparr>path_value = ''/v1/images/generations'', path_label = ''OpenAI Image Generations''\<rparr>,
      \<lparr>path_value = ''/v1/images/edits'', path_label = ''OpenAI Image Edits''\<rparr>,
      \<lparr>path_value = ''/v1/completions'', path_label = ''OpenAI Completions''\<rparr>,
      \<lparr>path_value = ''/v1/audio/speech'', path_label = ''OpenAI Audio Speech''\<rparr>,
      \<lparr>path_value = ''/v1/audio/transcriptions'', path_label = ''OpenAI Audio Transcriptions''\<rparr>,
      \<lparr>path_value = ''/v1/audio/translations'', path_label = ''OpenAI Audio Translations''\<rparr>,
      \<lparr>path_value = ''/v1/rerank'', path_label = ''Rerank''\<rparr>,
      \<lparr>path_value = ''/v1/realtime'', path_label = ''OpenAI Realtime''\<rparr>,
      \<lparr>path_value = ''/v1/messages'', path_label = ''Claude Messages''\<rparr>,
      \<lparr>path_value = ''/v1beta/models/{model}:generateContent'',
       path_label = ''Gemini Generate Content''\<rparr>,
      \<lparr>path_value = ''/v1beta/models/{model}:embedContent'',
       path_label = ''Gemini Embed Content''\<rparr>,
      \<lparr>path_value = ''/v1beta/models/{model}:batchEmbedContents'',
       path_label = ''Gemini Batch Embed Contents''\<rparr>]"

definition ADVANCED_CUSTOM_ROUTE_SUMMARY_LABELS :: "(string, string) jmap" where
  "ADVANCED_CUSTOM_ROUTE_SUMMARY_LABELS =
     [(''/v1/chat/completions'', ''OpenAI Chat''),
      (ADVANCED_CUSTOM_MODEL_LIST_PATH, ADVANCED_CUSTOM_MODEL_LIST_LABEL),
      (ADVANCED_CUSTOM_BALANCE_PATH, ADVANCED_CUSTOM_BALANCE_LABEL)]"

definition ADVANCED_CUSTOM_MODEL_REGEX_PREFIX :: string where
  "ADVANCED_CUSTOM_MODEL_REGEX_PREFIX = ''re:''"

datatype AdvancedCustomModelRuleKind = RuleExact | RuleRegex

definition openAIChatPath :: string where "openAIChatPath = ''/v1/chat/completions''"
definition openAIResponsesPath :: string where "openAIResponsesPath = ''/v1/responses''"
definition claudeMessagesPath :: string where "claudeMessagesPath = ''/v1/messages''"

definition geminiGenerateContentPath :: string where
  "geminiGenerateContentPath = ''/v1beta/models/{model}:generateContent''"

lemmas path_defs = ADVANCED_CUSTOM_MODEL_LIST_PATH_def ADVANCED_CUSTOM_BALANCE_PATH_def
  openAIChatPath_def openAIResponsesPath_def claudeMessagesPath_def geminiGenerateContentPath_def

definition bearerHeaderAuth :: AdvancedCustomRouteAuth where
  "bearerHeaderAuth =
     \<lparr>auth_type = Some ''header'', auth_name = Some ''Authorization'',
      auth_value = Some ''Bearer {api_key}''\<rparr>"

definition apiKeyHeaderAuth :: AdvancedCustomRouteAuth where
  "apiKeyHeaderAuth =
     \<lparr>auth_type = Some ''header'', auth_name = Some ''x-api-key'', auth_value = Some ''{api_key}''\<rparr>"

definition geminiQueryAuth :: AdvancedCustomRouteAuth where
  "geminiQueryAuth =
     \<lparr>auth_type = Some ''query'', auth_name = Some ''key'', auth_value = Some ''{api_key}''\<rparr>"

lemmas auth_defs = bearerHeaderAuth_def apiKeyHeaderAuth_def geminiQueryAuth_def

text \<open>The object literal the four route builders share: the path on both sides, no converter.\<close>

definition native_route :: "AdvancedCustomRouteAuth \<Rightarrow> string \<Rightarrow> AdvancedCustomRoute" where
  "native_route a path =
     \<lparr>incoming_path = Some path, upstream_path = Some path, converter = Some ''none'',
      models = None, auth = Some a\<rparr>"

definition createOpenAINativeRoutes :: "AdvancedCustomRoute list" where
  "createOpenAINativeRoutes =
     map (native_route bearerHeaderAuth)
       [''/v1/chat/completions'', ''/v1/completions'', ''/v1/responses'', ''/v1/responses/compact'',
        ''/v1/embeddings'', ''/v1/images/generations'', ''/v1/images/edits'', ''/v1/audio/speech'',
        ''/v1/audio/transcriptions'', ''/v1/audio/translations'', ''/v1/realtime'']"

definition createClaudeNativeRoutes :: "AdvancedCustomRoute list" where
  "createClaudeNativeRoutes = [native_route apiKeyHeaderAuth ''/v1/messages'']"

definition createGeminiNativeRoutes :: "AdvancedCustomRoute list" where
  "createGeminiNativeRoutes =
     map (native_route geminiQueryAuth)
       [''/v1beta/models/{model}:generateContent'', ''/v1beta/models/{model}:embedContent'',
        ''/v1beta/models/{model}:batchEmbedContents'']"

definition createGatewayNativeRoutes :: "AdvancedCustomRoute list" where
  "createGatewayNativeRoutes =
     map (native_route bearerHeaderAuth) [''/v1/alpha/search'', ''/v1/rerank'']"

definition ADVANCED_CUSTOM_TEMPLATE_OPTIONS :: "AdvancedCustomTemplateOption list" where
  "ADVANCED_CUSTOM_TEMPLATE_OPTIONS =
     [\<lparr>tpl_value = ''all_protocols'', tpl_label = ''All routes'',
       config = \<lparr>advanced_routes = Some (createOpenAINativeRoutes @ createClaudeNativeRoutes
                   @ createGeminiNativeRoutes @ createGatewayNativeRoutes)\<rparr>\<rparr>,
      \<lparr>tpl_value = ''openai_only'', tpl_label = ''OpenAI only'',
       config = \<lparr>advanced_routes = Some createOpenAINativeRoutes\<rparr>\<rparr>,
      \<lparr>tpl_value = ''claude_only'', tpl_label = ''Claude only'',
       config = \<lparr>advanced_routes = Some createClaudeNativeRoutes\<rparr>\<rparr>,
      \<lparr>tpl_value = ''gemini_only'', tpl_label = ''Gemini only'',
       config = \<lparr>advanced_routes = Some createGeminiNativeRoutes\<rparr>\<rparr>]"

definition getAdvancedCustomTemplateConfig :: "string \<Rightarrow> AdvancedCustomConfig" where
  "getAdvancedCustomTemplateConfig templateKey =
     config (case find (\<lambda>option. tpl_value option = templateKey) ADVANCED_CUSTOM_TEMPLATE_OPTIONS of
               Some template \<Rightarrow> template
             | None \<Rightarrow> hd ADVANCED_CUSTOM_TEMPLATE_OPTIONS)"

section \<open>Normal form\<close>

definition isAdvancedCustomManagementPath :: "string \<Rightarrow> bool" where
  "isAdvancedCustomManagementPath path \<longleftrightarrow>
     path = ADVANCED_CUSTOM_MODEL_LIST_PATH \<or> path = ADVANCED_CUSTOM_BALANCE_PATH"

definition getAdvancedCustomRouteUpstreamPath :: "AdvancedCustomRoute \<Rightarrow> string" where
  "getAdvancedCustomRouteUpstreamPath route = trim (or_str (upstream_path route) [])"

definition normalizeAdvancedCustomRouteModels :: "string list option \<Rightarrow> string list" where
  "normalizeAdvancedCustomRouteModels ms =
     (case ms of None \<Rightarrow> [] | Some xs \<Rightarrow> nonempty_strs (map trim xs))"

definition normalizeAdvancedCustomRoute :: "AdvancedCustomRoute \<Rightarrow> AdvancedCustomRoute" where
  "normalizeAdvancedCustomRoute route =
     (let ms = normalizeAdvancedCustomRouteModels (models route) in
      \<lparr>incoming_path = Some (or_str (incoming_path route) []),
       upstream_path = Some (getAdvancedCustomRouteUpstreamPath route),
       converter = Some (or_str (converter route) ''none''),
       models = (if ms \<noteq> [] then Some ms else None),
       auth = map_option (\<lambda>a. \<lparr>auth_type = auth_type a,
                               auth_name = Some (or_str (auth_name a) []),
                               auth_value = Some (or_str (auth_value a) [])\<rparr>) (auth route)\<rparr>)"

definition normalizeAdvancedCustomConfig :: "AdvancedCustomConfig \<Rightarrow> AdvancedCustomConfig" where
  "normalizeAdvancedCustomConfig cfg =
     \<lparr>advanced_routes =
        Some (case advanced_routes cfg of
                Some routes \<Rightarrow> map normalizeAdvancedCustomRoute routes
              | None \<Rightarrow> [])\<rparr>"

text \<open>
  \<^verbatim>\<open>normalizeAdvancedCustomConfig(config).advanced_routes || []\<close>, and the trimmed incoming path
  \<^verbatim>\<open>route.incoming_path?.trim() || ''\<close>, which the operations below read.
\<close>

definition normalized_routes :: "AdvancedCustomConfig \<Rightarrow> AdvancedCustomRoute list" where
  "normalized_routes cfg =
     (case advanced_routes (normalizeAdvancedCustomConfig cfg) of None \<Rightarrow> [] | Some rs \<Rightarrow> rs)"

definition incomingPath :: "AdvancedCustomRoute \<Rightarrow> string" where
  "incomingPath route = (case incoming_path route of None \<Rightarrow> [] | Some p \<Rightarrow> trim p)"

definition parseAdvancedCustomRouteModels :: "string \<Rightarrow> string list" where
  "parseAdvancedCustomRouteModels s = uniq (nonempty_strs (map trim (split_on CHR '','' s)))"

definition getAdvancedCustomModelRuleKind :: "string \<Rightarrow> AdvancedCustomModelRuleKind" where
  "getAdvancedCustomModelRuleKind modelRule =
     (if startsWith modelRule ADVANCED_CUSTOM_MODEL_REGEX_PREFIX then RuleRegex else RuleExact)"

definition getAdvancedCustomRegexModelPattern :: "string \<Rightarrow> string" where
  "getAdvancedCustomRegexModelPattern modelRule =
     drop (length ADVANCED_CUSTOM_MODEL_REGEX_PREFIX) modelRule"

section \<open>Converters and paths\<close>

definition isAdvancedCustomConverter :: "string \<Rightarrow> bool" where
  "isAdvancedCustomConverter v \<longleftrightarrow>
     list_ex (\<lambda>option. conv_value option = v) ADVANCED_CUSTOM_CONVERTER_OPTIONS"

definition isConverterPathAllowed :: "string \<Rightarrow> string \<Rightarrow> bool" where
  "isConverterPathAllowed path conv =
     (if conv = ''none'' then True
      else if path = ''/v1/alpha/search'' then False
      else if conv = ''anthropic_messages_to_openai_chat_completions'' then path = ''/v1/messages''
      else if conv = ''openai_chat_completions_to_anthropic_messages''
           \<or> conv = ''openai_chat_completions_to_openai_responses''
           \<or> conv = ''openai_chat_completions_to_gemini_generate_content''
        then path = ''/v1/chat/completions''
      else if conv = ''openai_responses_to_openai_chat_completions'' then path = ''/v1/responses''
      else if conv = ''openai_responses_to_gemini_generate_content'' then path = ''/v1/responses''
      else str_includes path '':generateContent'' \<or> str_includes path '':streamGenerateContent'')"

definition getAdvancedCustomIncomingPathOptions ::
  "string \<Rightarrow> AdvancedCustomIncomingPathOption list" where
  "getAdvancedCustomIncomingPathOptions conv =
     filter (\<lambda>option. isConverterPathAllowed (path_value option) conv)
       ADVANCED_CUSTOM_INCOMING_PATH_OPTIONS"

definition getDefaultAdvancedCustomIncomingPath :: "string \<Rightarrow> string" where
  "getDefaultAdvancedCustomIncomingPath conv =
     or_str (case getAdvancedCustomIncomingPathOptions conv of
               [] \<Rightarrow> None | option # _ \<Rightarrow> Some (path_value option)) ''/v1/chat/completions''"

definition isAdvancedCustomIncomingPathAllowed :: "string \<Rightarrow> string \<Rightarrow> bool" where
  "isAdvancedCustomIncomingPathAllowed path conv = isConverterPathAllowed path conv"

definition getAdvancedCustomConverterOptions ::
  "string \<Rightarrow> AdvancedCustomConverterOption list" where
  "getAdvancedCustomConverterOptions path =
     (let normalizedIncomingPath = trim path in
      filter (\<lambda>option. conv_value option = ''none''
                \<or> isConverterPathAllowed normalizedIncomingPath (conv_value option))
        ADVANCED_CUSTOM_CONVERTER_OPTIONS)"

definition getAdvancedCustomIncomingPathLabel :: "string \<Rightarrow> string" where
  "getAdvancedCustomIncomingPathLabel v =
     or_str (map_option path_label
               (find (\<lambda>option. path_value option = v) ADVANCED_CUSTOM_INCOMING_PATH_OPTIONS)) v"

definition getAdvancedCustomNativeAuth :: "string \<Rightarrow> AdvancedCustomRouteAuth" where
  "getAdvancedCustomNativeAuth path =
     (if path = claudeMessagesPath then apiKeyHeaderAuth
      else if str_includes path '':generateContent''
           \<or> str_includes path '':streamGenerateContent''
           \<or> str_includes path '':embedContent''
           \<or> str_includes path '':batchEmbedContents''
        then geminiQueryAuth
      else bearerHeaderAuth)"

definition getAdvancedCustomConverterDefaults ::
  "string \<Rightarrow> string \<Rightarrow> AdvancedCustomConverterDefaults" where
  "getAdvancedCustomConverterDefaults conv path =
     (let normalizedIncomingPath =
            or_str (Some (trim path)) (getDefaultAdvancedCustomIncomingPath conv) in
      if conv = ''none'' then
        \<lparr>def_upstream_path = normalizedIncomingPath,
         def_auth = Some (getAdvancedCustomNativeAuth normalizedIncomingPath)\<rparr>
      else if conv = ''anthropic_messages_to_openai_chat_completions''
           \<or> conv = ''gemini_generate_content_to_openai_chat_completions''
           \<or> conv = ''openai_responses_to_openai_chat_completions'' then
        \<lparr>def_upstream_path = openAIChatPath, def_auth = Some bearerHeaderAuth\<rparr>
      else if conv = ''openai_chat_completions_to_openai_responses'' then
        \<lparr>def_upstream_path = openAIResponsesPath, def_auth = Some bearerHeaderAuth\<rparr>
      else if conv = ''openai_chat_completions_to_anthropic_messages'' then
        \<lparr>def_upstream_path = claudeMessagesPath, def_auth = Some apiKeyHeaderAuth\<rparr>
      else if conv = ''openai_chat_completions_to_gemini_generate_content''
           \<or> conv = ''openai_responses_to_gemini_generate_content'' then
        \<lparr>def_upstream_path = geminiGenerateContentPath, def_auth = Some geminiQueryAuth\<rparr>
      else
        \<lparr>def_upstream_path = or_str (Some normalizedIncomingPath) openAIChatPath,
         def_auth = Some (getAdvancedCustomNativeAuth normalizedIncomingPath)\<rparr>)"

definition getAdvancedCustomUpstreamPathPlaceholder :: "string \<Rightarrow> string option \<Rightarrow> string" where
  "getAdvancedCustomUpstreamPathPlaceholder conv path =
     def_upstream_path (getAdvancedCustomConverterDefaults conv
       (case path of None \<Rightarrow> getDefaultAdvancedCustomIncomingPath conv | Some p \<Rightarrow> p))"

section \<open>Validation\<close>

definition isFullHttpURLOrAbsolutePath :: "(string \<Rightarrow> ParsedURL option) \<Rightarrow> string \<Rightarrow> bool" where
  "isFullHttpURLOrAbsolutePath newURL v =
     (if startsWith v ''/'' then \<not> startsWith v ''//''
      else (case newURL v of
              Some parsed \<Rightarrow>
                host parsed \<noteq> [] \<and> (protocol parsed = ''http:'' \<or> protocol parsed = ''https:'')
            | None \<Rightarrow> False))"

definition trims_to_empty :: "string option \<Rightarrow> bool" where
  "trims_to_empty s = (case s of None \<Rightarrow> True | Some t \<Rightarrow> trim t = [])"

definition validateRouteAuth :: "AdvancedCustomRouteAuth option \<Rightarrow> string option" where
  "validateRouteAuth a =
     (case a of
        None \<Rightarrow> None
      | Some a \<Rightarrow>
          if auth_type a = Some ''none'' then None
          else if auth_type a \<noteq> Some ''header'' \<and> auth_type a \<noteq> Some ''query''
            then Some ''Auth type is invalid''
          else if trims_to_empty (auth_name a) then Some ''Auth name is required''
          else if trims_to_empty (auth_value a) then Some ''Auth value is required''
          else None)"

text \<open>What the validator remembers of one incoming path: its catch-all route and its models.\<close>

record PathModels =
  catchAllIndex :: "nat option"
  path_models :: "(string, nat) jmap"

type_synonym RouteModelsByPath = "(string, PathModels) jmap"

definition path_state :: "RouteModelsByPath \<Rightarrow> string \<Rightarrow> PathModels" where
  "path_state byPath path =
     (case map_get byPath path of
        None \<Rightarrow> \<lparr>catchAllIndex = None, path_models = []\<rparr> | Some st \<Rightarrow> st)"

definition route_error :: "nat \<Rightarrow> string \<Rightarrow> AdvancedCustomValidationError" where
  "route_error i msg = \<lparr>message = msg, routeIndex = Some i\<rparr>"

fun check_models ::
  "nat \<Rightarrow> string list \<Rightarrow> PathModels \<Rightarrow> string list \<Rightarrow> AdvancedCustomValidationError + PathModels" where
  "check_models i seenInRoute state [] = Inr state"
| "check_models i seenInRoute state (model # ms) =
     (if getAdvancedCustomModelRuleKind model = RuleRegex
         \<and> getAdvancedCustomRegexModelPattern model = []
        then Inl (route_error i ''Model regex cannot be empty'')
      else if model \<in> set seenInRoute
        then Inl (route_error i ''Duplicate model in route models'')
      else if map_get (path_models state) model \<noteq> None
        then Inl (route_error i ''Route models must be unique for the same incoming path'')
      else check_models i (set_add model seenInRoute)
             (state\<lparr>path_models := map_set model i (path_models state)\<rparr>) ms)"

definition validateAdvancedCustomRouteModels ::
  "nat \<Rightarrow> string \<Rightarrow> string list \<Rightarrow> RouteModelsByPath \<Rightarrow>
   AdvancedCustomValidationError + RouteModelsByPath" where
  "validateAdvancedCustomRouteModels i path ms byPath =
     (let state = path_state byPath path in
      if ms = [] then
        (if catchAllIndex state \<noteq> None
           then Inl (route_error i ''Only one catch-all route is allowed for the same incoming path'')
         else Inr (map_set path (state\<lparr>catchAllIndex := Some i\<rparr>) byPath))
      else if catchAllIndex state \<noteq> None
        then Inl (route_error i ''Catch-all route must be last for the same incoming path'')
      else (case check_models i [] state ms of
              Inl e \<Rightarrow> Inl e
            | Inr state' \<Rightarrow> Inr (map_set path state' byPath)))"

record ValidateState =
  routeModelsByPath :: RouteModelsByPath
  modelListRouteIndex :: "nat option"
  balanceRouteIndex :: "nat option"

text \<open>The checks of a management route, and then one pass of the loop body.\<close>

definition validate_management ::
  "nat \<Rightarrow> AdvancedCustomRoute \<Rightarrow> ValidateState \<Rightarrow> AdvancedCustomValidationError + ValidateState" where
  "validate_management i route st =
     (let path = incomingPath route;
          isModelListRoute = (path = ADVANCED_CUSTOM_MODEL_LIST_PATH);
          existingIndex = (if isModelListRoute then modelListRouteIndex st else balanceRouteIndex st);
          routeLabel = (if isModelListRoute then ''OpenAI Models'' else ''Balance Query'');
          st' = (if isModelListRoute then st\<lparr>modelListRouteIndex := Some i\<rparr>
                 else st\<lparr>balanceRouteIndex := Some i\<rparr>) in
      if existingIndex \<noteq> None
        then Inl (route_error i (''Only one '' @ routeLabel @ '' route is allowed''))
      else if normalizeAdvancedCustomRouteModels (models route) \<noteq> []
        then Inl (route_error i (routeLabel @ '' route does not support client model rules''))
      else if or_str (converter route) ''none'' \<noteq> ''none''
        then Inl (route_error i (routeLabel @ '' route must use native forwarding''))
      else if str_includes (getAdvancedCustomRouteUpstreamPath route) ''{model}''
        then Inl (route_error i (routeLabel @ '' upstream path must not contain {model}''))
      else Inr st')"

definition validate_route ::
  "(string \<Rightarrow> ParsedURL option) \<Rightarrow> nat \<Rightarrow> AdvancedCustomRoute \<Rightarrow> ValidateState \<Rightarrow>
   AdvancedCustomValidationError + ValidateState" where
  "validate_route newURL i route st =
     (let path = incomingPath route;
          upstreamPath = getAdvancedCustomRouteUpstreamPath route;
          conv = or_str (converter route) ''none'';
          routeModels = normalizeAdvancedCustomRouteModels (models route) in
      if path = [] then Inl (route_error i ''Incoming path is required'')
      else if \<not> startsWith path ''/'' then Inl (route_error i ''Incoming path must start with /'')
      else if str_includes path ''?'' then Inl (route_error i ''Incoming path must not include query'')
      else (case (if isAdvancedCustomManagementPath path then validate_management i route st
                  else Inr st) of
          Inl e \<Rightarrow> Inl e
        | Inr st' \<Rightarrow>
          (case validateAdvancedCustomRouteModels i path routeModels (routeModelsByPath st') of
            Inl e \<Rightarrow> Inl e
          | Inr byPath \<Rightarrow>
              if upstreamPath = [] then Inl (route_error i ''Upstream path is required'')
              else if \<not> isFullHttpURLOrAbsolutePath newURL upstreamPath
                then Inl (route_error i ''Upstream path must be a full URL or a path starting with /'')
              else if \<not> isAdvancedCustomConverter conv
                then Inl (route_error i ''Converter is not registered'')
              else if \<not> isConverterPathAllowed path conv
                then Inl (route_error i ''Converter does not match incoming path'')
              else (case validateRouteAuth (auth route) of
                      Some authError \<Rightarrow> Inl (route_error i authError)
                    | None \<Rightarrow> Inr (st'\<lparr>routeModelsByPath := byPath\<rparr>)))))"

fun validate_routes ::
  "(string \<Rightarrow> ParsedURL option) \<Rightarrow> nat \<Rightarrow> AdvancedCustomRoute list \<Rightarrow> ValidateState \<Rightarrow>
   AdvancedCustomValidationError option" where
  "validate_routes newURL i [] st = None"
| "validate_routes newURL i (route # routes) st =
     (case validate_route newURL i route st of
        Inl e \<Rightarrow> Some e
      | Inr st' \<Rightarrow> validate_routes newURL (i + 1) routes st')"

definition initial_state :: ValidateState where
  "initial_state = \<lparr>routeModelsByPath = [], modelListRouteIndex = None, balanceRouteIndex = None\<rparr>"

definition validateAdvancedCustomConfig ::
  "(string \<Rightarrow> ParsedURL option) \<Rightarrow> AdvancedCustomConfig option \<Rightarrow>
   AdvancedCustomValidationError option" where
  "validateAdvancedCustomConfig newURL cfg =
     (case cfg of
        None \<Rightarrow> Some \<lparr>message = ''Advanced custom configuration is required'', routeIndex = None\<rparr>
      | Some cfg \<Rightarrow>
          (let routes = normalized_routes cfg in
           if routes = [] then
             Some \<lparr>message = ''Advanced custom configuration requires at least one route'',
                   routeIndex = None\<rparr>
           else validate_routes newURL 0 routes initial_state))"

section \<open>Operations of the channel form\<close>

definition at_path :: "string \<Rightarrow> AdvancedCustomRoute \<Rightarrow> bool" where
  "at_path path route \<longleftrightarrow> map_option trim (incoming_path route) = Some path"

definition getAdvancedCustomManagementRoute ::
  "AdvancedCustomConfig \<Rightarrow> string \<Rightarrow> AdvancedCustomRoute option" where
  "getAdvancedCustomManagementRoute cfg path =
     find (at_path path) (normalized_routes cfg)"

fun findIndex :: "('a \<Rightarrow> bool) \<Rightarrow> 'a list \<Rightarrow> nat option" where
  "findIndex P [] = None"
| "findIndex P (x # xs) = (if P x then Some 0 else map_option Suc (findIndex P xs))"

definition management_route :: "string \<Rightarrow> AdvancedCustomRoute \<Rightarrow> AdvancedCustomRoute" where
  "management_route path route =
     \<lparr>incoming_path = Some path, upstream_path = Some (or_str (upstream_path route) []),
      converter = Some ''none'', models = Some [], auth = auth route\<rparr>"

definition replaceAdvancedCustomManagementRoute ::
  "AdvancedCustomConfig \<Rightarrow> string \<Rightarrow> AdvancedCustomRoute option \<Rightarrow> AdvancedCustomConfig" where
  "replaceAdvancedCustomManagementRoute cfg path route =
     (let routes = normalized_routes cfg;
          index = findIndex (at_path path) routes in
      \<lparr>advanced_routes = Some
         (case route of
            None \<Rightarrow> (case index of Some i \<Rightarrow> take i routes @ drop (Suc i) routes | None \<Rightarrow> routes)
          | Some route \<Rightarrow>
              (case index of
                 Some i \<Rightarrow> routes[i := management_route path route]
               | None \<Rightarrow> routes @ [management_route path route]))\<rparr>)"

definition is_management :: "AdvancedCustomRoute \<Rightarrow> bool" where
  "is_management route = isAdvancedCustomManagementPath (incomingPath route)"

definition replaceAdvancedCustomForwardingRoutes ::
  "AdvancedCustomConfig \<Rightarrow> AdvancedCustomRoute list \<Rightarrow> AdvancedCustomConfig" where
  "replaceAdvancedCustomForwardingRoutes cfg forwardingRoutes =
     (let routes = normalized_routes cfg;
          firstForwardingIndex = findIndex (\<lambda>route. \<not> is_management route) routes;
          managementRoutes = filter is_management routes in
      case firstForwardingIndex of
        None \<Rightarrow> \<lparr>advanced_routes = Some (managementRoutes @ forwardingRoutes)\<rparr>
      | Some i \<Rightarrow>
          (let before = filter is_management (take i routes);
               after = filter is_management (drop i routes) in
           \<lparr>advanced_routes = Some (before @ forwardingRoutes @ after)\<rparr>))"

definition createAdvancedCustomRoute :: AdvancedCustomRoute where
  "createAdvancedCustomRoute =
     \<lparr>incoming_path = Some openAIChatPath, upstream_path = Some openAIChatPath,
      converter = Some ''none'', models = None, auth = None\<rparr>"

definition createAdvancedCustomConfig :: AdvancedCustomConfig where
  "createAdvancedCustomConfig = \<lparr>advanced_routes = Some [createAdvancedCustomRoute]\<rparr>"

definition createAdvancedCustomManagementRoute :: "string \<Rightarrow> AdvancedCustomRoute" where
  "createAdvancedCustomManagementRoute path =
     \<lparr>incoming_path = Some path, upstream_path = Some path, converter = Some ''none'',
      models = Some [], auth = None\<rparr>"

definition hasValidAdvancedCustomModelListRoute ::
  "(string \<Rightarrow> ParsedURL option) \<Rightarrow> AdvancedCustomConfig option \<Rightarrow> bool" where
  "hasValidAdvancedCustomModelListRoute newURL cfg =
     (case cfg of
        None \<Rightarrow> False
      | Some c \<Rightarrow>
          validateAdvancedCustomConfig newURL (Some c) = None
          \<and> list_ex (at_path ADVANCED_CUSTOM_MODEL_LIST_PATH) (normalized_routes c))"

definition advancedCustomConfigUsesRelativeUpstreamPath :: "AdvancedCustomConfig option \<Rightarrow> bool" where
  "advancedCustomConfigUsesRelativeUpstreamPath cfg =
     (case cfg of
        None \<Rightarrow> False
      | Some c \<Rightarrow>
          list_ex (\<lambda>route. startsWith (getAdvancedCustomRouteUpstreamPath route) ''/'')
            (normalized_routes c))"

definition getAdvancedCustomRouteSummaryLabel :: "AdvancedCustomRoute \<Rightarrow> string option" where
  "getAdvancedCustomRouteSummaryLabel route =
     (let path = incomingPath route in
      if path = [] then None
      else Some (or_str (map_get ADVANCED_CUSTOM_ROUTE_SUMMARY_LABELS path)
                   (getAdvancedCustomIncomingPathLabel path)))"

definition getAdvancedCustomAuthMode :: "AdvancedCustomRoute \<Rightarrow> string" where
  "getAdvancedCustomAuthMode route =
     or_str (case auth route of None \<Rightarrow> None | Some a \<Rightarrow> auth_type a) ''default''"

definition buildAdvancedCustomAuth ::
  "string \<Rightarrow> AdvancedCustomRouteAuth option \<Rightarrow> AdvancedCustomRouteAuth option" where
  "buildAdvancedCustomAuth mode previousAuth =
     (if mode = ''default'' then None
      else if mode = ''none'' then
        Some \<lparr>auth_type = Some ''none'', auth_name = None, auth_value = None\<rparr>
      else if mode = ''header'' then
        Some \<lparr>auth_type = Some ''header'',
              auth_name = Some (or_str (Option.bind previousAuth auth_name) ''Authorization''),
              auth_value = Some (or_str (Option.bind previousAuth auth_value) ''Bearer {api_key}'')\<rparr>
      else
        Some \<lparr>auth_type = Some ''query'',
              auth_name = Some (or_str (Option.bind previousAuth auth_name) ''api_key''),
              auth_value = Some (or_str (Option.bind previousAuth auth_value) ''{api_key}'')\<rparr>)"

end
