(* ===== verification/Advanced_Custom_Valid.thy ===== *)
theory Advanced_Custom_Valid
  imports Advanced_Custom
begin

text \<open>
  What the validator of \<^verbatim>\<open>advanced-custom.ts\<close> accepts. \<open>route_ok\<close> says what one route must
  satisfy, \<open>compatible\<close> what an earlier route must leave to a later one; the one-pass loop with its
  maps and indices is shown to accept exactly the non-empty lists of acceptable routes that are
  pairwise compatible in order.
\<close>

section \<open>The specification\<close>

abbreviation routeModels :: "AdvancedCustomRoute \<Rightarrow> string list" where
  "routeModels r \<equiv> normalizeAdvancedCustomRouteModels (models r)"

abbreviation conv_of :: "AdvancedCustomRoute \<Rightarrow> string" where
  "conv_of r \<equiv> or_str (converter r) ''none''"

definition management_ok :: "AdvancedCustomRoute \<Rightarrow> bool" where
  "management_ok r \<longleftrightarrow> routeModels r = [] \<and> conv_of r = ''none''
     \<and> \<not> str_includes (getAdvancedCustomRouteUpstreamPath r) ''{model}''"

definition route_ok :: "(string \<Rightarrow> ParsedURL option) \<Rightarrow> AdvancedCustomRoute \<Rightarrow> bool" where
  "route_ok newURL r \<longleftrightarrow>
     startsWith (incomingPath r) ''/'' \<and> CHR ''?'' \<notin> set (incomingPath r)
     \<and> (is_management r \<longrightarrow> management_ok r)
     \<and> distinct (routeModels r) \<and> ''re:'' \<notin> set (routeModels r)
     \<and> isFullHttpURLOrAbsolutePath newURL (getAdvancedCustomRouteUpstreamPath r)
     \<and> getAdvancedCustomRouteUpstreamPath r \<noteq> []
     \<and> isAdvancedCustomConverter (conv_of r)
     \<and> isConverterPathAllowed (incomingPath r) (conv_of r)
     \<and> validateRouteAuth (auth r) = None"

definition compatible :: "AdvancedCustomRoute \<Rightarrow> AdvancedCustomRoute \<Rightarrow> bool" where
  "compatible r s \<longleftrightarrow> (incomingPath r = incomingPath s \<longrightarrow>
     routeModels r \<noteq> [] \<and> set (routeModels r) \<inter> set (routeModels s) = {})"

definition valid_routes :: "(string \<Rightarrow> ParsedURL option) \<Rightarrow> AdvancedCustomRoute list \<Rightarrow> bool" where
  "valid_routes newURL rs \<longleftrightarrow> list_all (route_ok newURL) rs \<and> sorted_wrt compatible rs"

section \<open>The loop\<close>

lemma includes_char: "str_includes s [c] \<longleftrightarrow> c \<in> set s"
  by (auto simp: includes_iff in_set_conv_decomp)

lemma empty_regex_iff:
  "getAdvancedCustomModelRuleKind m = RuleRegex \<and> getAdvancedCustomRegexModelPattern m = []
   \<longleftrightarrow> m = ''re:''"
  by (auto simp: getAdvancedCustomModelRuleKind_def getAdvancedCustomRegexModelPattern_def
      ADVANCED_CUSTOM_MODEL_REGEX_PREFIX_def startsWith_iff split: if_splits)

definition add_models :: "nat \<Rightarrow> string list \<Rightarrow> PathModels \<Rightarrow> PathModels" where
  "add_models i ms st = st\<lparr>path_models := foldl (\<lambda>m x. map_set x i m) (path_models st) ms\<rparr>"

lemma add_models_Cons:
  "add_models i (m # ms) st = add_models i ms (st\<lparr>path_models := map_set m i (path_models st)\<rparr>)"
  by (simp add: add_models_def)

lemma add_models_sel [simp]:
  "catchAllIndex (add_models i ms st) = catchAllIndex st"
  "set (map_keys (path_models (add_models i ms st))) = set ms \<union> set (map_keys (path_models st))"
proof -
  show "catchAllIndex (add_models i ms st) = catchAllIndex st"
    by (simp add: add_models_def)
  have "set (map_keys (foldl (\<lambda>m x. map_set x i m) k ms)) = set ms \<union> set (map_keys k)"
    for k :: "(string, nat) jmap"
    by (induction ms arbitrary: k) (auto simp: map_keys_set simp flip: set_map)
  then show "set (map_keys (path_models (add_models i ms st))) = set ms \<union> set (map_keys (path_models st))"
    by (simp add: add_models_def)
qed

lemma check_models_Inr:
  "check_models i seen st ms = Inr st' \<longleftrightarrow>
     st' = add_models i ms st \<and> distinct ms \<and> ''re:'' \<notin> set ms
     \<and> set ms \<inter> (set seen \<union> set (map_keys (path_models st))) = {}"
proof (induction ms arbitrary: seen st)
  case Nil
  then show ?case by (auto simp: add_models_def)
next
  case (Cons m ms)
  have keys: "set (map_keys (map_set m i k)) = insert m (set (map_keys k))"
    for k :: "(string, nat) jmap"
    by (auto simp: map_keys_set simp flip: set_map)
  show ?case
    by (simp only: check_models.simps empty_regex_iff map_get_None add_models_Cons)
      (auto simp: Cons keys simp del: set_map)
qed

lemma check_models_index: "check_models i seen st ms = Inl e \<Longrightarrow> routeIndex e = Some i"
  by (induction ms arbitrary: seen st) (auto simp: route_error_def split: if_splits)

definition record_models :: "nat \<Rightarrow> string list \<Rightarrow> PathModels \<Rightarrow> PathModels" where
  "record_models i ms st =
     (if ms = [] then st\<lparr>catchAllIndex := Some i\<rparr> else add_models i ms st)"

lemma validateAdvancedCustomRouteModels_Inr:
  "validateAdvancedCustomRouteModels i p ms byPath = Inr byPath' \<longleftrightarrow>
     catchAllIndex (path_state byPath p) = None \<and> distinct ms \<and> ''re:'' \<notin> set ms
     \<and> set ms \<inter> set (map_keys (path_models (path_state byPath p))) = {}
     \<and> byPath' = map_set p (record_models i ms (path_state byPath p)) byPath"
  by (cases "ms = []")
    (auto simp: validateAdvancedCustomRouteModels_def record_models_def Let_def check_simps
      check_models_Inr)

definition marked :: "AdvancedCustomRoute \<Rightarrow> ValidateState \<Rightarrow> nat option" where
  "marked r st = (if incomingPath r = ADVANCED_CUSTOM_MODEL_LIST_PATH then modelListRouteIndex st
                  else balanceRouteIndex st)"

definition mark :: "nat \<Rightarrow> AdvancedCustomRoute \<Rightarrow> ValidateState \<Rightarrow> ValidateState" where
  "mark i r st = (if incomingPath r = ADVANCED_CUSTOM_MODEL_LIST_PATH
                  then st\<lparr>modelListRouteIndex := Some i\<rparr> else st\<lparr>balanceRouteIndex := Some i\<rparr>)"

lemma validate_management_Inr:
  "validate_management i r st = Inr st' \<longleftrightarrow>
     marked r st = None \<and> management_ok r \<and> st' = mark i r st"
  by (auto simp: validate_management_def marked_def mark_def management_ok_def Let_def)

lemma routeModelsByPath_mark [simp]: "routeModelsByPath (mark i r st) = routeModelsByPath st"
  by (simp add: mark_def)

definition advance :: "nat \<Rightarrow> AdvancedCustomRoute \<Rightarrow> ValidateState \<Rightarrow> ValidateState" where
  "advance i r st =
     (let p = incomingPath r; st' = (if is_management r then mark i r st else st) in
      st'\<lparr>routeModelsByPath :=
            map_set p (record_models i (routeModels r) (path_state (routeModelsByPath st) p))
              (routeModelsByPath st)\<rparr>)"

definition fits :: "AdvancedCustomRoute \<Rightarrow> ValidateState \<Rightarrow> bool" where
  "fits r st \<longleftrightarrow>
     (is_management r \<longrightarrow> marked r st = None)
     \<and> catchAllIndex (path_state (routeModelsByPath st) (incomingPath r)) = None
     \<and> set (routeModels r)
         \<inter> set (map_keys (path_models (path_state (routeModelsByPath st) (incomingPath r)))) = {}"

lemma startsWith_nonempty: "startsWith s (c # cs) \<Longrightarrow> s \<noteq> []"
  by auto

lemma validate_route_Inr:
  "validate_route newURL i r st = Inr st' \<longleftrightarrow>
     route_ok newURL r \<and> fits r st \<and> st' = advance i r st"
proof -
  have nonempty: "startsWith (incomingPath r) ''/'' \<Longrightarrow> incomingPath r \<noteq> []"
    by (rule startsWith_nonempty)
  show ?thesis
    unfolding validate_route_def Let_def check_simps includes_char not_not
      validateAdvancedCustomRouteModels_Inr
    using nonempty
    by (cases "is_management r")
      (auto simp: validate_management_Inr route_ok_def fits_def is_management_def advance_def Let_def)
qed

text \<open>The loop invariant: the state summarises the routes seen so far.\<close>

definition summarises :: "ValidateState \<Rightarrow> AdvancedCustomRoute list \<Rightarrow> bool" where
  "summarises st done \<longleftrightarrow>
     (\<forall>d \<in> set done. is_management d \<longrightarrow> routeModels d = [])
     \<and> (\<forall>p. catchAllIndex (path_state (routeModelsByPath st) p) \<noteq> None
             \<longleftrightarrow> (\<exists>d \<in> set done. incomingPath d = p \<and> routeModels d = []))
     \<and> (\<forall>p. set (map_keys (path_models (path_state (routeModelsByPath st) p)))
             = (\<Union>d \<in> {d \<in> set done. incomingPath d = p}. set (routeModels d)))
     \<and> (modelListRouteIndex st \<noteq> None
          \<longleftrightarrow> (\<exists>d \<in> set done. incomingPath d = ADVANCED_CUSTOM_MODEL_LIST_PATH))
     \<and> (balanceRouteIndex st \<noteq> None
          \<longleftrightarrow> (\<exists>d \<in> set done. incomingPath d = ADVANCED_CUSTOM_BALANCE_PATH))"

lemma summarises_initial: "summarises initial_state []"
  by (simp add: summarises_def initial_state_def path_state_def)

lemma path_state_set:
  "path_state (map_set p x byPath) q = (if q = p then x else path_state byPath q)"
  by (simp add: path_state_def map_get_set)

lemma record_models_sel:
  "catchAllIndex (record_models i ms st) = (if ms = [] then Some i else catchAllIndex st)"
  "set (map_keys (path_models (record_models i ms st))) = set ms \<union> set (map_keys (path_models st))"
  by (simp_all add: record_models_def del: set_map)

lemma advance_sel:
  "path_state (routeModelsByPath (advance i r st)) q =
     (if q = incomingPath r
      then record_models i (routeModels r) (path_state (routeModelsByPath st) q)
      else path_state (routeModelsByPath st) q)"
  "modelListRouteIndex (advance i r st) =
     (if incomingPath r = ADVANCED_CUSTOM_MODEL_LIST_PATH then Some i else modelListRouteIndex st)"
  "balanceRouteIndex (advance i r st) =
     (if incomingPath r = ADVANCED_CUSTOM_BALANCE_PATH then Some i else balanceRouteIndex st)"
  by (auto simp: advance_def path_state_set Let_def mark_def is_management_def
      isAdvancedCustomManagementPath_def path_defs)

lemma summarises_advance:
  assumes "summarises st done" "is_management r \<longrightarrow> routeModels r = []"
  shows "summarises (advance i r st) (done @ [r])"
proof -
  let ?by = "routeModelsByPath (advance i r st)"
  have "catchAllIndex (path_state ?by p) \<noteq> None
          \<longleftrightarrow> (\<exists>d \<in> set (done @ [r]). incomingPath d = p \<and> routeModels d = [])" for p
    using assms(1) by (auto simp: summarises_def advance_sel record_models_sel)
  moreover have "set (map_keys (path_models (path_state ?by p)))
          = (\<Union>d \<in> {d \<in> set (done @ [r]). incomingPath d = p}. set (routeModels d))" for p
  proof (cases "p = incomingPath r")
    case True
    then have "{d \<in> set (done @ [r]). incomingPath d = p} = insert r {d \<in> set done. incomingPath d = p}"
      by auto
    with True assms(1) show ?thesis
      by (simp add: summarises_def advance_sel record_models_sel del: set_map)
  next
    case False
    then have "{d \<in> set (done @ [r]). incomingPath d = p} = {d \<in> set done. incomingPath d = p}"
      by auto
    with False assms(1) show ?thesis
      by (simp add: summarises_def advance_sel del: set_map)
  qed
  ultimately show ?thesis
    using assms by (simp add: summarises_def advance_sel ball_Un del: set_map)
qed

lemma fits_iff:
  assumes "summarises st done" "is_management r \<longrightarrow> routeModels r = []"
  shows "fits r st \<longleftrightarrow> (\<forall>d \<in> set done. compatible d r)"
proof -
  let ?p = "incomingPath r"
  have catch: "catchAllIndex (path_state (routeModelsByPath st) ?p) = None
      \<longleftrightarrow> (\<forall>d \<in> set done. incomingPath d = ?p \<longrightarrow> routeModels d \<noteq> [])"
    using assms(1) unfolding summarises_def by blast
  have keys: "set (map_keys (path_models (path_state (routeModelsByPath st) ?p)))
      = (\<Union>d \<in> {d \<in> set done. incomingPath d = ?p}. set (routeModels d))"
    using assms(1) unfolding summarises_def by blast
  have "marked r st = None" if "is_management r"
    "\<forall>d \<in> set done. incomingPath d = ?p \<longrightarrow> routeModels d \<noteq> []"
    using assms(1) that
    by (auto simp: summarises_def marked_def is_management_def isAdvancedCustomManagementPath_def)
  then have "fits r st \<longleftrightarrow> (\<forall>d \<in> set done. incomingPath d = ?p \<longrightarrow> routeModels d \<noteq> [])
      \<and> set (routeModels r) \<inter> (\<Union>d \<in> {d \<in> set done. incomingPath d = ?p}. set (routeModels d)) = {}"
    unfolding fits_def keys catch by blast
  also have "\<dots> \<longleftrightarrow> (\<forall>d \<in> set done. compatible d r)"
    unfolding compatible_def by blast
  finally show ?thesis .
qed

lemma validate_routes_None:
  "summarises st done \<Longrightarrow>
   validate_routes newURL i rs st = None \<longleftrightarrow>
     valid_routes newURL rs \<and> (\<forall>d \<in> set done. \<forall>r \<in> set rs. compatible d r)"
proof (induction rs arbitrary: i st "done")
  case Nil
  then show ?case by (simp add: valid_routes_def)
next
  case (Cons r rs)
  show ?case
  proof (cases "validate_route newURL i r st")
    case (Inl e)
    then have "\<not> (route_ok newURL r \<and> fits r st)"
      by (metis Inl_Inr_False validate_route_Inr)
    then have "\<not> (route_ok newURL r \<and> (\<forall>d \<in> set done. compatible d r))"
      using fits_iff [OF Cons.prems, of r] by (auto simp: route_ok_def management_ok_def)
    with Inl show ?thesis by (auto simp: valid_routes_def)
  next
    case (Inr st')
    then have ok: "route_ok newURL r" and fit: "fits r st" and st': "st' = advance i r st"
      by (simp_all add: validate_route_Inr)
    then have mm: "is_management r \<longrightarrow> routeModels r = []"
      by (simp add: route_ok_def management_ok_def)
    have "summarises st' (done @ [r])"
      unfolding st' by (rule summarises_advance [OF Cons.prems mm])
    from Cons.IH [OF this] Inr ok fit fits_iff [OF Cons.prems mm] show ?thesis
      by (auto simp: valid_routes_def)
  qed
qed

lemma validate_routes_Some:
  "validate_routes newURL i rs st = Some e \<Longrightarrow>
   \<exists>k < length rs. routeIndex e = Some (i + k) \<and> validate_routes newURL i (take k rs) st = None
     \<and> validate_routes newURL i (take (Suc k) rs) st = Some e"
proof (induction rs arbitrary: i st)
  case (Cons r rs)
  show ?case
  proof (cases "validate_route newURL i r st")
    case (Inl e')
    then have "routeIndex e' = Some i"
      by (auto simp: validate_route_def validate_management_def validateAdvancedCustomRouteModels_def
          Let_def route_error_def check_models_index split: if_splits sum.splits option.splits)
    with Inl Cons.prems show ?thesis by (intro exI [of _ 0]) simp
  next
    case (Inr st')
    with Cons.prems have "validate_routes newURL (i + 1) rs st' = Some e" by simp
    from Cons.IH [OF this] obtain k where "k < length rs" "routeIndex e = Some (i + 1 + k)"
      "validate_routes newURL (i + 1) (take k rs) st' = None"
      "validate_routes newURL (i + 1) (take (Suc k) rs) st' = Some e" by blast
    with Inr show ?thesis by (intro exI [of _ "Suc k"]) simp
  qed
qed simp

lemma validate_config_None:
  "validateAdvancedCustomConfig newURL (Some cfg) = None \<longleftrightarrow>
     normalized_routes cfg \<noteq> [] \<and> valid_routes newURL (normalized_routes cfg)"
  by (simp add: validateAdvancedCustomConfig_def Let_def
      validate_routes_None [OF summarises_initial])

section \<open>Normal forms\<close>

lemma or_str_Nil [simp]: "or_str (Some s) [] = s"
  by (cases s) simp_all

lemma or_str_or_str [simp]: "or_str (Some (or_str s d)) d = or_str s d"
  by (simp add: or_str_def split: option.split)

lemma trimmed_idem: "nonempty_strs (map trim (nonempty_strs (map trim xs))) = nonempty_strs (map trim xs)"
  by (induction xs) simp_all

lemma normalizeModels_idem [simp]:
  "normalizeAdvancedCustomRouteModels
     (let ms = normalizeAdvancedCustomRouteModels x in if ms \<noteq> [] then Some ms else None)
   = normalizeAdvancedCustomRouteModels x"
  by (auto simp: normalizeAdvancedCustomRouteModels_def Let_def trimmed_idem split: option.split)

lemma normalize_sel [simp]:
  "routeModels (normalizeAdvancedCustomRoute r) = routeModels r"
  "conv_of (normalizeAdvancedCustomRoute r) = conv_of r"
  "incomingPath (normalizeAdvancedCustomRoute r) = incomingPath r"
  "getAdvancedCustomRouteUpstreamPath (normalizeAdvancedCustomRoute r)
     = getAdvancedCustomRouteUpstreamPath r"
  using normalizeModels_idem [of "models r"]
  by (simp_all add: normalizeAdvancedCustomRoute_def Let_def incomingPath_def or_str_def
      getAdvancedCustomRouteUpstreamPath_def split: option.split)

definition normalize_auth :: "AdvancedCustomRouteAuth \<Rightarrow> AdvancedCustomRouteAuth" where
  "normalize_auth a = \<lparr>auth_type = auth_type a, auth_name = Some (or_str (auth_name a) []),
     auth_value = Some (or_str (auth_value a) [])\<rparr>"

lemma normalize_fields:
  "incoming_path (normalizeAdvancedCustomRoute r) = Some (or_str (incoming_path r) [])"
  "upstream_path (normalizeAdvancedCustomRoute r) = Some (getAdvancedCustomRouteUpstreamPath r)"
  "converter (normalizeAdvancedCustomRoute r) = Some (conv_of r)"
  "models (normalizeAdvancedCustomRoute r) = (if routeModels r \<noteq> [] then Some (routeModels r) else None)"
  "auth (normalizeAdvancedCustomRoute r) = map_option normalize_auth (auth r)"
  by (simp_all add: normalizeAdvancedCustomRoute_def Let_def normalize_auth_def [abs_def])

lemma normalize_auth_idem [simp]: "normalize_auth (normalize_auth a) = normalize_auth a"
  by (simp add: normalize_auth_def)

lemma normalizeRoute_idem [simp]:
  "normalizeAdvancedCustomRoute (normalizeAdvancedCustomRoute r) = normalizeAdvancedCustomRoute r"
  by (rule AdvancedCustomRoute.equality)
    (simp_all add: normalize_fields(1,2,3) normalize_fields(4) [of "normalizeAdvancedCustomRoute r"]
      normalize_fields(5) option.map_comp o_def,
     simp add: normalize_fields)

lemma normalized_routes_Some [simp]:
  "normalized_routes \<lparr>advanced_routes = Some rs\<rparr> = map normalizeAdvancedCustomRoute rs"
  by (simp add: normalized_routes_def normalizeAdvancedCustomConfig_def)

lemma normalized_routes_fixed:
  "map normalizeAdvancedCustomRoute (normalized_routes cfg) = normalized_routes cfg"
  by (simp add: normalized_routes_def normalizeAdvancedCustomConfig_def split: option.split)

lemma normalizeConfig_eq:
  "normalizeAdvancedCustomConfig cfg = \<lparr>advanced_routes = Some (normalized_routes cfg)\<rparr>"
  by (simp add: normalized_routes_def normalizeAdvancedCustomConfig_def)

lemma validateRouteAuth_normalize [simp]:
  "validateRouteAuth (auth (normalizeAdvancedCustomRoute r)) = validateRouteAuth (auth r)"
  by (cases "auth r")
    (simp_all add: normalizeAdvancedCustomRoute_def validateRouteAuth_def Let_def trims_to_empty_def
      or_str_def split: option.split)

lemma route_ok_normalize [simp]:
  "route_ok newURL (normalizeAdvancedCustomRoute r) = route_ok newURL r"
  "is_management (normalizeAdvancedCustomRoute r) = is_management r"
  "compatible (normalizeAdvancedCustomRoute r) s = compatible r s"
  "compatible s (normalizeAdvancedCustomRoute r) = compatible s r"
  by (simp_all add: route_ok_def is_management_def management_ok_def compatible_def)

lemma valid_routes_normalize [simp]:
  "valid_routes newURL (map normalizeAdvancedCustomRoute rs) = valid_routes newURL rs"
  by (simp add: valid_routes_def list_all_length sorted_wrt_map)

end
