(* ===== verification/Advanced_Custom_Accept.thy ===== *)
theory Advanced_Custom_Accept
  imports Advanced_Custom_Valid
begin

text \<open>
  The theorems on the validator of a custom channel's routing table: what it accepts, where its
  errors point, and that the templates and the defaults the channel form offers are accepted.
\<close>

section \<open>What is accepted\<close>

text \<open> C4: The validator accepts a configuration exactly when it has a route, every normalised
  route is acceptable on its own (path, upstream, converter, authentication, and for a management
  path no models and no converter), and whenever two routes share their incoming path the earlier
  one lists models, none of which the later one lists: a catch-all comes last and once, a model
  has one route, a management path one entry. The validator finds this out in one pass with maps
  and indices; the specification is a predicate on the list. \<close>

theorem validator_accepts_exactly:
  "validateAdvancedCustomConfig newURL (Some cfg) = None \<longleftrightarrow>
     normalized_routes cfg \<noteq> [] \<and> list_all (route_ok newURL) (normalized_routes cfg)
     \<and> sorted_wrt compatible (normalized_routes cfg)"
  by (simp add: validate_config_None valid_routes_def)

text \<open> C30: An error of the validator carries the index of the first offending route: the routes
  before it are acceptable together, and they are not once it is added. \<close>

theorem validator_error_is_first:
  assumes "validateAdvancedCustomConfig newURL (Some cfg) = Some e"
    and "advanced_routes cfg = Some (r # rs)"
  shows "\<exists>k. routeIndex e = Some k \<and> k < length (normalized_routes cfg)
    \<and> valid_routes newURL (take k (normalized_routes cfg))
    \<and> \<not> valid_routes newURL (take (Suc k) (normalized_routes cfg))"
proof -
  from assms(2) have "normalized_routes cfg \<noteq> []"
    by (simp add: normalized_routes_def normalizeAdvancedCustomConfig_def)
  with assms(1) have "validate_routes newURL 0 (normalized_routes cfg) initial_state = Some e"
    by (simp add: validateAdvancedCustomConfig_def Let_def)
  from validate_routes_Some [OF this] obtain k where k: "k < length (normalized_routes cfg)"
    "routeIndex e = Some k"
    and before: "validate_routes newURL 0 (take k (normalized_routes cfg)) initial_state = None"
    and at: "validate_routes newURL 0 (take (Suc k) (normalized_routes cfg)) initial_state = Some e"
    by auto
  have "valid_routes newURL xs \<longleftrightarrow> validate_routes newURL 0 xs initial_state = None" for xs
    by (simp add: validate_routes_None [OF summarises_initial])
  with k before at show ?thesis by simp
qed

definition no_url :: "string \<Rightarrow> ParsedURL option" where
  "no_url s = None"

definition doubled_config :: AdvancedCustomConfig where
  "doubled_config = \<lparr>advanced_routes = Some [createAdvancedCustomRoute, createAdvancedCustomRoute]\<rparr>"

theorem validator_error_is_first_witness:
  "\<exists>k. k < length (normalized_routes doubled_config)
     \<and> valid_routes no_url (take k (normalized_routes doubled_config))
     \<and> \<not> valid_routes no_url (take (Suc k) (normalized_routes doubled_config))"
proof -
  have "\<exists>e. validateAdvancedCustomConfig no_url (Some doubled_config) = Some e"
    unfolding not_None_eq [symmetric] by code_simp
  then obtain e where e: "validateAdvancedCustomConfig no_url (Some doubled_config) = Some e" ..
  have "advanced_routes doubled_config = Some [createAdvancedCustomRoute, createAdvancedCustomRoute]"
    by (simp add: doubled_config_def)
  from validator_error_is_first [OF e this] show ?thesis by blast
qed

section \<open>Templates and defaults\<close>

definition default_route :: "string \<Rightarrow> string \<Rightarrow> AdvancedCustomRoute" where
  "default_route conv path =
     \<lparr>incoming_path = Some path,
      upstream_path = Some (def_upstream_path (getAdvancedCustomConverterDefaults conv path)),
      converter = Some conv, models = None,
      auth = def_auth (getAdvancedCustomConverterDefaults conv path)\<rparr>"

lemma templates_valid:
  "list_all (\<lambda>t. validateAdvancedCustomConfig newURL (Some (config t)) = None)
     ADVANCED_CUSTOM_TEMPLATE_OPTIONS"
  by code_simp

lemma trim_management: "isAdvancedCustomManagementPath p \<Longrightarrow> trim p = p"
  by (auto simp: isAdvancedCustomManagementPath_def path_defs intro!: trim_id) (simp_all add: is_ws_def)

lemma management_path:
  assumes "isAdvancedCustomManagementPath p"
  shows "startsWith p ''/''" "CHR ''?'' \<notin> set p"
  using assms by (auto simp: isAdvancedCustomManagementPath_def path_defs)

lemma none_converter [simp]: "isAdvancedCustomConverter ''none''" "isConverterPathAllowed p ''none''"
  by (simp_all add: isAdvancedCustomConverter_def ADVANCED_CUSTOM_CONVERTER_OPTIONS_def
      isConverterPathAllowed_def)

lemma native_auth_valid:
  "validateRouteAuth (Some (getAdvancedCustomNativeAuth p)) = None"
  "validateRouteAuth (Some bearerHeaderAuth) = None"
  "validateRouteAuth (Some apiKeyHeaderAuth) = None"
  "validateRouteAuth (Some geminiQueryAuth) = None"
proof -
  show bearer: "validateRouteAuth (Some bearerHeaderAuth) = None"
    and key: "validateRouteAuth (Some apiKeyHeaderAuth) = None"
    and query: "validateRouteAuth (Some geminiQueryAuth) = None" by code_simp+
  show "validateRouteAuth (Some (getAdvancedCustomNativeAuth p)) = None"
    by (simp add: getAdvancedCustomNativeAuth_def bearer key query)
qed

definition plain_path :: "string \<Rightarrow> bool" where
  "plain_path p \<longleftrightarrow> startsWith p ''/'' \<and> \<not> startsWith p ''//'' \<and> trim p = p"

lemma plain_paths:
  "plain_path openAIChatPath" "plain_path openAIResponsesPath" "plain_path claudeMessagesPath"
  "plain_path geminiGenerateContentPath"
  by code_simp+

lemma converter_defaults:
  assumes "plain_path p"
  shows "plain_path (def_upstream_path (getAdvancedCustomConverterDefaults c p))"
    and "validateRouteAuth (def_auth (getAdvancedCustomConverterDefaults c p)) = None"
    and "c = ''none'' \<Longrightarrow> def_upstream_path (getAdvancedCustomConverterDefaults c p) = p"
proof -
  have p: "or_str (Some (trim p)) d = p" "or_str (Some p) d = p" for d
    using assms by (cases p; simp add: plain_path_def)+
  show "plain_path (def_upstream_path (getAdvancedCustomConverterDefaults c p))"
    using assms plain_paths by (simp add: getAdvancedCustomConverterDefaults_def Let_def p)
  show "validateRouteAuth (def_auth (getAdvancedCustomConverterDefaults c p)) = None"
    by (simp add: getAdvancedCustomConverterDefaults_def Let_def native_auth_valid)
  show "c = ''none'' \<Longrightarrow> def_upstream_path (getAdvancedCustomConverterDefaults c p) = p"
    by (simp add: getAdvancedCustomConverterDefaults_def Let_def p)
qed

lemma management_native:
  assumes "isAdvancedCustomManagementPath p"
  shows "\<not> str_includes p ''{model}''"
    and "isConverterPathAllowed p c \<Longrightarrow> c = ''none''"
  using assms
  by (auto simp: isAdvancedCustomManagementPath_def path_defs isConverterPathAllowed_def
      split: if_splits)

lemma default_route_ok:
  assumes p: "plain_path p" "CHR ''?'' \<notin> set p"
    and c: "isAdvancedCustomConverter c" "isConverterPathAllowed p c"
  shows "route_ok newURL (default_route c p)"
proof -
  let ?u = "def_upstream_path (getAdvancedCustomConverterDefaults c p)"
  have sel: "incomingPath (default_route c p) = p" "routeModels (default_route c p) = []"
    "getAdvancedCustomRouteUpstreamPath (default_route c p) = ?u"
    "auth (default_route c p) = def_auth (getAdvancedCustomConverterDefaults c p)"
    using p converter_defaults(1) [OF p(1), of c]
    by (simp_all add: default_route_def incomingPath_def getAdvancedCustomRouteUpstreamPath_def
        normalizeAdvancedCustomRouteModels_def plain_path_def)
  have conv: "conv_of (default_route c p) = c"
    using c(1) by (cases c) (simp_all add: default_route_def isAdvancedCustomConverter_def
        ADVANCED_CUSTOM_CONVERTER_OPTIONS_def)
  have "management_ok (default_route c p)" if "isAdvancedCustomManagementPath p"
    unfolding management_ok_def sel conv
    using management_native(1) [OF that] management_native(2) [OF that c(2)]
      converter_defaults(3) [OF p(1), of c] by simp
  moreover have "isFullHttpURLOrAbsolutePath newURL ?u" "?u \<noteq> []"
    using converter_defaults(1) [OF p(1), of c]
    by (auto simp: isFullHttpURLOrAbsolutePath_def plain_path_def)
  ultimately show ?thesis
    using p c converter_defaults(2) [OF p(1), of c]
    unfolding route_ok_def is_management_def sel conv plain_path_def by simp
qed

lemma offered_paths_plain:
  "list_all (\<lambda>p. plain_path (path_value p) \<and> CHR ''?'' \<notin> set (path_value p))
     ADVANCED_CUSTOM_INCOMING_PATH_OPTIONS"
  by code_simp

lemma converter_defaults_valid:
  "list_all (\<lambda>c. list_all (\<lambda>p.
       validateAdvancedCustomConfig newURL
         (Some \<lparr>advanced_routes = Some [default_route (conv_value c) (path_value p)]\<rparr>) = None)
       (getAdvancedCustomIncomingPathOptions (conv_value c)))
     ADVANCED_CUSTOM_CONVERTER_OPTIONS"
proof -
  have "isAdvancedCustomConverter (conv_value c)" if "c \<in> set ADVANCED_CUSTOM_CONVERTER_OPTIONS" for c
    using that by (auto simp: isAdvancedCustomConverter_def list_ex_iff)
  then have "route_ok newURL (default_route (conv_value c) (path_value p))"
    if "c \<in> set ADVANCED_CUSTOM_CONVERTER_OPTIONS"
      "p \<in> set (getAdvancedCustomIncomingPathOptions (conv_value c))" for c p
    using that offered_paths_plain [unfolded list_all_iff]
    by (intro default_route_ok) (simp_all add: getAdvancedCustomIncomingPathOptions_def)
  then show ?thesis
    by (simp add: list_all_iff validate_config_None valid_routes_def)
qed

text \<open>The route the editor adds for an incoming path.\<close>

definition added_route :: "string \<Rightarrow> AdvancedCustomRoute" where
  "added_route path = createAdvancedCustomRoute\<lparr>incoming_path := Some path, upstream_path := Some path\<rparr>"

lemma added_routes_valid:
  "list_all (\<lambda>p. validateAdvancedCustomConfig newURL
      (Some \<lparr>advanced_routes = Some [added_route (path_value p)]\<rparr>) = None) ADVANCED_CUSTOM_INCOMING_PATH_OPTIONS"
  by code_simp

text \<open> C31: Whatever key a template is asked for, the configuration it gives is valid; and for
  every converter and every incoming path the form offers for it, a route with the upstream path
  and the authentication the form fills in is valid; and so is the route the editor adds for any of the
  incoming paths it offers. No URL is parsed for any of them. \<close>

theorem offered_configurations_valid:
  "validateAdvancedCustomConfig newURL (Some (getAdvancedCustomTemplateConfig key)) = None
   \<and> list_all (\<lambda>c. list_all (\<lambda>p.
       validateAdvancedCustomConfig newURL
         (Some \<lparr>advanced_routes = Some [default_route (conv_value c) (path_value p)]\<rparr>) = None)
       (getAdvancedCustomIncomingPathOptions (conv_value c)))
     ADVANCED_CUSTOM_CONVERTER_OPTIONS
   \<and> list_all (\<lambda>p. validateAdvancedCustomConfig newURL
       (Some \<lparr>advanced_routes = Some [added_route (path_value p)]\<rparr>) = None) ADVANCED_CUSTOM_INCOMING_PATH_OPTIONS"
proof -
  have "(case find (\<lambda>t. tpl_value t = key) ADVANCED_CUSTOM_TEMPLATE_OPTIONS of
           Some t \<Rightarrow> t | None \<Rightarrow> hd ADVANCED_CUSTOM_TEMPLATE_OPTIONS)
      \<in> set ADVANCED_CUSTOM_TEMPLATE_OPTIONS"
    by (auto simp: find_Some_iff ADVANCED_CUSTOM_TEMPLATE_OPTIONS_def split: option.split)
  with templates_valid [unfolded list_all_iff, of newURL] converter_defaults_valid added_routes_valid show ?thesis
    unfolding getAdvancedCustomTemplateConfig_def by blast
qed

end
