(* ===== verification/Advanced_Custom_Edit.thy ===== *)
theory Advanced_Custom_Edit
  imports Advanced_Custom_Accept
begin

text \<open>
  The operations of the channel form on a custom channel's routing table: replacing the route of
  a management path, and replacing the forwarding routes. Both keep what they do not replace, and
  keep a valid table valid.
\<close>

section \<open>Editing\<close>

lemma findIndex_None: "findIndex P xs = None \<longleftrightarrow> (\<forall>x \<in> set xs. \<not> P x)"
  by (induction xs) auto

lemma findIndex_Some:
  "findIndex P xs = Some i \<longleftrightarrow> i < length xs \<and> P (xs ! i) \<and> (\<forall>x \<in> set (take i xs). \<not> P x)"
proof (induction xs arbitrary: i)
  case (Cons x xs)
  then show ?case by (cases i) auto
qed simp

lemma find_app: "\<forall>x \<in> set xs. \<not> P x \<Longrightarrow> find P (xs @ ys) = find P ys"
  by (induction xs) auto

lemma valid_routes_app:
  "valid_routes newURL (as @ bs) \<longleftrightarrow> valid_routes newURL as \<and> valid_routes newURL bs
     \<and> (\<forall>a \<in> set as. \<forall>b \<in> set bs. compatible a b)"
  by (auto simp: valid_routes_def sorted_wrt_append)

lemma valid_routes_Cons:
  "valid_routes newURL (r # rs) \<longleftrightarrow>
     route_ok newURL r \<and> (\<forall>s \<in> set rs. compatible r s) \<and> valid_routes newURL rs"
  by (auto simp: valid_routes_def)

lemma valid_routes_insert:
  assumes "valid_routes newURL (as @ bs)" "route_ok newURL r"
    and "\<forall>s \<in> set (as @ bs). incomingPath s \<noteq> incomingPath r"
  shows "valid_routes newURL (as @ r # bs)"
  using assms by (auto simp: valid_routes_app valid_routes_Cons compatible_def)

lemma valid_routes_delete: "valid_routes newURL (as @ xs @ bs) \<Longrightarrow> valid_routes newURL (as @ bs)"
  by (auto simp: valid_routes_app)

lemma normalized_fixed:
  "r \<in> set (normalized_routes cfg) \<Longrightarrow> normalizeAdvancedCustomRoute r = r"
  by (auto simp: normalized_routes_def normalizeAdvancedCustomConfig_def split: option.splits)

lemma normalized_path:
  assumes "r \<in> set (normalized_routes cfg)"
  shows "at_path p r \<longleftrightarrow> incomingPath r = p"
proof -
  from normalized_fixed [OF assms] have "incoming_path r = Some (or_str (incoming_path r) [])"
    by (metis normalize_fields(1))
  then show ?thesis by (cases "incoming_path r") (simp_all add: at_path_def incomingPath_def)
qed

lemma management_route_sel [simp]:
  "routeModels (management_route p r) = []"
  "conv_of (management_route p r) = ''none''"
  "incomingPath (management_route p r) = trim p"
  "getAdvancedCustomRouteUpstreamPath (management_route p r) = getAdvancedCustomRouteUpstreamPath r"
  "auth (management_route p r) = auth r"
  by (simp_all add: management_route_def incomingPath_def getAdvancedCustomRouteUpstreamPath_def
      normalizeAdvancedCustomRouteModels_def)

lemma valid_routes_filter: "valid_routes newURL rs \<Longrightarrow> valid_routes newURL (filter P rs)"
  by (simp add: valid_routes_def sorted_wrt_filter) (auto simp: list_all_iff)

lemma forwarding_gap:
  obtains as bs where "filter is_management (normalized_routes cfg) = as @ bs"
    "replaceAdvancedCustomForwardingRoutes cfg forwarding
       = \<lparr>advanced_routes = Some (as @ forwarding @ bs)\<rparr>"
proof (cases "findIndex (\<lambda>r. \<not> is_management r) (normalized_routes cfg)")
  case None
  show ?thesis
    by (rule that [of "filter is_management (normalized_routes cfg)" "[]"])
      (simp_all add: replaceAdvancedCustomForwardingRoutes_def Let_def None)
next
  case (Some i)
  show ?thesis
    by (rule that [of "filter is_management (take i (normalized_routes cfg))"
          "filter is_management (drop i (normalized_routes cfg))"])
      (simp_all add: replaceAdvancedCustomForwardingRoutes_def Let_def Some flip: filter_append)
qed

text \<open>
  Where the entry of a management path is: a valid list has at most one, in the gap between
  routes of other paths, and the replacement works on that gap.
\<close>

lemma management_gap:
  assumes valid: "valid_routes newURL (normalized_routes cfg)"
    and p: "isAdvancedCustomManagementPath p"
  obtains as xs bs where "normalized_routes cfg = as @ xs @ bs"
    "\<forall>r \<in> set (as @ bs). incomingPath r \<noteq> p" "\<forall>x \<in> set xs. incomingPath x = p"
    "advanced_routes (replaceAdvancedCustomManagementRoute cfg p None) = Some (as @ bs)"
    "\<forall>r. advanced_routes (replaceAdvancedCustomManagementRoute cfg p (Some r))
          = Some (as @ management_route p r # bs)"
proof (cases "findIndex (at_path p) (normalized_routes cfg)")
  case None
  note none = None [unfolded findIndex_None]
  show ?thesis
  proof (rule that [of "normalized_routes cfg" "[]" "[]"])
    show "\<forall>r \<in> set (normalized_routes cfg @ []). incomingPath r \<noteq> p"
      using none normalized_path [of _ cfg p] by (metis append_Nil2)
  qed (simp_all add: replaceAdvancedCustomManagementRoute_def Let_def None)
next
  case (Some i)
  let ?rs = "normalized_routes cfg"
  note i = Some [unfolded findIndex_Some]
  have split: "?rs = take i ?rs @ ?rs ! i # drop (Suc i) ?rs"
    by (rule id_take_nth_drop) (use i in blast)
  have at: "incomingPath (?rs ! i) = p" using i normalized_path by (meson nth_mem)
  have "valid_routes newURL (take i ?rs @ ?rs ! i # drop (Suc i) ?rs)"
    by (subst split [symmetric]) (rule valid)
  then have ok: "route_ok newURL (?rs ! i)" and after: "\<forall>r \<in> set (drop (Suc i) ?rs). compatible (?rs ! i) r"
    by (simp_all add: valid_routes_app valid_routes_Cons)
  from ok at p have "routeModels (?rs ! i) = []"
    by (simp add: route_ok_def is_management_def management_ok_def)
  with after at have later: "\<forall>r \<in> set (drop (Suc i) ?rs). incomingPath r \<noteq> p"
    by (auto simp: compatible_def)
  have before: "\<forall>r \<in> set (take i ?rs). incomingPath r \<noteq> p"
    using i normalized_path by (meson in_set_takeD)
  have upd: "?rs[i := x] = take i ?rs @ x # drop (Suc i) ?rs" for x
    by (rule upd_conv_take_nth_drop) (use i in blast)
  show ?thesis
  proof (rule that [of "take i ?rs" "[?rs ! i]" "drop (Suc i) ?rs"])
    show "?rs = take i ?rs @ [?rs ! i] @ drop (Suc i) ?rs"
      unfolding append.simps by (rule split)
    show "\<forall>r \<in> set (take i ?rs @ drop (Suc i) ?rs). incomingPath r \<noteq> p"
      using before later by (simp only: set_append ball_Un)
  qed (simp_all add: replaceAdvancedCustomManagementRoute_def Let_def Some upd at)
qed


definition listed_config :: AdvancedCustomConfig where
  "listed_config = \<lparr>advanced_routes =
     Some [createAdvancedCustomRoute,
           createAdvancedCustomManagementRoute ADVANCED_CUSTOM_MODEL_LIST_PATH]\<rparr>"


text \<open> C33: Replacing the forwarding routes keeps every management route, in order, and the new
  forwarding routes, in order, are all the others: they stand together where the first old one
  stood. The routes stay acceptable and compatible when the new forwarding routes are so, and then the validator accepts the
  table again unless no route at all is left. \<close>

theorem forwarding_routes_replaced:
  assumes fwd: "list_all (\<lambda>r. \<not> is_management r) forwarding"
  shows "filter is_management (normalized_routes (replaceAdvancedCustomForwardingRoutes cfg forwarding))
           = filter is_management (normalized_routes cfg)
    \<and> filter (\<lambda>r. \<not> is_management r)
        (normalized_routes (replaceAdvancedCustomForwardingRoutes cfg forwarding))
           = map normalizeAdvancedCustomRoute forwarding
    \<and> (valid_routes newURL (normalized_routes cfg) \<and> valid_routes newURL forwarding \<longrightarrow>
        valid_routes newURL
          (normalized_routes (replaceAdvancedCustomForwardingRoutes cfg forwarding)))
    \<and> (validateAdvancedCustomConfig newURL (Some cfg) = None \<and> valid_routes newURL forwarding \<longrightarrow>
        (validateAdvancedCustomConfig newURL (Some (replaceAdvancedCustomForwardingRoutes cfg forwarding)) = None
           \<longleftrightarrow> forwarding \<noteq> [] \<or> filter is_management (normalized_routes cfg) \<noteq> []))"
proof -
  let ?n = normalizeAdvancedCustomRoute and ?rs = "normalized_routes cfg"
  obtain as bs where split: "filter is_management ?rs = as @ bs"
    and new: "replaceAdvancedCustomForwardingRoutes cfg forwarding
        = \<lparr>advanced_routes = Some (as @ forwarding @ bs)\<rparr>"
    by (rule forwarding_gap)
  have in_rs: "set (as @ bs) \<subseteq> {r \<in> set ?rs. is_management r}"
    unfolding split [symmetric] by simp
  then have fixed: "map ?n as = as" "map ?n bs = bs"
    using normalized_fixed [of _ cfg] by (auto intro!: map_idI)
  have mgmt: "filter is_management as = as" "filter is_management bs = bs"
    "filter (\<lambda>r. \<not> is_management r) as = []" "filter (\<lambda>r. \<not> is_management r) bs = []"
    using in_rs by (auto simp: filter_id_conv filter_empty_conv)
  have none: "filter is_management (map ?n forwarding) = []"
    "filter (\<lambda>r. \<not> is_management r) (map ?n forwarding) = map ?n forwarding"
    using fwd by (auto simp: filter_empty_conv filter_id_conv list_all_iff)
  have result: "normalized_routes (replaceAdvancedCustomForwardingRoutes cfg forwarding)
      = as @ map ?n forwarding @ bs"
    by (simp add: new fixed)
  have "valid_routes newURL (as @ map ?n forwarding @ bs)"
    if v: "valid_routes newURL ?rs" "valid_routes newURL forwarding"
  proof -
    have "valid_routes newURL (as @ bs)"
      unfolding split [symmetric] by (rule valid_routes_filter [OF v(1)])
    moreover have "compatible a (?n f)" "compatible (?n f) a"
      if af: "a \<in> set (as @ bs)" "f \<in> set forwarding" for a f
    proof -
      have "is_management a" using in_rs af(1) by blast
      moreover have "\<not> is_management f" using fwd af(2) by (simp add: list_all_iff)
      ultimately have "incomingPath a \<noteq> incomingPath f" unfolding is_management_def by auto
      then show "compatible a (?n f)" "compatible (?n f) a" by (simp_all add: compatible_def)
    qed
    ultimately show ?thesis using v(2) by (auto simp: valid_routes_app)
  qed
  then show ?thesis
    unfolding result validate_config_None split by (auto simp: mgmt none validate_config_None result)
qed

theorem forwarding_routes_replaced_witness:
  "filter is_management (normalized_routes
      (replaceAdvancedCustomForwardingRoutes listed_config [createAdvancedCustomRoute]))
   = filter is_management (normalized_routes listed_config)"
proof -
  have "list_all (\<lambda>r. \<not> is_management r) [createAdvancedCustomRoute]" by code_simp
  from forwarding_routes_replaced [OF this] show ?thesis by (rule conjunct1)
qed

end
