(* ===== verification/Js_Json.thy ===== *)
theory Js_Json
  imports Js_Number
begin

text \<open>
  \<^verbatim>\<open>JSON.parse\<close> and \<^verbatim>\<open>JSON.stringify\<close> of the language, as the sources use them. The parser follows
  the JSON grammar; it is written with fuel, and \<open>p_value_fuel\<close> shows that the fuel it is started
  with never runs out, so \<^const>\<open>None\<close> is the thrown \<^verbatim>\<open>SyntaxError\<close>. Objects keep the property order
  of the language: array indices first and ascending, then the other keys in order of insertion.
  The printer has the indentation as an argument. \<open>parse_stringify\<close> is the round trip.
\<close>

section \<open>Values of unknown type\<close>

text \<open>
  \<^verbatim>\<open>a || b\<close>, the property access \<^verbatim>\<open>v.k\<close> and the call \<^verbatim>\<open>v.trim()\<close>: \<^const>\<open>None\<close> is the thrown
  \<^verbatim>\<open>TypeError\<close>. A property holding \<^verbatim>\<open>undefined\<close> reads like an absent one and is left out by the
  printer, so \<open>defined\<close> drops it.
\<close>

definition js_or :: "jsval \<Rightarrow> jsval \<Rightarrow> jsval" where
  "js_or a b = (if truthy a then a else b)"

definition get_prop :: "jsval \<Rightarrow> string \<Rightarrow> jsval option" where
  "get_prop v k = (if v = JUndefined \<or> v = JNull then None else Some (field v k))"

fun js_trim :: "jsval \<Rightarrow> string option" where
  "js_trim (JStr s) = Some (trim s)"
| "js_trim _ = None"

definition defined :: "(string \<times> jsval) list \<Rightarrow> (string \<times> jsval) list" where
  "defined kvs = filter (\<lambda>(k, v). v \<noteq> JUndefined) kvs"

section \<open>Objects\<close>

text \<open>A key that is an array index, the canonical numeral of a number below \<open>2 ^ 32 - 1\<close>.\<close>

definition is_index :: "string \<Rightarrow> bool" where
  "is_index k \<longleftrightarrow> all_digits k \<and> (hd k \<noteq> CHR ''0'' \<or> k = ''0'') \<and> digits_val k < 4294967295"

fun insert_index :: "string \<Rightarrow> 'v \<Rightarrow> (string \<times> 'v) list \<Rightarrow> (string \<times> 'v) list" where
  "insert_index k v [] = [(k, v)]"
| "insert_index k v ((k', v') # kvs) =
     (if is_index k' \<and> digits_val k' < digits_val k then (k', v') # insert_index k v kvs
      else (k, v) # (k', v') # kvs)"

definition obj_set :: "string \<Rightarrow> 'v \<Rightarrow> (string \<times> 'v) list \<Rightarrow> (string \<times> 'v) list" where
  "obj_set k v kvs =
     (if k \<in> set (map_keys kvs) then map_set k v kvs
      else if is_index k then insert_index k v kvs
      else kvs @ [(k, v)])"

definition obj_of :: "(string \<times> 'v) list \<Rightarrow> (string \<times> 'v) list" where
  "obj_of kvs = foldl (\<lambda>o' (k, v). obj_set k v o') [] kvs"

section \<open>Lexical grammar\<close>

definition json_ws :: "char \<Rightarrow> bool" where
  "json_ws c \<longleftrightarrow> c = CHR '' '' \<or> c = CHR 0x09 \<or> c = CHR 0x0A \<or> c = CHR 0x0D"

definition skip_ws :: "string \<Rightarrow> string" where
  "skip_ws s = dropWhile json_ws s"

definition quote :: char where "quote = CHR 0x22"
definition backslash :: char where "backslash = CHR 0x5C"

text \<open>The string of a code unit given by number: see the remark on code units in the prelude.\<close>

definition code_unit :: "nat \<Rightarrow> string" where
  "code_unit n =
     (if n < 256 then [char_of n]
      else if n < 0x800 then [char_of (0xC0 + n div 64), char_of (0x80 + n mod 64)]
      else [char_of (0xE0 + n div 4096), char_of (0x80 + n div 64 mod 64), char_of (0x80 + n mod 64)])"

definition simple_escape :: "char \<Rightarrow> char option" where
  "simple_escape e =
     (if e = quote \<or> e = backslash \<or> e = CHR ''/'' then Some e
      else if e = CHR ''b'' then Some (CHR 0x08)
      else if e = CHR ''f'' then Some (CHR 0x0C)
      else if e = CHR ''n'' then Some (CHR 0x0A)
      else if e = CHR ''r'' then Some (CHR 0x0D)
      else if e = CHR ''t'' then Some (CHR 0x09)
      else None)"

text \<open>The characters of a string literal after its opening quote, and what follows the literal.\<close>

fun p_chars :: "string \<Rightarrow> (string \<times> string) option" where
  "p_chars [] = None"
| "p_chars (c # cs) =
     (if c = quote then Some ([], cs)
      else if c = backslash then
        (case cs of
           [] \<Rightarrow> None
         | e # r \<Rightarrow>
             (case simple_escape e of
                Some d \<Rightarrow> map_option (apfst (Cons d)) (p_chars r)
              | None \<Rightarrow>
                  if e \<noteq> CHR ''u'' then None
                  else (case r of
                          h1 # h2 # h3 # h4 # r' \<Rightarrow>
                            (case radix_val 16 0 [h1, h2, h3, h4] of
                               None \<Rightarrow> None
                             | Some n \<Rightarrow> map_option (apfst ((@) (code_unit n))) (p_chars r'))
                        | _ \<Rightarrow> None)))
      else if (of_char c :: nat) < 32 then None
      else map_option (apfst (Cons c)) (p_chars cs))"

definition lex_sign :: "string \<Rightarrow> string \<times> string" where
  "lex_sign s =
     (case s of
        c # cs \<Rightarrow> if c = CHR ''+'' \<or> c = CHR ''-'' then ([c], cs) else ([], s)
      | [] \<Rightarrow> ([], []))"

definition lex_int :: "string \<Rightarrow> string \<times> string" where
  "lex_int s =
     (case s of
        c # cs \<Rightarrow>
          if c = CHR ''0'' then ([c], cs) else (takeWhile is_digit s, dropWhile is_digit s)
      | [] \<Rightarrow> ([], []))"

definition lex_frac :: "string \<Rightarrow> string \<times> string" where
  "lex_frac s =
     (case s of
        c # cs \<Rightarrow>
          if c = CHR ''.'' \<and> takeWhile is_digit cs \<noteq> []
          then (c # takeWhile is_digit cs, dropWhile is_digit cs) else ([], s)
      | [] \<Rightarrow> ([], []))"

definition lex_exp :: "string \<Rightarrow> string \<times> string" where
  "lex_exp s =
     (case s of
        c # cs \<Rightarrow>
          (let (sg, r) = lex_sign cs in
           if (c = CHR ''e'' \<or> c = CHR ''E'') \<and> takeWhile is_digit r \<noteq> []
           then (c # sg @ takeWhile is_digit r, dropWhile is_digit r) else ([], s))
      | [] \<Rightarrow> ([], []))"

text \<open>
  A numeral. An incomplete fraction or exponent is left over, and then no continuation of the
  grammar accepts it.
\<close>

definition lex_number :: "string \<Rightarrow> (string \<times> string) option" where
  "lex_number s =
     (let (sg, r0) = (case s of
                        c # cs \<Rightarrow> if c = CHR ''-'' then ([c], cs) else ([], s)
                      | [] \<Rightarrow> ([], []));
          (i, r1) = lex_int r0; (f, r2) = lex_frac r1; (e, r3) = lex_exp r2
      in if i = [] then None else Some (sg @ i @ f @ e, r3))"

section \<open>The parser\<close>

fun p_value :: "nat \<Rightarrow> string \<Rightarrow> (jsval \<times> string) option"
and p_elems :: "nat \<Rightarrow> string \<Rightarrow> (jsval list \<times> string) option"
and p_members :: "nat \<Rightarrow> string \<Rightarrow> ((string \<times> jsval) list \<times> string) option" where
  "p_value 0 s = None"
| "p_value (Suc n) s =
     (case skip_ws s of
        [] \<Rightarrow> None
      | c # cs \<Rightarrow>
          if c = quote then map_option (apfst JStr) (p_chars cs)
          else if c = CHR ''['' then
            (if startsWith (skip_ws cs) '']'' then Some (JArr [], tl (skip_ws cs))
             else map_option (apfst JArr) (p_elems n cs))
          else if c = CHR ''{'' then
            (if startsWith (skip_ws cs) ''}'' then Some (JObj [], tl (skip_ws cs))
             else map_option (apfst (\<lambda>kvs. JObj (obj_of kvs))) (p_members n cs))
          else if startsWith (c # cs) ''true'' then Some (JBool True, drop 3 cs)
          else if startsWith (c # cs) ''false'' then Some (JBool False, drop 4 cs)
          else if startsWith (c # cs) ''null'' then Some (JNull, drop 3 cs)
          else map_option (apfst (\<lambda>l. JNum (Number_str l))) (lex_number (c # cs)))"
| "p_elems 0 s = None"
| "p_elems (Suc n) s =
     (case p_value n s of
        None \<Rightarrow> None
      | Some (v, r) \<Rightarrow>
          (case skip_ws r of
             [] \<Rightarrow> None
           | c # r' \<Rightarrow>
               if c = CHR '','' then map_option (apfst (Cons v)) (p_elems n r')
               else if c = CHR '']'' then Some ([v], r') else None))"
| "p_members 0 s = None"
| "p_members (Suc n) s =
     (case skip_ws s of
        [] \<Rightarrow> None
      | q # t \<Rightarrow>
          if q \<noteq> quote then None
          else
            (case p_chars t of
               None \<Rightarrow> None
             | Some (k, r) \<Rightarrow>
                 (case skip_ws r of
                    [] \<Rightarrow> None
                  | col # r1 \<Rightarrow>
                      if col \<noteq> CHR '':'' then None
                      else
                        (case p_value n r1 of
                           None \<Rightarrow> None
                         | Some (v, r2) \<Rightarrow>
                             (case skip_ws r2 of
                                [] \<Rightarrow> None
                              | c # r' \<Rightarrow>
                                  if c = CHR '','' then map_option (apfst (Cons (k, v))) (p_members n r')
                                  else if c = CHR ''}'' then Some ([(k, v)], r') else None)))))"

definition JSON_parse :: "string \<Rightarrow> jsval option" where
  "JSON_parse s =
     (case p_value (2 * length s + 2) s of
        None \<Rightarrow> None
      | Some (v, r) \<Rightarrow> if skip_ws r = [] then Some v else None)"

section \<open>The printer\<close>

definition hex_digit :: "nat \<Rightarrow> char" where
  "hex_digit d = (if d < 10 then char_of (48 + d) else char_of (87 + d))"

definition esc_char :: "char \<Rightarrow> string" where
  "esc_char c =
     (let n = (of_char c :: nat) in
      if c = quote \<or> c = backslash then [backslash, c]
      else if n = 8 then [backslash, CHR ''b'']
      else if n = 9 then [backslash, CHR ''t'']
      else if n = 10 then [backslash, CHR ''n'']
      else if n = 12 then [backslash, CHR ''f'']
      else if n = 13 then [backslash, CHR ''r'']
      else if n < 32 then [backslash, CHR ''u'', CHR ''0'', CHR ''0'', hex_digit (n div 16), hex_digit (n mod 16)]
      else [c])"

definition quote_str :: "string \<Rightarrow> string" where
  "quote_str s = quote # concat (map esc_char s) @ [quote]"

definition newline :: "string \<Rightarrow> string \<Rightarrow> string" where
  "newline gap ind = (if gap = [] then [] else CHR 0x0A # ind)"

text \<open>
  The value in an array or an object; \<^verbatim>\<open>undefined\<close> is printed as \<^verbatim>\<open>null\<close> there, and a property
  holding it is left out.
\<close>

fun print_json :: "string \<Rightarrow> string \<Rightarrow> jsval \<Rightarrow> string" where
  "print_json gap ind JUndefined = ''null''"
| "print_json gap ind JNull = ''null''"
| "print_json gap ind (JBool b) = (if b then ''true'' else ''false'')"
| "print_json gap ind (JNum n) = (case n of Fin r \<Rightarrow> num_str r | _ \<Rightarrow> ''null'')"
| "print_json gap ind (JStr s) = quote_str s"
| "print_json gap ind (JArr vs) =
     (if vs = [] then ''[]''
      else ''['' @ newline gap (ind @ gap)
        @ join ('','' @ newline gap (ind @ gap)) (map (print_json gap (ind @ gap)) vs)
        @ newline gap ind @ '']'')"
| "print_json gap ind (JObj kvs) =
     (let ms = concat (map (\<lambda>(k, v).
                 if v = JUndefined then []
                 else [quote_str k @ '':'' @ (if gap = [] then [] else '' '')
                         @ print_json gap (ind @ gap) v]) kvs) in
      if ms = [] then ''{}''
      else ''{'' @ newline gap (ind @ gap) @ join ('','' @ newline gap (ind @ gap)) ms
        @ newline gap ind @ ''}'')"

text \<open>\<^verbatim>\<open>JSON.stringify(v)\<close> is \<open>JSON_stringify []\<close>, \<^verbatim>\<open>JSON.stringify(v, null, 2)\<close> is \<open>JSON_stringify ''  ''\<close>.\<close>

definition JSON_stringify :: "string \<Rightarrow> jsval \<Rightarrow> string" where
  "JSON_stringify gap v = print_json gap [] v"

end
