(* ===== verification/Js_Json_Laws.thy ===== *)
theory Js_Json_Laws
  imports Js_Json
begin

text \<open>
  The laws of the JSON parser and printer: every parser leaves a shorter rest, the fuel is enough,
  and what the printer writes, with any indentation, the parser reads back.
\<close>

section \<open>The rest is shorter and the fuel is enough\<close>

lemma p_chars_length: "p_chars s = Some (t, r) \<Longrightarrow> length r < length s"
proof (induction s arbitrary: t r rule: p_chars.induct)
  case (2 c cs)
  consider (quote) "c = quote" | (esc) "c = backslash" "c \<noteq> quote" | (plain) "c \<noteq> quote" "c \<noteq> backslash"
    by blast
  then show ?case
  proof cases
    case esc
    with "2.prems" obtain e u where cs: "cs = e # u" by (auto split: list.splits)
    show ?thesis
    proof (cases "simple_escape e")
      case (Some d)
      with esc cs "2.prems" obtain t' where "p_chars u = Some (t', r)" by auto
      from "2.IH"(2) [OF esc(2,1) cs Some this] cs show ?thesis by simp
    next
      case None
      with esc cs "2.prems" obtain h1 h2 h3 h4 u' n t' where
        u: "u = h1 # h2 # h3 # h4 # u'" "radix_val 16 0 [h1, h2, h3, h4] = Some n" "e = CHR ''u''"
        and p: "p_chars u' = Some (t', r)"
        by (auto split: list.splits option.splits if_splits)
      from "2.IH"(1) [OF esc(2,1) cs None _ u(1) refl refl refl u(2) p] cs u show ?thesis by simp
    qed
  next
    case plain
    with "2.prems" obtain t' where "\<not> (of_char c :: nat) < 32" "p_chars cs = Some (t', r)"
      by (auto split: if_splits)
    from "2.IH"(3) [OF plain this] show ?thesis by simp
  qed (use "2.prems" in simp)
qed simp

lemma skip_ws_length: "length (skip_ws s) \<le> length s"
  by (simp add: skip_ws_def length_dropWhile_le)

lemma lex_int_split: "lex_int s = (i, r) \<Longrightarrow> s = i @ r"
  by (auto simp: lex_int_def split: list.splits if_splits)

lemma lex_frac_split: "lex_frac s = (f, r) \<Longrightarrow> s = f @ r"
  by (auto simp: lex_frac_def split: list.splits if_splits)

lemma lex_sign_split: "lex_sign s = (g, r) \<Longrightarrow> s = g @ r"
  by (auto simp: lex_sign_def split: list.splits if_splits)

lemma lex_exp_split: "lex_exp s = (e, r) \<Longrightarrow> s = e @ r"
  by (auto simp: lex_exp_def split: list.splits if_splits prod.splits dest!: lex_sign_split)

lemma lex_number_split:
  assumes "lex_number s = Some (l, r)"
  shows "s = l @ r" "l \<noteq> []"
proof -
  obtain sg r0 where sg: "(case s of c # cs \<Rightarrow> if c = CHR ''-'' then ([c], cs) else ([], s)
      | [] \<Rightarrow> ([], [])) = (sg, r0)" by (rule prod.exhaust)
  obtain i r1 where i: "lex_int r0 = (i, r1)" by (rule prod.exhaust)
  obtain f r2 where f: "lex_frac r1 = (f, r2)" by (rule prod.exhaust)
  obtain e r3 where e: "lex_exp r2 = (e, r3)" by (rule prod.exhaust)
  have s: "s = sg @ r0" using sg by (auto split: list.splits if_splits)
  have "lex_number s = (if i = [] then None else Some (sg @ i @ f @ e, r3))"
    unfolding lex_number_def sg Let_def prod.case i f e ..
  with assms have "i \<noteq> []" "l = sg @ i @ f @ e" "r = r3" by (simp_all split: if_splits)
  with s lex_int_split [OF i] lex_frac_split [OF f] lex_exp_split [OF e]
  show "s = l @ r" "l \<noteq> []" by simp_all
qed

lemma lex_number_length: "lex_number s = Some (l, r) \<Longrightarrow> length r < length s"
  using lex_number_split [of s l r] by auto

lemma p_elems_cases:
  assumes "p_elems (Suc n) s = Some (vs, r)"
  obtains v r1 c r' where "p_value n s = Some (v, r1)" "skip_ws r1 = c # r'"
    "(\<exists>vs'. p_elems n r' = Some (vs', r)) \<or> r = r'"
proof -
  from assms obtain v r1 where v: "p_value n s = Some (v, r1)"
    by (cases "p_value n s") auto
  with assms obtain c r' where c: "skip_ws r1 = c # r'" by (cases "skip_ws r1") auto
  from assms v c have "(\<exists>vs'. p_elems n r' = Some (vs', r)) \<or> r = r'"
    by (auto split: if_splits)
  with v c show thesis by (rule that)
qed

lemma p_members_cases:
  assumes "p_members (Suc n) s = Some (kvs, r)"
  obtains q t k r0 col r1 v r2 c r' where "skip_ws s = q # t" "p_chars t = Some (k, r0)"
    "skip_ws r0 = col # r1" "p_value n r1 = Some (v, r2)" "skip_ws r2 = c # r'"
    "(\<exists>kvs'. p_members n r' = Some (kvs', r)) \<or> r = r'"
proof -
  from assms obtain q t where q: "skip_ws s = q # t" by (cases "skip_ws s") auto
  with assms obtain k r0 where k: "p_chars t = Some (k, r0)"
    by (cases "p_chars t") (auto split: if_splits)
  with assms q obtain col r1 where col: "skip_ws r0 = col # r1"
    by (cases "skip_ws r0") (auto split: if_splits)
  with assms q k obtain v r2 where v: "p_value n r1 = Some (v, r2)"
    by (cases "p_value n r1") (auto split: if_splits)
  with assms q k col obtain c r' where c: "skip_ws r2 = c # r'"
    by (cases "skip_ws r2") (auto split: if_splits)
  from assms q k col v c have "(\<exists>kvs'. p_members n r' = Some (kvs', r)) \<or> r = r'"
    by (auto split: if_splits)
  with q k col v c show thesis by (rule that)
qed

lemma p_value_cases:
  assumes "p_value (Suc n) s = Some (v, r)"
  obtains c cs where "skip_ws s = c # cs"
    "(\<exists>t. p_chars cs = Some (t, r)) \<or> (\<exists>vs. p_elems n cs = Some (vs, r))
     \<or> (\<exists>kvs. p_members n cs = Some (kvs, r)) \<or> (\<exists>l. lex_number (c # cs) = Some (l, r))
     \<or> length r \<le> length cs"
proof -
  from assms obtain c cs where c: "skip_ws s = c # cs" by (cases "skip_ws s") auto
  have tl: "length (tl (skip_ws cs)) \<le> length cs" using skip_ws_length [of cs] by simp
  note p = assms [unfolded p_value.simps(2) c list.case]
  show thesis
  proof (rule that [OF c])
    show "(\<exists>t. p_chars cs = Some (t, r)) \<or> (\<exists>vs. p_elems n cs = Some (vs, r))
     \<or> (\<exists>kvs. p_members n cs = Some (kvs, r)) \<or> (\<exists>l. lex_number (c # cs) = Some (l, r))
     \<or> length r \<le> length cs"
      using p tl by (auto split: if_splits simp del: startsWith.simps)
  qed
qed

lemma skip_ws_Cons: "skip_ws u = c # cs \<Longrightarrow> length cs < length u"
  using skip_ws_length [of u] by simp

lemma parse_length:
  "(\<forall>v r. p_value n s = Some (v, r) \<longrightarrow> length r < length s)
   \<and> (\<forall>vs r. p_elems n s = Some (vs, r) \<longrightarrow> length r < length s)
   \<and> (\<forall>kvs r. p_members n s = Some (kvs, r) \<longrightarrow> length r < length s)"
proof (induction n arbitrary: s)
  case (Suc n)
  note val = Suc.IH [THEN conjunct1, rule_format]
    and elems = Suc.IH [THEN conjunct2, THEN conjunct1, rule_format]
    and members = Suc.IH [THEN conjunct2, THEN conjunct2, rule_format]
  have "length r < length s" if p: "p_value (Suc n) s = Some (v, r)" for v r
    using p
  proof (cases rule: p_value_cases)
    case (1 c cs)
    from 1(2) have "length r \<le> length cs"
      by (auto dest: p_chars_length elems members lex_number_length)
    with skip_ws_Cons [OF 1(1)] show ?thesis by simp
  qed
  moreover have "length r < length s" if p: "p_elems (Suc n) s = Some (vs, r)" for vs r
    using p
  proof (cases rule: p_elems_cases)
    case (1 v r1 c r')
    from 1(3) have "length r \<le> length r'" by (auto dest: elems)
    with val [OF 1(1)] skip_ws_Cons [OF 1(2)] show ?thesis by simp
  qed
  moreover have "length r < length s" if p: "p_members (Suc n) s = Some (kvs, r)" for kvs r
    using p
  proof (cases rule: p_members_cases)
    case (1 q t k r0 col r1 v r2 c r')
    from 1(6) have "length r \<le> length r'" by (auto dest: members)
    with skip_ws_Cons [OF 1(1)] p_chars_length [OF 1(2)] skip_ws_Cons [OF 1(3)] val [OF 1(4)]
      skip_ws_Cons [OF 1(5)] show ?thesis by simp
  qed
  ultimately show ?case by blast
qed simp

lemmas p_value_length = parse_length [THEN conjunct1, rule_format]

lemma p_elems_cong:
  assumes "p_value m s = p_value n s"
    and "\<And>v r c r'. p_value n s = Some (v, r) \<Longrightarrow> skip_ws r = c # r' \<Longrightarrow> p_elems m r' = p_elems n r'"
  shows "p_elems (Suc m) s = p_elems (Suc n) s"
proof (cases "p_value n s")
  case (Some x)
  obtain v r where x: "x = (v, r)" by (rule prod.exhaust)
  show ?thesis
    using assms(2) [of v r] Some
    by (cases "skip_ws r") (simp_all add: assms(1) Some x)
qed (simp add: assms(1))

lemma p_members_cong:
  assumes "\<And>q t k r0 col r1. skip_ws s = q # t \<Longrightarrow> p_chars t = Some (k, r0) \<Longrightarrow>
      skip_ws r0 = col # r1 \<Longrightarrow> p_value m r1 = p_value n r1"
    and "\<And>q t k r0 col r1 v r2 c r'. skip_ws s = q # t \<Longrightarrow> p_chars t = Some (k, r0) \<Longrightarrow>
      skip_ws r0 = col # r1 \<Longrightarrow> p_value n r1 = Some (v, r2) \<Longrightarrow> skip_ws r2 = c # r' \<Longrightarrow>
      p_members m r' = p_members n r'"
  shows "p_members (Suc m) s = p_members (Suc n) s"
proof (cases "skip_ws s")
  case q: (Cons q t)
  show ?thesis
  proof (cases "p_chars t")
    case (Some x)
    obtain k r0 where x: "x = (k, r0)" by (rule prod.exhaust)
    show ?thesis
    proof (cases "skip_ws r0")
      case col: (Cons col r1)
      note v = assms(1) [OF q Some [unfolded x] col]
      show ?thesis
      proof (cases "p_value n r1")
        case y: (Some y)
        obtain v r2 where yv: "y = (v, r2)" by (rule prod.exhaust)
        show ?thesis
          using assms(2) [OF q Some [unfolded x] col y [unfolded yv]]
          by (cases "skip_ws r2") (simp_all add: q Some x col v y yv)
      qed (simp add: q Some x col v)
    qed (simp add: q Some x)
  qed (simp add: q)
qed simp

lemma parse_fuel:
  "(2 * length s + 1 \<le> n \<longrightarrow> p_value (Suc n) s = p_value n s)
   \<and> (2 * length s + 2 \<le> n \<longrightarrow> p_elems (Suc n) s = p_elems n s)
   \<and> (2 * length s + 1 \<le> n \<longrightarrow> p_members (Suc n) s = p_members n s)"
proof (induction n arbitrary: s)
  case (Suc n)
  note val = Suc.IH [THEN conjunct1, rule_format]
    and elems = Suc.IH [THEN conjunct2, THEN conjunct1, rule_format]
    and members = Suc.IH [THEN conjunct2, THEN conjunct2, rule_format]
  have "p_value (Suc (Suc n)) s = p_value (Suc n) s" if n: "2 * length s + 1 \<le> Suc n"
  proof (cases "skip_ws s")
    case (Cons c cs)
    have "p_elems (Suc n) cs = p_elems n cs" "p_members (Suc n) cs = p_members n cs"
      using skip_ws_Cons [OF Cons] n by (simp_all only: elems members)
    then show ?thesis
      unfolding p_value.simps(2) Cons list.case by (simp only:)
  qed simp
  moreover have "p_elems (Suc (Suc n)) s = p_elems (Suc n) s" if n: "2 * length s + 2 \<le> Suc n"
  proof (rule p_elems_cong)
    show "p_value (Suc n) s = p_value n s" by (rule val) (use n in simp)
    fix v r c r' assume "p_value n s = Some (v, r)" "skip_ws r = c # r'"
    from p_value_length [OF this(1)] skip_ws_Cons [OF this(2)]
    show "p_elems (Suc n) r' = p_elems n r'" by (intro elems) (use n in simp)
  qed
  moreover have "p_members (Suc (Suc n)) s = p_members (Suc n) s" if n: "2 * length s + 1 \<le> Suc n"
  proof (rule p_members_cong)
    fix q t k r0 col r1
    assume h: "skip_ws s = q # t" "p_chars t = Some (k, r0)" "skip_ws r0 = col # r1"
    note l = skip_ws_Cons [OF h(1)] p_chars_length [OF h(2)] skip_ws_Cons [OF h(3)]
    then show "p_value (Suc n) r1 = p_value n r1" by (intro val) (use n in simp)
    fix v r2 c r' assume "p_value n r1 = Some (v, r2)" "skip_ws r2 = c # r'"
    from l p_value_length [OF this(1)] skip_ws_Cons [OF this(2)]
    show "p_members (Suc n) r' = p_members n r'" by (intro members) (use n in simp)
  qed
  ultimately show ?case by blast
qed simp

lemma p_value_fuel:
  assumes "2 * length s + 1 \<le> n" "n \<le> m"
  shows "p_value m s = p_value n s"
  using assms(2) assms(1)
proof (induction m rule: dec_induct)
  case (step k)
  then have "2 * length s + 1 \<le> k" by simp
  then have "p_value (Suc k) s = p_value k s" by (rule parse_fuel [THEN conjunct1, rule_format])
  with step show ?case by (simp del: p_value.simps)
qed simp

section \<open>String literals\<close>

lemma hex_val_digit: "d < 16 \<Longrightarrow> hex_val (hex_digit d) = Some d"
  by (simp add: hex_val_def hex_digit_def Let_def)

lemma radix_control:
  assumes "n < 32"
  shows "radix_val 16 0 [CHR ''0'', CHR ''0'', hex_digit (n div 16), hex_digit (n mod 16)] = Some n"
proof -
  have "n div 16 < 16" "n mod 16 < 16" using assms by simp_all
  moreover have "hex_val CHR ''0'' = Some 0" by (simp add: hex_val_def)
  ultimately show ?thesis by (simp add: hex_val_digit)
qed

lemma char_eq_of_nat: "of_char c = n \<longleftrightarrow> c = char_of (n :: nat)" if "n < 256"
  using that by (auto simp: of_char_of)

lemma control_chars:
  "char_of (8 :: nat) = CHR 0x08" "char_of (9 :: nat) = CHR 0x09" "char_of (10 :: nat) = CHR 0x0A"
  "char_of (12 :: nat) = CHR 0x0C" "char_of (13 :: nat) = CHR 0x0D"
  by code_simp+

lemma append_single: "(@) [c] = Cons c"
  by (simp add: fun_eq_iff)

lemma p_chars_esc: "p_chars (esc_char c @ s) = map_option (apfst (Cons c)) (p_chars s)"
proof -
  let ?n = "of_char c :: nat"
  consider (special) "c = quote \<or> c = backslash"
    | (short) "?n \<in> {8, 9, 10, 12, 13}" "c \<noteq> quote" "c \<noteq> backslash"
    | (control) "?n < 32" "?n \<notin> {8, 9, 10, 12, 13}" "c \<noteq> quote" "c \<noteq> backslash"
    | (plain) "\<not> ?n < 32" "c \<noteq> quote" "c \<noteq> backslash"
    by blast
  then show ?thesis
  proof cases
    case special
    then show ?thesis by (auto simp: esc_char_def simple_escape_def quote_def backslash_def)
  next
    case short
    then have "c \<in> {CHR 0x08, CHR 0x09, CHR 0x0A, CHR 0x0C, CHR 0x0D}"
      by (auto simp: char_eq_of_nat control_chars)
    then show ?thesis by (auto simp: esc_char_def simple_escape_def quote_def backslash_def)
  next
    case control
    then have e: "esc_char c = [backslash, CHR ''u'', CHR ''0'', CHR ''0'', hex_digit (?n div 16), hex_digit (?n mod 16)]"
      by (simp add: esc_char_def Let_def)
    have "simple_escape (CHR ''u'') = None" "backslash \<noteq> quote"
      by (simp_all add: simple_escape_def quote_def backslash_def)
    moreover have "code_unit ?n = [c]" using control(1) by (simp add: code_unit_def)
    ultimately show ?thesis
      using radix_control [OF control(1)] by (simp add: e append_single del: radix_val.simps)
  next
    case plain
    then show ?thesis by (auto simp: esc_char_def Let_def)
  qed
qed

lemma p_chars_quoted: "p_chars (concat (map esc_char s) @ quote # r) = Some (s, r)"
  by (induction s) (simp_all add: p_chars_esc)

section \<open>Numerals\<close>

definition delim :: "string \<Rightarrow> bool" where
  "delim s \<longleftrightarrow> s = [] \<or> (\<not> is_digit (hd s) \<and> hd s \<notin> set ''.eE+-'')"

lemma while_app:
  assumes "s = [] \<or> \<not> P (hd s)"
  shows "takeWhile P (l @ s) = takeWhile P l" "dropWhile P (l @ s) = dropWhile P l @ s"
proof -
  have "takeWhile P s = []" "dropWhile P s = s" using assms by (cases s; simp)+
  then show "takeWhile P (l @ s) = takeWhile P l" "dropWhile P (l @ s) = dropWhile P l @ s"
    by (induction l) simp_all
qed

lemma delim_digits: "delim s \<Longrightarrow> s = [] \<or> \<not> is_digit (hd s)"
  by (auto simp: delim_def)

lemmas digits_app = while_app [of _ is_digit, OF delim_digits]

lemma is_digit_0: "is_digit CHR ''0''"
  by (simp add: is_digit_def)

lemma lex_int_app: "delim s \<Longrightarrow> lex_int (l @ s) = apsnd (\<lambda>r. r @ s) (lex_int l)"
proof (cases l)
  case Nil
  assume "delim s"
  with Nil is_digit_0 show ?thesis
    by (cases s) (simp_all add: lex_int_def delim_def, metis)
next
  case (Cons c cs)
  assume "delim s"
  note d = digits_app [OF this, of "c # cs", unfolded append_Cons]
  show ?thesis
    unfolding lex_int_def Cons append_Cons list.case d by (simp only: apsnd_conv if_distrib [of "apsnd _"])
qed

lemma lex_frac_app: "delim s \<Longrightarrow> lex_frac (l @ s) = apsnd (\<lambda>r. r @ s) (lex_frac l)"
proof (cases l)
  case Nil
  assume "delim s"
  with Nil show ?thesis by (cases s) (simp_all add: lex_frac_def delim_def)
next
  case (Cons c cs)
  assume "delim s"
  note d = digits_app [OF this, of cs]
  show ?thesis
    unfolding lex_frac_def Cons append_Cons list.case d by (simp only: apsnd_conv if_distrib [of "apsnd _"] append_Cons)
qed

lemma lex_sign_app: "delim s \<Longrightarrow> lex_sign (l @ s) = apsnd (\<lambda>r. r @ s) (lex_sign l)"
  by (cases l; cases s) (simp_all add: lex_sign_def delim_def)

lemma lex_exp_app: "delim s \<Longrightarrow> lex_exp (l @ s) = apsnd (\<lambda>r. r @ s) (lex_exp l)"
proof (cases l)
  case Nil
  assume "delim s"
  with Nil show ?thesis by (cases s) (simp_all add: lex_exp_def delim_def split: prod.split)
next
  case (Cons c cs)
  assume s: "delim s"
  obtain sg r where sg: "lex_sign cs = (sg, r)" by (rule prod.exhaust)
  note d = digits_app [OF s, of r]
  have sg': "lex_sign (cs @ s) = (sg, r @ s)" by (simp add: lex_sign_app [OF s] sg)
  show ?thesis
    unfolding lex_exp_def Cons append_Cons list.case sg sg' Let_def prod.case d
    by (simp only: apsnd_conv if_distrib [of "apsnd _"] append_Cons)
qed

lemma lex_number_app:
  assumes "delim s"
  shows "lex_number (l @ s) = map_option (apsnd (\<lambda>r. r @ s)) (lex_number l)"
proof -
  define neg where "neg u = (case u of c # cs \<Rightarrow> if c = CHR ''-'' then ([c], cs) else ([], u)
      | [] \<Rightarrow> ([], []))" for u :: string
  have neg: "neg (l @ s) = apsnd (\<lambda>r. r @ s) (neg l)"
    using assms by (cases l; cases s) (auto simp: neg_def delim_def)
  obtain sg r0 where sg: "neg l = (sg, r0)" by (rule prod.exhaust)
  obtain i r1 where i: "lex_int r0 = (i, r1)" by (rule prod.exhaust)
  obtain f r2 where f: "lex_frac r1 = (f, r2)" by (rule prod.exhaust)
  obtain e r3 where e: "lex_exp r2 = (e, r3)" by (rule prod.exhaust)
  show ?thesis
    unfolding lex_number_def neg_def [symmetric]
    by (simp add: neg sg i f e lex_int_app [OF assms] lex_frac_app [OF assms] lex_exp_app [OF assms])
qed

section \<open>Reading back what is printed\<close>

definition num_ok :: "num \<Rightarrow> bool" where
  "num_ok r \<longleftrightarrow> lex_number (num_str r) = Some (num_str r, []) \<and> Number_str (num_str r) = Fin r"

fun json_ok :: "jsval \<Rightarrow> bool" where
  "json_ok JUndefined = False"
| "json_ok JNull = True"
| "json_ok (JBool b) = True"
| "json_ok (JNum n) = (case n of Fin r \<Rightarrow> num_ok r | _ \<Rightarrow> False)"
| "json_ok (JStr s) = True"
| "json_ok (JArr vs) = list_all json_ok vs"
| "json_ok (JObj kvs) = (list_all (\<lambda>(k, v). json_ok v) kvs \<and> obj_of kvs = kvs)"

lemma skip_ws_app: "list_all json_ws w \<Longrightarrow> skip_ws (w @ s) = skip_ws s"
  by (induction w) (simp_all add: skip_ws_def)

lemma skip_ws_nonws: "\<not> json_ws c \<Longrightarrow> skip_ws (c # s) = c # s"
  by (simp add: skip_ws_def)

lemma p_value_skip: "list_all json_ws w \<Longrightarrow> p_value n (w @ s) = p_value n s"
  by (cases n) (simp_all only: p_value.simps skip_ws_app)

lemma p_elems_skip: "list_all json_ws w \<Longrightarrow> p_elems n (w @ s) = p_elems n s"
  by (cases n) (simp_all only: p_elems.simps p_value_skip)

lemma p_members_skip: "list_all json_ws w \<Longrightarrow> p_members n (w @ s) = p_members n s"
  by (cases n) (simp_all only: p_members.simps skip_ws_app)

lemma newline_ws: "list_all json_ws ind \<Longrightarrow> list_all json_ws (newline gap ind)"
  by (simp add: newline_def json_ws_def)

text \<open>A parser reads a value when it does so from some amount of fuel on.\<close>

definition reads :: "(nat \<Rightarrow> string \<Rightarrow> ('a \<times> string) option) \<Rightarrow> string \<Rightarrow> 'a \<Rightarrow> string \<Rightarrow> bool" where
  "reads p s x r \<longleftrightarrow> (\<exists>N. \<forall>n \<ge> N. p n s = Some (x, r))"

lemma readsI: "(\<And>n. p (Suc n) s = Some (x, r)) \<Longrightarrow> reads p s x r"
  unfolding reads_def by (rule exI [of _ 1]) (metis Suc_le_D One_nat_def)

lemma reads_step:
  assumes "reads p s x r" and step: "\<And>n. p n s = Some (x, r) \<Longrightarrow> q (Suc n) t = Some (y, u)"
  shows "reads q t y u"
proof -
  from assms(1) obtain N where N: "\<forall>n \<ge> N. p n s = Some (x, r)" unfolding reads_def ..
  have "q n t = Some (y, u)" if "n \<ge> Suc N" for n
    using that N step by (cases n) auto
  then show ?thesis unfolding reads_def by blast
qed

lemma reads_step2:
  assumes "reads p s x r" "reads q t y u"
    and step: "\<And>n. p n s = Some (x, r) \<Longrightarrow> q n t = Some (y, u) \<Longrightarrow> q (Suc n) s' = Some (z, w)"
  shows "reads q s' z w"
proof -
  from assms(1) obtain N where N: "\<forall>n \<ge> N. p n s = Some (x, r)" unfolding reads_def ..
  from assms(2) obtain M where M: "\<forall>n \<ge> M. q n t = Some (y, u)" unfolding reads_def ..
  have "q n s' = Some (z, w)" if "n \<ge> Suc (max N M)" for n
    using that N M step by (cases n) auto
  then show ?thesis unfolding reads_def by blast
qed

lemma reads_elems_last:
  assumes "reads p_value s v (w @ CHR '']'' # r)" "list_all json_ws w"
  shows "reads p_elems s [v] r"
  by (rule reads_step [OF assms(1)]) (simp add: skip_ws_app [OF assms(2)] skip_ws_nonws json_ws_def)

lemma reads_elems_Cons:
  assumes "reads p_value s v (CHR '','' # t)" "reads p_elems t vs r"
  shows "reads p_elems s (v # vs) r"
  by (rule reads_step2 [OF assms]) (simp add: skip_ws_nonws json_ws_def)

lemma json_ws_delim: "json_ws c \<Longrightarrow> delim (c # s)"
  by (auto simp: json_ws_def delim_def is_digit_def)

lemma delim_ws: "list_all json_ws w \<Longrightarrow> delim t \<Longrightarrow> delim (w @ t)"
  by (cases w) (simp_all add: json_ws_delim)

lemma reads_elems:
  assumes "vs \<noteq> []" and sep: "list_all json_ws nl" and w: "list_all json_ws w"
    and each: "\<And>v t. v \<in> set vs \<Longrightarrow> delim t \<Longrightarrow> reads p_value (f v @ t) v t"
  shows "reads p_elems (join ('','' @ nl) (map f vs) @ w @ CHR '']'' # r) vs r"
  using assms(1) each
proof (induction vs)
  case (Cons v vs)
  show ?case
  proof (cases "vs = []")
    case True
    have "delim (w @ CHR '']'' # r)"
      by (rule delim_ws [OF w]) (simp add: delim_def is_digit_def)
    with Cons.prems(2) have "reads p_value (f v @ w @ CHR '']'' # r) v (w @ CHR '']'' # r)" by simp
    from reads_elems_last [OF this w] True show ?thesis by simp
  next
    case False
    let ?X = "nl @ join ('','' @ nl) (map f vs) @ w @ CHR '']'' # r"
    have rest: "reads p_elems ?X vs r"
      using Cons.IH False Cons.prems(2) by (simp add: reads_def p_elems_skip [OF sep])
    have "delim (CHR '','' # ?X)" by (simp add: delim_def is_digit_def)
    with Cons.prems(2) have "reads p_value (f v @ CHR '','' # ?X) v (CHR '','' # ?X)" by simp
    from reads_elems_Cons [OF this rest] False show ?thesis by (simp add: join_Cons)
  qed
qed simp

text \<open>One member of an object, as it is printed.\<close>

definition member :: "string \<Rightarrow> (jsval \<Rightarrow> string) \<Rightarrow> string \<times> jsval \<Rightarrow> string" where
  "member sp f kv = quote_str (fst kv) @ CHR '':'' # sp @ f (snd kv)"

lemma p_members_member:
  assumes "list_all json_ws sp"
  shows "p_members (Suc n) (member sp f (k, v) @ t) =
    (case p_value n (f v @ t) of
       None \<Rightarrow> None
     | Some (v', r2) \<Rightarrow>
         (case skip_ws r2 of
            [] \<Rightarrow> None
          | c # r' \<Rightarrow>
              if c = CHR '','' then map_option (apfst (Cons (k, v'))) (p_members n r')
              else if c = CHR ''}'' then Some ([(k, v')], r') else None))"
proof -
  have q: "skip_ws (member sp f (k, v) @ t)
      = quote # concat (map esc_char k) @ quote # CHR '':'' # sp @ f v @ t"
    by (simp add: member_def quote_str_def skip_ws_def json_ws_def quote_def)
  have c: "skip_ws (CHR '':'' # u) = CHR '':'' # u" for u by (simp add: skip_ws_def json_ws_def)
  show ?thesis
    unfolding p_members.simps(2) q list.case p_chars_quoted option.case prod.case c
      p_value_skip [OF assms] by simp
qed

lemma reads_members:
  assumes "kvs \<noteq> []" and sep: "list_all json_ws nl" and w: "list_all json_ws w" and sp: "list_all json_ws sp"
    and each: "\<And>kv t. kv \<in> set kvs \<Longrightarrow> delim t \<Longrightarrow> reads p_value (f (snd kv) @ t) (snd kv) t"
  shows "reads p_members (join ('','' @ nl) (map (member sp f) kvs) @ w @ CHR ''}'' # r) kvs r"
  using assms(1) each
proof (induction kvs)
  case (Cons kv kvs)
  obtain k v where kv: "kv = (k, v)" by (rule prod.exhaust)
  have val: "reads p_value (f v @ t) v t" if "delim t" for t
    using Cons.prems(2) [of kv] that kv by simp
  show ?case
  proof (cases "kvs = []")
    case True
    have "delim (w @ CHR ''}'' # r)"
      by (rule delim_ws [OF w]) (simp add: delim_def is_digit_def)
    note v = val [OF this]
    have c: "skip_ws (CHR ''}'' # u) = CHR ''}'' # u" for u by (simp add: skip_ws_def json_ws_def)
    show ?thesis
      by (rule reads_step [OF v])
        (simp only: True kv list.map join.simps p_members_member [OF sp] option.case prod.case
          skip_ws_app [OF w] c list.case, simp)
  next
    case False
    let ?X = "nl @ join ('','' @ nl) (map (member sp f) kvs) @ w @ CHR ''}'' # r"
    have rest: "reads p_members ?X kvs r"
      using Cons.IH False Cons.prems(2) by (simp add: reads_def p_members_skip [OF sep])
    have d: "delim (CHR '','' # ?X)" by (simp add: delim_def is_digit_def)
    have eq: "join ('','' @ nl) (map (member sp f) (kv # kvs)) @ w @ CHR ''}'' # r
        = member sp f (k, v) @ CHR '','' # nl @ join ('','' @ nl) (map (member sp f) kvs) @ w @ CHR ''}'' # r"
      using False by (simp add: join_Cons kv)
    have c: "skip_ws (CHR '','' # u) = CHR '','' # u" for u by (simp add: skip_ws_def json_ws_def)
    show ?thesis
      unfolding eq
      by (rule reads_step2 [OF val [OF d] rest])
        (simp only: p_members_member [OF sp] option.case prod.case c list.case, simp add: kv)
  qed
qed simp

lemma lex_number_start:
  assumes "lex_number s = Some (l, r)"
  obtains c cs where "s = c # cs" "is_digit c \<or> c = CHR ''-''"
proof (cases s)
  case Nil
  with assms show ?thesis by (simp add: lex_number_def lex_int_def)
next
  case (Cons c cs)
  have "is_digit c \<or> c = CHR ''-''"
  proof (rule ccontr)
    assume c: "\<not> (is_digit c \<or> c = CHR ''-'')"
    then have "lex_int s = ([], s)" using is_digit_0 by (auto simp: lex_int_def Cons)
    with c assms show False by (simp add: lex_number_def Cons split: prod.splits)
  qed
  with Cons show ?thesis by (rule that)
qed

lemma number_char:
  assumes "is_digit c \<or> c = CHR ''-''"
  shows "\<not> json_ws c" "c \<noteq> quote" "c \<notin> set ''[]{}tfn''"
  using assms by (auto simp: json_ws_def quote_def is_digit_def)

lemma reads_number:
  assumes "num_ok r" "delim t"
  shows "reads p_value (num_str r @ t) (JNum (Fin r)) t"
proof (rule readsI)
  fix n
  from assms(1) have lex: "lex_number (num_str r) = Some (num_str r, [])" and val: "Number_str (num_str r) = Fin r"
    by (simp_all add: num_ok_def)
  obtain c cs where c: "num_str r = c # cs" and d: "is_digit c \<or> c = CHR ''-''"
    using lex by (rule lex_number_start)
  have "lex_number (num_str r @ t) = Some (num_str r, t)"
    by (simp add: lex_number_app [OF assms(2)] lex)
  then show "p_value (Suc n) (num_str r @ t) = Some (JNum (Fin r), t)"
    using number_char [OF d] val unfolding c by (simp add: skip_ws_nonws)
qed

lemma print_number_start:
  assumes "num_ok r"
  shows "num_str r \<noteq> [] \<and> hd (num_str r) \<notin> set '']}'' \<and> \<not> json_ws (hd (num_str r))"
proof -
  have lex: "lex_number (num_str r) = Some (num_str r, [])" using assms by (simp add: num_ok_def)
  obtain c cs where c: "num_str r = c # cs" and d: "is_digit c \<or> c = CHR ''-''"
    using lex by (rule lex_number_start)
  from number_char [OF d] show ?thesis by (simp add: c)
qed

lemma print_start:
  assumes "json_ok v"
  shows "print_json gap ind v \<noteq> [] \<and> hd (print_json gap ind v) \<notin> set '']}''
    \<and> \<not> json_ws (hd (print_json gap ind v))"
proof (cases v)
  case (JNum m)
  with assms show ?thesis by (cases m) (simp_all add: print_number_start [simplified])
next
  case (JObj kvs)
  show ?thesis
    unfolding JObj print_json.simps Let_def by (simp split: if_split) (simp add: json_ws_def)
qed (use assms in \<open>simp_all add: json_ws_def quote_def quote_str_def\<close>)

lemma print_JObj:
  assumes "\<forall>kv \<in> set kvs. json_ok (snd kv)"
  shows "print_json gap ind (JObj kvs) =
    (if kvs = [] then ''{}''
     else ''{'' @ newline gap (ind @ gap)
       @ join ('','' @ newline gap (ind @ gap))
           (map (member (if gap = [] then [] else '' '') (print_json gap (ind @ gap))) kvs)
       @ newline gap ind @ ''}'')"
proof -
  have "concat (map (\<lambda>(k, v). if v = JUndefined then []
        else [quote_str k @ '':'' @ (if gap = [] then [] else '' '') @ print_json gap (ind @ gap) v]) kvs)
      = map (member (if gap = [] then [] else '' '') (print_json gap (ind @ gap))) kvs"
    using assms
  proof (induction kvs)
    case (Cons kv kvs)
    have "snd kv \<noteq> JUndefined" using Cons.prems by auto
    with Cons show ?case by (cases kv) (simp add: member_def)
  qed simp
  then show ?thesis unfolding print_json.simps Let_def by simp
qed

lemma reads_print:
  assumes "list_all json_ws gap"
  shows "json_ok v \<Longrightarrow> list_all json_ws ind \<Longrightarrow> delim t \<Longrightarrow> reads p_value (print_json gap ind v @ t) v t"
proof (induction v arbitrary: ind t)
  case (JNum m)
  then obtain r where "m = Fin r" "num_ok r" by (cases m) auto
  with reads_number JNum.prems(3) show ?case by simp
next
  case (JStr s)
  show ?case
    by (rule readsI) (simp add: quote_str_def skip_ws_def json_ws_def p_chars_quoted quote_def [symmetric],
      simp add: quote_def)
next
  case (JArr vs)
  let ?nl = "newline gap (ind @ gap)" and ?f = "print_json gap (ind @ gap)"
  show ?case
  proof (cases "vs = []")
    case True
    show ?thesis
      by (rule readsI) (simp add: True skip_ws_def json_ws_def quote_def)
  next
    case False
    have ws: "list_all json_ws (ind @ gap)" using JArr.prems(2) assms by simp
    have el: "reads p_elems (join ('','' @ ?nl) (map ?f vs) @ newline gap ind @ CHR '']'' # t) vs t"
      using False
    proof (rule reads_elems)
      fix v t' assume v: "v \<in> set vs" "delim t'"
      then show "reads p_value (?f v @ t') v t'"
        using JArr.IH [OF v(1) _ ws v(2)] JArr.prems(1) by (simp add: list_all_iff)
    qed (rule newline_ws [OF ws], rule newline_ws [OF JArr.prems(2)])
    let ?X = "join ('','' @ ?nl) (map ?f vs) @ newline gap ind @ CHR '']'' # t"
    obtain v vs' where vs: "vs = v # vs'" using False by (cases vs) auto
    have "json_ok v" using JArr.prems(1) vs by simp
    from print_start [OF this, of gap "ind @ gap"]
    obtain c cs where c: "?f v = c # cs" "c \<noteq> CHR '']''" "\<not> json_ws c"
      by (cases "?f v") simp_all
    have "\<exists>u. ?X = c # u" using c(1) by (cases "vs' = []") (simp_all add: vs join_Cons)
    then have start: "\<not> startsWith (skip_ws (?nl @ ?X)) '']''"
      using c(2,3) by (auto simp: skip_ws_app [OF newline_ws [OF ws]] skip_ws_nonws)
    have eq: "print_json gap ind (JArr vs) @ t = CHR ''['' # ?nl @ ?X" using False by simp
    have b: "skip_ws (CHR ''['' # u) = CHR ''['' # u" "CHR ''['' \<noteq> quote" for u
      by (simp_all add: skip_ws_def json_ws_def quote_def)
    show ?thesis
      unfolding eq
      by (rule reads_step [OF el])
        (simp only: p_value.simps b list.case if_False start p_elems_skip [OF newline_ws [OF ws]], simp)
  qed
next
  case (JObj kvs)
  let ?nl = "newline gap (ind @ gap)" and ?f = "print_json gap (ind @ gap)"
    and ?sp = "if gap = [] then [] else '' ''"
  have ok: "\<forall>kv \<in> set kvs. json_ok (snd kv)" and obj: "obj_of kvs = kvs"
    using JObj.prems(1) by (auto simp: list_all_iff)
  note print = print_JObj [OF ok, of gap ind]
  show ?case
  proof (cases "kvs = []")
    case True
    show ?thesis
      unfolding print using True
      by (intro readsI) (simp add: skip_ws_def json_ws_def quote_def)
  next
    case False
    have ws: "list_all json_ws (ind @ gap)" using JObj.prems(2) assms by simp
    have sp: "list_all json_ws ?sp" by (simp add: json_ws_def)
    have mem: "reads p_members (join ('','' @ ?nl) (map (member ?sp ?f) kvs) @ newline gap ind @ CHR ''}'' # t) kvs t"
      using False
    proof (rule reads_members)
      fix kv t' assume kv: "kv \<in> set kvs" "delim t'"
      have "snd kv \<in> Basic_BNFs.snds kv" by (cases kv) (simp add: snds.simps)
      from JObj.IH [OF kv(1) this bspec [OF ok kv(1)] ws kv(2)]
      show "reads p_value (?f (snd kv) @ t') (snd kv) t'" .
    qed (rule newline_ws [OF ws], rule newline_ws [OF JObj.prems(2)], rule sp)
    let ?X = "join ('','' @ ?nl) (map (member ?sp ?f) kvs) @ newline gap ind @ CHR ''}'' # t"
    obtain kv kvs' where kvs: "kvs = kv # kvs'" using False by (cases kvs) auto
    have "\<exists>u. ?X = quote # u"
      by (cases "kvs' = []") (simp_all add: kvs join_Cons member_def quote_str_def)
    then obtain u where u: "?X = quote # u" ..
    have start: "\<not> startsWith (skip_ws (?nl @ ?X)) ''}''"
      unfolding skip_ws_app [OF newline_ws [OF ws]] u by (simp add: skip_ws_def json_ws_def quote_def)
    have eq: "print_json gap ind (JObj kvs) @ t = CHR ''{'' # ?nl @ ?X" unfolding print using False by simp
    have b: "skip_ws (CHR ''{'' # u) = CHR ''{'' # u" "CHR ''{'' \<noteq> quote" "CHR ''{'' \<noteq> CHR ''[''" for u
      by (simp_all add: skip_ws_def json_ws_def quote_def)
    show ?thesis
      unfolding eq
      by (rule reads_step [OF mem])
        (simp only: p_value.simps b list.case if_False start p_members_skip [OF newline_ws [OF ws]],
         simp add: obj)
  qed
qed (simp_all add: readsI skip_ws_def json_ws_def quote_def)


text \<open>The round trip: with white space for indentation, what is printed is read back.\<close>

lemma parse_stringify:
  assumes "json_ok v" "list_all json_ws gap"
  shows "JSON_parse (JSON_stringify gap v) = Some v"
proof -
  let ?s = "JSON_stringify gap v"
  have "reads p_value (?s @ []) v []"
    unfolding JSON_stringify_def by (rule reads_print [OF assms(2,1)]) (simp_all add: delim_def)
  then obtain N where N: "\<forall>n \<ge> N. p_value n ?s = Some (v, [])" unfolding reads_def by auto
  have "p_value (max N (2 * length ?s + 2)) ?s = p_value (2 * length ?s + 2) ?s"
    by (rule p_value_fuel) simp_all
  with N have "p_value (2 * length ?s + 2) ?s = Some (v, [])" by (metis max.cobounded1)
  then show ?thesis unfolding JSON_parse_def by (simp add: skip_ws_def)
qed


text \<open>An object whose keys are different and not array indices keeps its order.\<close>

lemma obj_of_plain:
  assumes "distinct (map fst kvs)" "\<forall>k \<in> set (map fst kvs). \<not> is_index k"
  shows "obj_of kvs = kvs"
proof -
  have "foldl (\<lambda>o' (k, v). obj_set k v o') o0 kvs = o0 @ kvs"
    if "distinct (map fst (o0 @ kvs))" for o0
    using that assms
  proof (induction kvs arbitrary: o0)
    case (Cons kv kvs)
    obtain k v where kv: "kv = (k, v)" by (rule prod.exhaust)
    have "obj_set k v o0 = o0 @ [kv]"
      using Cons.prems by (auto simp: obj_set_def kv image_iff)
    then show ?case using Cons.IH [of "o0 @ [kv]"] Cons.prems by (simp add: kv)
  qed simp
  from this [of "[]"] assms(1) show ?thesis by (simp add: obj_of_def)
qed

lemma json_ok_obj:
  assumes "distinct (map fst kvs)" "list_all (\<lambda>(k, v). \<not> is_index k \<and> json_ok v) kvs"
  shows "json_ok (JObj kvs)"
proof -
  have "obj_of kvs = kvs" using assms by (intro obj_of_plain) (auto simp: list_all_iff)
  with assms(2) show ?thesis by (auto simp: list_all_iff)
qed

lemma brace_not_ws: "\<not> is_ws CHR ''{''"
  by (simp add: is_ws_def)

lemma bracket_not_ws: "\<not> is_ws CHR ''[''"
  by (simp add: is_ws_def)

end
