(* ===== verification/Advanced_Custom_Text.thy ===== *)
theory Advanced_Custom_Text
  imports Advanced_Custom_Valid Js_Json_Laws
begin

text \<open>
  The JSON text of a custom channel's routing table: \<^verbatim>\<open>parseAdvancedCustomConfig\<close> and
  \<^verbatim>\<open>stringifyAdvancedCustomConfig\<close> of \<^verbatim>\<open>advanced-custom.ts\<close>, and the summary the channel card shows.
  The parser casts the parsed value to the configuration type and normalises it without looking at
  the types of its fields, so here it works on values of unknown type, and a method called on a
  value without it makes the result \<^const>\<open>None\<close> (the exception is caught). \<open>config_raw_json\<close>
  shows that on a value that has the declared types this is the normalisation of the typed model.
\<close>

section \<open>Normalising a value of unknown type\<close>

fun map_ok :: "('a \<Rightarrow> 'b option) \<Rightarrow> 'a list \<Rightarrow> 'b list option" where
  "map_ok f [] = Some []"
| "map_ok f (x # xs) =
     (case f x of
        None \<Rightarrow> None
      | Some y \<Rightarrow> map_option (Cons y) (map_ok f xs))"

definition models_raw :: "jsval \<Rightarrow> string list option" where
  "models_raw ms = (case ms of JArr vs \<Rightarrow> map_option nonempty_strs (map_ok js_trim vs) | _ \<Rightarrow> Some [])"

definition auth_raw :: "jsval \<Rightarrow> jsval" where
  "auth_raw a = JObj (defined
     [(''type'', field a ''type''),
      (''name'', js_or (field a ''name'') (JStr [])),
      (''value'', js_or (field a ''value'') (JStr []))])"

definition route_raw :: "jsval \<Rightarrow> jsval option" where
  "route_raw route =
     (case get_prop route ''incoming_path'' of
        None \<Rightarrow> None
      | Some incoming \<Rightarrow>
          (case (js_trim (js_or (field route ''upstream_path'') (JStr [])), models_raw (field route ''models'')) of
             (Some upstream, Some ms) \<Rightarrow>
               Some (JObj
                 ([(''incoming_path'', js_or incoming (JStr [])), (''upstream_path'', JStr upstream),
                   (''converter'', js_or (field route ''converter'') (JStr ''none''))]
                  @ (if ms \<noteq> [] then [(''models'', JArr (map JStr ms))] else [])
                  @ (if truthy (field route ''auth'') then [(''auth'', auth_raw (field route ''auth''))] else [])))
           | _ \<Rightarrow> None))"

definition config_raw :: "jsval \<Rightarrow> jsval option" where
  "config_raw cfg =
     map_option (\<lambda>rs. JObj [(''advanced_routes'', JArr rs)])
       (case field cfg ''advanced_routes'' of JArr rs \<Rightarrow> map_ok route_raw rs | _ \<Rightarrow> Some [])"

definition parseAdvancedCustomConfig :: "string option \<Rightarrow> jsval option" where
  "parseAdvancedCustomConfig v =
     (case v of
        None \<Rightarrow> None
      | Some s \<Rightarrow>
          if trim s = [] then None
          else
            (case JSON_parse s of
               None \<Rightarrow> None
             | Some parsed \<Rightarrow>
                 if \<not> truthy parsed \<or> \<not> typeof_object parsed \<or> is_array parsed then None
                 else config_raw parsed))"

section \<open>The value of a typed configuration\<close>

definition str_field :: "string \<Rightarrow> string option \<Rightarrow> (string \<times> jsval) list" where
  "str_field k s = (case s of None \<Rightarrow> [] | Some t \<Rightarrow> [(k, JStr t)])"

definition auth_json :: "AdvancedCustomRouteAuth \<Rightarrow> jsval" where
  "auth_json a = JObj (str_field ''type'' (auth_type a) @ str_field ''name'' (auth_name a)
     @ str_field ''value'' (auth_value a))"

definition route_json :: "AdvancedCustomRoute \<Rightarrow> jsval" where
  "route_json r = JObj
     (str_field ''incoming_path'' (incoming_path r) @ str_field ''upstream_path'' (upstream_path r)
      @ str_field ''converter'' (converter r)
      @ (case models r of None \<Rightarrow> [] | Some ms \<Rightarrow> [(''models'', JArr (map JStr ms))])
      @ (case auth r of None \<Rightarrow> [] | Some a \<Rightarrow> [(''auth'', auth_json a)]))"

definition config_json :: "AdvancedCustomConfig \<Rightarrow> jsval" where
  "config_json c = JObj
     (case advanced_routes c of None \<Rightarrow> [] | Some rs \<Rightarrow> [(''advanced_routes'', JArr (map route_json rs))])"

definition stringifyAdvancedCustomConfig :: "AdvancedCustomConfig \<Rightarrow> string" where
  "stringifyAdvancedCustomConfig cfg = JSON_stringify ''  '' (config_json (normalizeAdvancedCustomConfig cfg))"

section \<open>The summary of a channel card\<close>

record AdvancedCustomStats =
  routeCount :: nat
  stats_valid :: bool
  routeTypeLabels :: "string list"

text \<open>\<^verbatim>\<open>getAdvancedCustomStats\<close> from the parsed configuration on.\<close>

definition stats_of ::
  "(string \<Rightarrow> ParsedURL option) \<Rightarrow> AdvancedCustomConfig option \<Rightarrow> AdvancedCustomStats" where
  "stats_of newURL cfg =
     (case cfg of
        None \<Rightarrow> \<lparr>routeCount = 0, stats_valid = False, routeTypeLabels = []\<rparr>
      | Some cfg \<Rightarrow>
          (let routes = normalized_routes cfg;
               labels = fst (foldl (\<lambda>(labels, seen) route.
                   case getAdvancedCustomRouteSummaryLabel route of
                     None \<Rightarrow> (labels, seen)
                   | Some label \<Rightarrow>
                       if label = [] \<or> label \<in> set seen then (labels, seen)
                       else (labels @ [label], set_add label seen)) ([], []) routes)
           in \<lparr>routeCount = length routes,
               stats_valid =
                 validateAdvancedCustomConfig newURL (Some (normalizeAdvancedCustomConfig cfg)) = None,
               routeTypeLabels = labels\<rparr>))"

section \<open>Typed values are normalised as in the typed model\<close>

lemma map_ok_map: "(\<And>x. x \<in> set xs \<Longrightarrow> f (g x) = Some (h x)) \<Longrightarrow> map_ok f (map g xs) = Some (map h xs)"
  by (induction xs) simp_all

definition opt_json :: "string option \<Rightarrow> jsval" where
  "opt_json s = (case s of None \<Rightarrow> JUndefined | Some t \<Rightarrow> JStr t)"

lemma map_of_str_field: "map_of (str_field k s) k' = (if k' = k then map_option JStr s else None)"
  by (simp add: str_field_def split: option.split)

lemma field_map_of: "field (JObj kvs) k = (case map_of kvs k of None \<Rightarrow> JUndefined | Some v \<Rightarrow> v)"
  by simp

lemma map_add_case: "(m ++ n) k = (case n k of None \<Rightarrow> m k | Some v \<Rightarrow> Some v)"
  by (simp add: map_add_def)

lemmas json_field = field_map_of map_of_append map_add_case map_of_str_field

lemma route_field:
  "field (route_json r) ''incoming_path'' = opt_json (incoming_path r)"
  "field (route_json r) ''upstream_path'' = opt_json (upstream_path r)"
  "field (route_json r) ''converter'' = opt_json (converter r)"
  "field (route_json r) ''models'' = (case models r of None \<Rightarrow> JUndefined | Some ms \<Rightarrow> JArr (map JStr ms))"
  "field (route_json r) ''auth'' = (case auth r of None \<Rightarrow> JUndefined | Some a \<Rightarrow> auth_json a)"
  unfolding route_json_def json_field
  by (simp_all add: opt_json_def split: option.split)

lemma auth_field:
  "field (auth_json a) ''type'' = opt_json (auth_type a)"
  "field (auth_json a) ''name'' = opt_json (auth_name a)"
  "field (auth_json a) ''value'' = opt_json (auth_value a)"
  unfolding auth_json_def json_field by (simp_all add: opt_json_def split: option.split)

lemma js_or_opt: "js_or (opt_json s) (JStr d) = JStr (or_str s d)"
  by (simp add: js_or_def opt_json_def or_str_def split: option.split)

lemma auth_raw_json: "auth_raw (auth_json a) = auth_json (normalize_auth a)"
  unfolding auth_raw_def auth_field js_or_opt
  by (cases "auth_type a")
    (simp_all add: defined_def opt_json_def auth_json_def normalize_auth_def str_field_def)

lemma models_raw_json:
  "models_raw (case ms of None \<Rightarrow> JUndefined | Some xs \<Rightarrow> JArr (map JStr xs))
     = Some (normalizeAdvancedCustomRouteModels ms)"
proof (cases ms)
  case (Some xs)
  have "map_ok js_trim (map JStr xs) = Some (map trim xs)" by (rule map_ok_map) simp
  with Some show ?thesis by (simp add: models_raw_def normalizeAdvancedCustomRouteModels_def)
qed (simp add: models_raw_def normalizeAdvancedCustomRouteModels_def)

lemma route_json_object: "\<exists>kvs. route_json r = JObj kvs" "\<exists>kvs. auth_json a = JObj kvs"
  by (simp_all add: route_json_def auth_json_def)

lemma route_raw_json: "route_raw (route_json r) = Some (route_json (normalizeAdvancedCustomRoute r))"
proof -
  have get: "get_prop (route_json r) ''incoming_path'' = Some (opt_json (incoming_path r))"
    using route_json_object(1) [of r] by (auto simp: get_prop_def simp flip: route_field)
  have auth: "(if truthy (field (route_json r) ''auth'') then [(''auth'', auth_raw (field (route_json r) ''auth''))] else [])
      = (case auth (normalizeAdvancedCustomRoute r) of None \<Rightarrow> [] | Some a \<Rightarrow> [(''auth'', auth_json a)])"
    unfolding route_field normalize_fields
    by (cases "auth r") (simp_all add: auth_raw_json, simp add: auth_json_def)
  show ?thesis
    unfolding route_raw_def get option.case auth
    unfolding route_field js_or_opt models_raw_json js_trim.simps option.case prod.case
    by (simp add: route_json_def normalize_fields str_field_def getAdvancedCustomRouteUpstreamPath_def)
qed

lemma config_raw_json: "config_raw (config_json cfg) = Some (config_json (normalizeAdvancedCustomConfig cfg))"
proof (cases "advanced_routes cfg")
  case (Some rs)
  have "map_ok route_raw (map route_json rs)
      = Some (map (\<lambda>r. route_json (normalizeAdvancedCustomRoute r)) rs)"
    by (rule map_ok_map) (rule route_raw_json)
  with Some show ?thesis
    by (simp add: config_raw_def config_json_def normalizeAdvancedCustomConfig_def o_def)
qed (simp add: config_raw_def config_json_def normalizeAdvancedCustomConfig_def)

section \<open>The text round trip\<close>

lemma field_keys_plain:
  "\<not> is_index ''type''" "\<not> is_index ''name''" "\<not> is_index ''value''" "\<not> is_index ''incoming_path''"
  "\<not> is_index ''upstream_path''" "\<not> is_index ''converter''" "\<not> is_index ''models''"
  "\<not> is_index ''auth''" "\<not> is_index ''advanced_routes''"
  by (simp_all add: is_index_def all_digits_def is_digit_def)

lemma auth_json_ok: "json_ok (auth_json a)"
  unfolding auth_json_def
  by (rule json_ok_obj)
    (cases "auth_type a"; cases "auth_name a"; cases "auth_value a";
      simp add: str_field_def field_keys_plain del: json_ok.simps(7))+

lemma strs_json_ok: "json_ok (JArr (map JStr xs))"
  by (simp add: list_all_iff)

lemma route_json_ok: "json_ok (route_json r)"
proof -
  have m: "json_ok (JArr (map JStr xs))" for xs by (rule strs_json_ok)
  show ?thesis
    unfolding route_json_def
    by (rule json_ok_obj)
      (cases "incoming_path r"; cases "upstream_path r"; cases "converter r"; cases "models r"; cases "auth r";
        simp add: str_field_def field_keys_plain auth_json_ok m del: json_ok.simps(6,7))+
qed

lemma config_json_ok: "json_ok (config_json cfg)"
  unfolding config_json_def
  by (rule json_ok_obj)
    (cases "advanced_routes cfg"; simp add: field_keys_plain list_all_iff route_json_ok del: json_ok.simps(7))+

text \<open> C37: Writing a configuration as text and parsing the text gives the normal form of the
  configuration, whatever it is: the text the form stores loses nothing, and an empty list of routes
  or an empty field comes back. \<close>

theorem config_text_round_trip:
  "parseAdvancedCustomConfig (Some (stringifyAdvancedCustomConfig cfg))
     = Some (config_json (normalizeAdvancedCustomConfig cfg))"
proof -
  let ?v = "config_json (normalizeAdvancedCustomConfig cfg)"
  have obj: "\<exists>kvs. ?v = JObj kvs" by (simp add: config_json_def)
  have "list_all json_ws ''  ''" by (simp add: json_ws_def)
  from parse_stringify [OF config_json_ok this]
  have parse: "JSON_parse (stringifyAdvancedCustomConfig cfg) = Some ?v"
    by (simp add: stringifyAdvancedCustomConfig_def)
  have "hd (stringifyAdvancedCustomConfig cfg) = CHR ''{''" "stringifyAdvancedCustomConfig cfg \<noteq> []"
    by (simp_all add: stringifyAdvancedCustomConfig_def JSON_stringify_def config_json_def
        normalizeAdvancedCustomConfig_def del: print_json.simps(6))
  then have "trim (stringifyAdvancedCustomConfig cfg) \<noteq> []"
    unfolding trim_eq_Nil by (metis hd_in_set brace_not_ws)
  moreover have "config_raw ?v = Some ?v"
    using config_raw_json [of "normalizeAdvancedCustomConfig cfg"]
    by (simp add: normalizeConfig_eq normalized_routes_fixed)
  ultimately show ?thesis
    using obj by (auto simp: parseAdvancedCustomConfig_def parse)
qed

end
