(* ===== verification/Channel_Utils.thy ===== *)
theory Channel_Utils
  imports Js_Collections Js_Json
begin

text \<open>
  Channels as the admin table shows them (\<^verbatim>\<open>web/src/features/channels/lib/channel-utils.ts\<close>, with
  the tables of \<^verbatim>\<open>constants.ts\<close> and the record of \<^verbatim>\<open>types.ts\<close>): labels and badges, masked keys,
  comma and line lists, response and relative times, the rows of the tag mode, and the removal of
  repeated keys. A nullable or optional number or string is an option: \<^verbatim>\<open>null\<close> and \<^verbatim>\<open>undefined\<close>
  are not distinguished. The current time and the platform's \<^verbatim>\<open>Intl.RelativeTimeFormat\<close> and
  \<^verbatim>\<open>localeCompare\<close> are parameters.
\<close>

section \<open>Types\<close>

datatype MultiKeyMode = RandomMode | PollingMode

record ChannelInfo =
  is_multi_key :: bool
  multi_key_size :: num
  multi_key_status_list :: "(string, num) jmap option"
  multi_key_disabled_reason :: "(string, string) jmap option"
  multi_key_disabled_time :: "(string, num) jmap option"
  multi_key_polling_index :: num
  multi_key_mode :: MultiKeyMode

text \<open>
  The identifier is a number, except in a tag row, which stores its tag there; the status of a
  fresh tag row is undefined.
\<close>

record Channel =
  ch_id :: jsval
  ch_type :: num
  ch_key :: string
  ch_openai_organization :: "string option"
  ch_test_model :: "string option"
  ch_status :: "num option"
  ch_name :: string
  ch_weight :: "num option"
  ch_created_time :: num
  ch_test_time :: num
  ch_response_time :: num
  ch_base_url :: "string option"
  ch_other :: string
  ch_balance :: num
  ch_balance_updated_time :: num
  ch_cost_ratio :: "num option"
  ch_models :: string
  ch_group :: string
  ch_used_quota :: num
  ch_today_used_quota :: "num option"
  ch_today_cost_quota :: "num option"
  ch_total_used_quota :: "num option"
  ch_total_cost_quota :: "num option"
  ch_model_mapping :: "string option"
  ch_status_code_mapping :: "string option"
  ch_priority :: "num option"
  ch_auto_ban :: "num option"
  ch_other_info :: string
  ch_tag :: "string option"
  ch_setting :: "string option"
  ch_param_override :: "string option"
  ch_header_override :: "string option"
  ch_remark :: string
  ch_max_input_tokens :: num
  ch_channel_info :: "ChannelInfo option"
  ch_settings :: string

record TagRow = Channel +
  children :: "Channel list"

datatype ChannelQuotaSummaryScope = ScopeToday | ScopeTotal

datatype QuotaField = CostField | UsedField | ProfitField

record Badge =
  variant :: string
  badge_label :: string

section \<open>Tables\<close>

definition CHANNEL_TYPES :: "(num, string) jmap" where
  "CHANNEL_TYPES =
     [(0, ''Unknown''), (1, ''OpenAI''), (2, ''MjProxy''), (3, ''Azure''), (4, ''Ollama''),
      (5, ''MjProxyPlus''), (7, ''OhMyGPT''), (8, ''Custom''), (14, ''Anthropic''),
      (15, ''Baidu''), (16, ''Zhipu''), (17, ''Ali''), (18, ''Xunfei''), (19, ''360''),
      (20, ''OpenRouter''), (22, ''FastGPT''), (23, ''Tencent''), (24, ''Gemini''),
      (25, ''Moonshot''), (26, ''Zhipu V4''), (27, ''Perplexity''), (31, ''LingYiWanWu''),
      (33, ''AWS''), (34, ''Cohere''), (35, ''MiniMax''), (36, ''SunoAPI''), (37, ''Dify''),
      (38, ''Jina''), (39, ''Cloudflare''), (40, ''SiliconFlow''), (41, ''Vertex AI''),
      (42, ''Mistral''), (43, ''DeepSeek''), (44, ''MokaAI''), (45, ''VolcEngine''),
      (46, ''Baidu V2''), (47, ''Xinference''), (48, ''xAI''), (49, ''Coze''), (50, ''Kling''),
      (51, ''Jimeng''), (52, ''Vidu''), (53, ''Submodel''), (54, ''DoubaoVideo''),
      (55, ''Sora''), (56, ''Replicate''), (57, ''ChatGPT Subscription (Codex)''),
      (58, ''Advanced Custom''), (59, ''Sub2API''), (60, ''New API''), (100, ''Ali Viapi''),
      (101, ''VolcVOD''), (102, ''VolcCV''), (103, ''FastAI Video'')]"

definition CHANNEL_TYPE_DISPLAY_ORDER :: "num list" where
  "CHANNEL_TYPE_DISPLAY_ORDER =
     [1, 14, 33, 24, 43, 3, 41, 48, 60, 58, 42, 34, 20, 4, 40, 27, 25, 17, 26, 15, 46, 23, 18,
      45, 31, 35, 49, 19, 47, 37, 38, 39, 11, 8, 57, 59, 22, 21, 44, 2, 5, 36, 50, 51, 52, 53,
      54, 55, 56]"

definition CHANNEL_TYPE_OPTIONS :: "(num \<times> string) list" where
  "CHANNEL_TYPE_OPTIONS =
     (let (ordered, seen) =
            foldl (\<lambda>(ordered, seen) i.
                case map_get CHANNEL_TYPES i of
                  Some label \<Rightarrow>
                    if label \<noteq> [] then (ordered @ [(i, label)], set_add i seen) else (ordered, seen)
                | None \<Rightarrow> (ordered, seen))
              ([], []) CHANNEL_TYPE_DISPLAY_ORDER in
      foldl (\<lambda>acc (i, label). if i \<noteq> 0 \<and> i \<notin> set seen then acc @ [(i, label)] else acc)
        ordered CHANNEL_TYPES)"

definition CHANNEL_STATUS_CONFIG :: "(num, Badge) jmap" where
  "CHANNEL_STATUS_CONFIG =
     [(0, \<lparr>variant = ''neutral'', badge_label = ''Unknown''\<rparr>),
      (1, \<lparr>variant = ''success'', badge_label = ''Enabled''\<rparr>),
      (2, \<lparr>variant = ''danger'', badge_label = ''Disabled''\<rparr>),
      (3, \<lparr>variant = ''warning'', badge_label = ''Auto Disabled''\<rparr>)]"

definition MULTI_KEY_STATUS_CONFIG :: "(num, Badge) jmap" where
  "MULTI_KEY_STATUS_CONFIG =
     [(1, \<lparr>variant = ''success'', badge_label = ''Enabled''\<rparr>),
      (2, \<lparr>variant = ''neutral'', badge_label = ''Manual Disabled''\<rparr>),
      (3, \<lparr>variant = ''danger'', badge_label = ''Auto Disabled''\<rparr>)]"

datatype ResponseRating = EXCELLENT | GOOD | FAIR | POOR | UNKNOWN

definition RESPONSE_TIME_THRESHOLDS :: "ResponseRating \<Rightarrow> num" where
  "RESPONSE_TIME_THRESHOLDS r =
     (case r of EXCELLENT \<Rightarrow> 500 | GOOD \<Rightarrow> 1000 | FAIR \<Rightarrow> 2000 | POOR \<Rightarrow> 5000 | UNKNOWN \<Rightarrow> 0)"

definition RESPONSE_TIME_CONFIG :: "ResponseRating \<Rightarrow> Badge" where
  "RESPONSE_TIME_CONFIG r =
     (case r of
        EXCELLENT \<Rightarrow> \<lparr>variant = ''success'', badge_label = ''Excellent''\<rparr>
      | GOOD \<Rightarrow> \<lparr>variant = ''success'', badge_label = ''Good''\<rparr>
      | FAIR \<Rightarrow> \<lparr>variant = ''warning'', badge_label = ''Fair''\<rparr>
      | POOR \<Rightarrow> \<lparr>variant = ''danger'', badge_label = ''Poor''\<rparr>
      | UNKNOWN \<Rightarrow> \<lparr>variant = ''neutral'', badge_label = ''Not tested''\<rparr>)"

definition TYPE_TO_KEY_PROMPT :: "(num, string) jmap" where
  "TYPE_TO_KEY_PROMPT =
     [(15, ''Format: APIKey|SecretKey''), (18, ''Format: APPID|APISecret|APIKey''),
      (22, ''Format: APIKey-AppId, e.g., fastgpt-0sp2gtvfdgyi4k30jwlgwf1i-64f335d84283f05518e9e041''),
      (23, ''Format: TokenHub API Key, or legacy AppId|SecretId|SecretKey''),
      (33, ''Format: Ak|Sk|Region''),
      (50, ''Format: AccessKey|SecretKey (or just ApiKey if upstream is New API)''),
      (51, ''Format: Access Key ID|Secret Access Key''),
      (57, ''Paste Codex OAuth JSON credential (access_token / refresh_token / account_id)''),
      (59, ''Enter API key for this channel''), (60, ''Enter API key for this channel''),
      (100, ''Format: Access Key ID|Secret Access Key''),
      (101, ''Format: Access Key ID|Secret Access Key''),
      (102, ''Format: Access Key ID|Secret Access Key''),
      (103, ''Enter API key for this channel'')]"

section \<open>Labels and badges\<close>

definition getChannelTypeLabel :: "num \<Rightarrow> string" where
  "getChannelTypeLabel type = or_str (map_get CHANNEL_TYPES type) ''Unknown''"

definition TYPE_TO_ICON :: "(num, string) jmap" where
  "TYPE_TO_ICON =
     [(1, ''OpenAI''), (6, ''OpenAI''), (7, ''OpenAI''), (8, ''OpenAI''), (58, ''NewAPI''),
      (59, ''Sub2API''), (60, ''NewAPI''), (100, ''Qwen''), (101, ''Volcengine''),
      (102, ''Volcengine''), (103, ''NewAPI''), (3, ''Azure''), (14, ''Claude''),
      (24, ''Gemini''), (11, ''Google''), (41, ''Gemini''), (33, ''Aws''), (39, ''Cloudflare''),
      (15, ''Baidu''), (46, ''Baidu''), (16, ''Zhipu''), (26, ''Zhipu''), (17, ''Qwen''),
      (18, ''Spark''), (23, ''Hunyuan''), (19, ''Ai360''), (25, ''Moonshot''), (31, ''Yi''),
      (35, ''Minimax''), (45, ''Volcengine''), (4, ''Ollama''), (27, ''Perplexity''),
      (34, ''Cohere''), (42, ''Mistral''), (43, ''DeepSeek''), (48, ''XAI''), (49, ''Coze''),
      (40, ''SiliconCloud''), (44, ''OpenAI''), (20, ''OpenRouter''), (2, ''Midjourney''),
      (5, ''Midjourney''), (50, ''Kling''), (51, ''Jimeng''), (52, ''Vidu''), (36, ''Suno''),
      (55, ''OpenAI''), (54, ''Doubao''), (56, ''Replicate''), (37, ''Dify''), (38, ''Jina''),
      (22, ''FastGPT''), (47, ''Xinference''), (53, ''OpenAI''), (10, ''OpenAI''),
      (21, ''OpenAI''), (12, ''OpenAI''), (13, ''OpenAI''), (9, ''OpenAI'')]"

definition getChannelTypeIcon :: "num \<Rightarrow> string" where
  "getChannelTypeIcon type = or_str (map_get TYPE_TO_ICON type) ''OpenAI''"

definition getChannelStatusBadge :: "num \<Rightarrow> Badge" where
  "getChannelStatusBadge status =
     (case map_get CHANNEL_STATUS_CONFIG status of
        Some b \<Rightarrow> b
      | None \<Rightarrow> the (map_get CHANNEL_STATUS_CONFIG 0))"

definition getMultiKeyStatusBadge :: "num \<Rightarrow> Badge" where
  "getMultiKeyStatusBadge status =
     (case map_get MULTI_KEY_STATUS_CONFIG status of
        Some b \<Rightarrow> b
      | None \<Rightarrow> the (map_get MULTI_KEY_STATUS_CONFIG 1))"

definition formatChannelCostRatio :: "num option \<Rightarrow> string" where
  "formatChannelCostRatio v = toFixed 2 (case v of None \<Rightarrow> 1 | Some r \<Rightarrow> r) @ ''x''"

definition isChannelEnabled :: "Channel \<Rightarrow> bool" where
  "isChannelEnabled channel \<longleftrightarrow> ch_status channel = Some 1"

definition isMultiKeyChannel :: "Channel \<Rightarrow> bool" where
  "isMultiKeyChannel channel =
     (case ch_channel_info channel of None \<Rightarrow> False | Some info \<Rightarrow> is_multi_key info)"

definition getKeyPromptForType :: "num \<Rightarrow> string" where
  "getKeyPromptForType type =
     or_str (map_get TYPE_TO_KEY_PROMPT type) ''Enter API key for this channel''"

section \<open>Keys\<close>

text \<open>\<^verbatim>\<open>s.slice(-n)\<close>: the last \<open>n\<close> characters, or all of them.\<close>

definition slice_last :: "nat \<Rightarrow> string \<Rightarrow> string" where
  "slice_last n s = drop (length s - n) s"

definition key_lines :: "string \<Rightarrow> string list" where
  "key_lines key = filter (\<lambda>k. trim k \<noteq> []) (split_on (CHR 0x0A) key)"

definition formatChannelKey :: "string \<Rightarrow> bool \<Rightarrow> string" where
  "formatChannelKey key isMultiKey =
     (if key = [] then []
      else if isMultiKey then nat_str (length (key_lines key)) @ '' keys''
      else if length key \<le> 16 then take 4 key @ ''...'' @ slice_last 4 key
      else take 8 key @ ''...'' @ slice_last 8 key)"

definition formatKeyPreview :: "string \<Rightarrow> nat \<Rightarrow> string" where
  "formatKeyPreview key maxLength =
     (if key = [] then []
      else if length key \<le> maxLength then key
      else take maxLength key @ ''...'')"

definition countKeys :: "string \<Rightarrow> nat" where
  "countKeys key = (if key = [] then 0 else length (key_lines key))"

record DeduplicateResult =
  deduplicatedText :: string
  beforeCount :: int
  afterCount :: int
  removedCount :: int

definition dedup_step :: "string list \<times> string list \<Rightarrow> string \<Rightarrow> string list \<times> string list" where
  "dedup_step = (\<lambda>(keySet, deduplicatedKeys) line.
     let trimmedLine = trim line in
     if trimmedLine \<noteq> [] \<and> trimmedLine \<notin> set keySet
     then (set_add trimmedLine keySet, deduplicatedKeys @ [trimmedLine])
     else (keySet, deduplicatedKeys))"

definition deduplicateKeys :: "string \<Rightarrow> DeduplicateResult" where
  "deduplicateKeys keysText =
     (if keysText = [] \<or> trim keysText = [] then
        \<lparr>deduplicatedText = [], beforeCount = 0, afterCount = 0, removedCount = 0\<rparr>
      else
        (let keyLines = split_on (CHR 0x0A) keysText;
             before = int (length keyLines);
             deduplicatedKeys = snd (foldl dedup_step ([], []) keyLines);
             after = int (length deduplicatedKeys) in
         \<lparr>deduplicatedText = join [CHR 0x0A] deduplicatedKeys, beforeCount = before,
          afterCount = after, removedCount = before - after\<rparr>))"

section \<open>Lists of models and groups\<close>

definition parseModelsList :: "string \<Rightarrow> string list" where
  "parseModelsList ms =
     (if ms = [] then [] else nonempty_strs (map trim (split_on CHR '','' ms)))"

definition group_cmp :: "(string \<Rightarrow> string \<Rightarrow> num) \<Rightarrow> string \<Rightarrow> string \<Rightarrow> num" where
  "group_cmp localeCompare a b =
     (if a = ''default'' then - 1 else if b = ''default'' then 1 else localeCompare a b)"

definition parseGroupsList :: "(string \<Rightarrow> string \<Rightarrow> num) \<Rightarrow> string \<Rightarrow> string list" where
  "parseGroupsList localeCompare groups =
     (if groups = [] then []
      else js_sort (group_cmp localeCompare)
             (nonempty_strs (map trim (split_on CHR '','' groups))))"

definition formatModelsString :: "string list \<Rightarrow> string" where
  "formatModelsString ms = join '','' ms"

definition formatGroupsString :: "string list \<Rightarrow> string" where
  "formatGroupsString groups = join '','' groups"

definition validateChannelName :: "string \<Rightarrow> bool" where
  "validateChannelName name \<longleftrightarrow> length (trim name) > 0"

definition validateApiKey :: "string \<Rightarrow> bool" where
  "validateApiKey key \<longleftrightarrow> length (trim key) > 0"

definition validateModels :: "string \<Rightarrow> bool" where
  "validateModels ms \<longleftrightarrow> length (parseModelsList ms) > 0"

definition validateGroups :: "(string \<Rightarrow> string \<Rightarrow> num) \<Rightarrow> string \<Rightarrow> bool" where
  "validateGroups localeCompare groups \<longleftrightarrow> length (parseGroupsList localeCompare groups) > 0"

definition getPriorityDisplay :: "num option \<Rightarrow> string" where
  "getPriorityDisplay priority = (case priority of None \<Rightarrow> ''0'' | Some p \<Rightarrow> num_str p)"

definition getWeightDisplay :: "num option \<Rightarrow> string" where
  "getWeightDisplay weight = (case weight of None \<Rightarrow> ''0'' | Some w \<Rightarrow> num_str w)"

section \<open>Settings\<close>

text \<open>The parsed value is cast to the settings type unseen.\<close>

definition parseChannelSettings :: "string option \<Rightarrow> jsval" where
  "parseChannelSettings settingStr =
     (case settingStr of
        None \<Rightarrow> JObj []
      | Some s \<Rightarrow>
          if s = [] then JObj []
          else (case JSON_parse s of Some v \<Rightarrow> v | None \<Rightarrow> JObj []))"

definition parseChannelOtherSettings :: "string option \<Rightarrow> jsval" where
  "parseChannelOtherSettings settingsStr =
     (case settingsStr of
        None \<Rightarrow> JObj []
      | Some s \<Rightarrow>
          if s = [] \<or> s = ''{}'' then JObj []
          else (case JSON_parse s of Some v \<Rightarrow> v | None \<Rightarrow> JObj []))"

definition validateChannelSettings :: "string \<Rightarrow> bool" where
  "validateChannelSettings settings =
     (if settings = [] \<or> trim settings = [] then True else JSON_parse settings \<noteq> None)"

section \<open>Times\<close>

text \<open>The translation function of the page: a key and the value it interpolates.\<close>

type_synonym TFunction = "string \<Rightarrow> jsval option \<Rightarrow> string"

definition formatResponseTime :: "num \<Rightarrow> TFunction option \<Rightarrow> string" where
  "formatResponseTime timeMs t =
     (if timeMs = 0 then (case t of Some t \<Rightarrow> t ''Not tested'' None | None \<Rightarrow> ''Not tested'')
      else if timeMs < 1000 then
        (case t of
           Some t \<Rightarrow> t ''{{value}}ms'' (Some (JNum (Fin timeMs)))
         | None \<Rightarrow> num_str timeMs @ ''ms'')
      else
        (case t of
           Some t \<Rightarrow> t ''{{value}}s'' (Some (JStr (toFixed 2 (timeMs / 1000))))
         | None \<Rightarrow> toFixed 2 (timeMs / 1000) @ ''s''))"

definition getResponseTimeConfig :: "num \<Rightarrow> Badge" where
  "getResponseTimeConfig timeMs =
     (if timeMs = 0 then RESPONSE_TIME_CONFIG UNKNOWN
      else if timeMs \<le> RESPONSE_TIME_THRESHOLDS EXCELLENT then RESPONSE_TIME_CONFIG EXCELLENT
      else if timeMs \<le> RESPONSE_TIME_THRESHOLDS GOOD then RESPONSE_TIME_CONFIG GOOD
      else if timeMs \<le> RESPONSE_TIME_THRESHOLDS FAIR then RESPONSE_TIME_CONFIG FAIR
      else if timeMs \<le> RESPONSE_TIME_THRESHOLDS POOR then RESPONSE_TIME_CONFIG POOR
      else RESPONSE_TIME_CONFIG POOR)"

definition js_round :: "num \<Rightarrow> int" where
  "js_round x = \<lfloor>x + 1 / 2\<rfloor>"

definition relative_unit :: "num \<Rightarrow> int \<times> string" where
  "relative_unit diffSec =
     (let absSec = \<bar>diffSec\<bar>; MINUTE = 60; HOUR = 60 * MINUTE; DAY = 24 * HOUR;
          MONTH = 30 * DAY; YEAR = 365 * DAY in
      if absSec < MINUTE then (js_round diffSec, ''second'')
      else if absSec < HOUR then (js_round (diffSec / MINUTE), ''minute'')
      else if absSec < DAY then (js_round (diffSec / HOUR), ''hour'')
      else if absSec < MONTH then (js_round (diffSec / DAY), ''day'')
      else if absSec < YEAR then (js_round (diffSec / MONTH), ''month'')
      else (js_round (diffSec / YEAR), ''year''))"

text \<open>
  \<^verbatim>\<open>replaceAll(/(\d)([\u4e00-\u9fff])/g, '$1 $2')\<close>: the range is that of the three-byte
  encodings from E4 B8 80 to E9 BF BF.
\<close>

definition cjk_at :: "string \<Rightarrow> bool" where
  "cjk_at s =
     (case s of
        a # b # c # _ \<Rightarrow>
          (let n = ((of_char a :: nat) * 256 + of_char b) * 256 + of_char c in
           0xE4B880 \<le> n \<and> n \<le> 0xE9BFBF \<and> 0x80 \<le> (of_char b :: nat) \<and> (of_char b :: nat) \<le> 0xBF
           \<and> 0x80 \<le> (of_char c :: nat) \<and> (of_char c :: nat) \<le> 0xBF)
      | _ \<Rightarrow> False)"

fun space_after_digits :: "string \<Rightarrow> string" where
  "space_after_digits [] = []"
| "space_after_digits (c # cs) =
     (if is_digit c \<and> cjk_at cs then c # CHR '' '' # space_after_digits cs
      else c # space_after_digits cs)"

text \<open>
  \<open>rtf\<close> formats a value in a unit, or throws (\<^const>\<open>None\<close>); \<open>language\<close> is the first requested
  locale, when there is one.
\<close>

definition formatRelativeTime ::
  "(string option \<Rightarrow> int \<Rightarrow> string \<Rightarrow> string option) \<Rightarrow> num \<Rightarrow> num \<Rightarrow> string option \<Rightarrow> string" where
  "formatRelativeTime rtf now_ms timestamp language =
     (if timestamp = 0 then ''Never''
      else
        (let diffSec = timestamp - now_ms / 1000; (v, unit) = relative_unit diffSec in
         case rtf language v unit of
           None \<Rightarrow> ''Unknown''
         | Some formatted \<Rightarrow>
             (case language of
                Some l \<Rightarrow> if startsWith l ''zh'' then space_after_digits formatted else formatted
              | None \<Rightarrow> formatted)))"

section \<open>Column titles\<close>

definition middle_dot :: string where
  "middle_dot = [CHR 0xC2, CHR 0xB7]"

fun getChannelQuotaSummaryTitle :: "ChannelQuotaSummaryScope \<Rightarrow> (string \<Rightarrow> string) \<Rightarrow> string" where
  "getChannelQuotaSummaryTitle ScopeToday t =
     t (''Cost / Consumption / Profit '' @ middle_dot @ '' Today'')"
| "getChannelQuotaSummaryTitle ScopeTotal t =
     t (''Cost / Consumption / Profit '' @ middle_dot @ '' All time'')"

definition getChannelQuotaColumnTitle ::
  "QuotaField \<Rightarrow> ChannelQuotaSummaryScope \<Rightarrow> (string \<Rightarrow> string) \<Rightarrow> string" where
  "getChannelQuotaColumnTitle fld scope t =
     (let today = (scope = ScopeToday) in
      if fld = CostField then (if today then t ''Cost today'' else t ''Total cost'')
      else if fld = UsedField then (if today then t ''Consumed today'' else t ''Total consumed'')
      else (if today then t ''Profit today'' else t ''Total profit''))"

section \<open>Attention\<close>

definition all_keys_disabled :: "Channel \<Rightarrow> bool" where
  "all_keys_disabled channel =
     (case ch_channel_info channel of
        None \<Rightarrow> False
      | Some info \<Rightarrow>
          is_multi_key info
          \<and> (case multi_key_status_list info of
               None \<Rightarrow> False
             | Some l \<Rightarrow> of_nat (length (map_keys l)) \<ge> multi_key_size info))"

definition channelNeedsAttention :: "Channel \<Rightarrow> bool" where
  "channelNeedsAttention channel =
     (if ch_status channel = Some 3 then True
      else if ch_balance channel > 0 \<and> ch_balance channel < 1 then True
      else if all_keys_disabled channel then True
      else False)"

definition getAttentionReason :: "Channel \<Rightarrow> string option" where
  "getAttentionReason channel =
     (if ch_status channel = Some 3 then Some ''Auto-disabled''
      else if ch_balance channel > 0 \<and> ch_balance channel < 1 then Some ''Low balance''
      else if all_keys_disabled channel then Some ''All keys disabled''
      else None)"

section \<open>Rows of the tag mode\<close>

type_synonym TableRow = "Channel + TagRow"

fun isTagAggregateRow :: "TableRow \<Rightarrow> bool" where
  "isTagAggregateRow (Inl _) = False"
| "isTagAggregateRow (Inr _) = True"

fun getChannelTableRowId :: "TableRow \<Rightarrow> string" where
  "getChannelTableRowId (Inr row) = ''tag:'' @ or_str (ch_tag row) []"
| "getChannelTableRowId (Inl row) = ''channel:'' @ to_str (ch_id row)"

definition tag_of :: "Channel \<Rightarrow> string" where
  "tag_of channel = or_str (ch_tag channel) []"

definition new_tag_row :: "string \<Rightarrow> Channel \<Rightarrow> TagRow" where
  "new_tag_row tag channel = Channel.extend
     (channel\<lparr>ch_key := tag, ch_id := JStr tag, ch_tag := Some tag, ch_name := tag, ch_type := 0,
        ch_status := None, ch_group := [], ch_used_quota := 0, ch_response_time := 0,
        ch_priority := Some (- 1), ch_weight := Some (- 1), ch_balance := 0, ch_test_time := 0,
        ch_created_time := 0, ch_balance_updated_time := 0, ch_models := []\<rparr>)
     (TagRow.fields [])"

text \<open>One of the \<^verbatim>\<open>LOG_DERIVED_QUOTA_FIELDS\<close> of the row.\<close>

definition add_quota :: "nat \<Rightarrow> num option \<Rightarrow> num option \<Rightarrow> num option" where
  "add_quota childCount tagQuota childQuota =
     (if childCount = 1 then childQuota
      else (case (tagQuota, childQuota) of (Some a, Some b) \<Rightarrow> Some (a + b) | _ \<Rightarrow> None))"

text \<open>The priority, and the weight: the common value, with -1 as the value of a fresh row.\<close>

definition merge_common :: "num option \<Rightarrow> num option \<Rightarrow> num option" where
  "merge_common row child =
     (if row = Some (- 1) then child else if row \<noteq> child then None else row)"

definition merge_group :: "string \<Rightarrow> string \<Rightarrow> string" where
  "merge_group row child =
     (if row = [] then child
      else
        (let existingGroups = uniq (nonempty_strs (split_on CHR '','' row));
             newGroups = nonempty_strs (split_on CHR '','' child) in
         foldl (\<lambda>acc g. if g \<notin> set existingGroups then acc @ '','' @ g else acc) row newGroups))"

definition merge_status :: "num option \<Rightarrow> num option \<Rightarrow> num option" where
  "merge_status row child =
     (if child = Some 1 then Some 1 else if row = None then child else row)"

definition add_child :: "TagRow \<Rightarrow> Channel \<Rightarrow> TagRow" where
  "add_child row channel =
     (let childCount = length (children row) + 1 in
      row\<lparr>children := children row @ [channel],
          ch_used_quota := ch_used_quota row + ch_used_quota channel,
          ch_today_cost_quota :=
            add_quota childCount (ch_today_cost_quota row) (ch_today_cost_quota channel),
          ch_today_used_quota :=
            add_quota childCount (ch_today_used_quota row) (ch_today_used_quota channel),
          ch_total_cost_quota :=
            add_quota childCount (ch_total_cost_quota row) (ch_total_cost_quota channel),
          ch_total_used_quota :=
            add_quota childCount (ch_total_used_quota row) (ch_total_used_quota channel),
          ch_response_time :=
            (ch_response_time row * (of_nat childCount - 1) + ch_response_time channel)
              / of_nat childCount,
          ch_priority := merge_common (ch_priority row) (ch_priority channel),
          ch_weight := merge_common (ch_weight row) (ch_weight channel),
          ch_group := merge_group (ch_group row) (ch_group channel),
          ch_status := merge_status (ch_status row) (ch_status channel)\<rparr>)"

text \<open>
  A row is pushed to the result exactly when its tag enters the map, and both hold the same
  object: the result is the list of the map's values.
\<close>

definition aggregate_step :: "(string, TagRow) jmap \<Rightarrow> Channel \<Rightarrow> (string, TagRow) jmap" where
  "aggregate_step tagMap channel =
     (let tag = tag_of channel;
          row = (case map_get tagMap tag of None \<Rightarrow> new_tag_row tag channel | Some r \<Rightarrow> r) in
      map_set tag (add_child row channel) tagMap)"

definition aggregateChannelsByTag :: "Channel list \<Rightarrow> TableRow list" where
  "aggregateChannelsByTag channels = map Inr (map_values (foldl aggregate_step [] channels))"

end
