(* ===== verification/Channel_Rows.thy ===== *)
theory Channel_Rows
  imports Channel_Utils
begin

text \<open>
  What the channel table computes: the rows of the tag mode partition the channels and carry
  their totals, repeated keys are removed without losing one, and a masked key hides its middle.
\<close>

section \<open>The fold over the channels\<close>

definition members :: "string \<Rightarrow> Channel list \<Rightarrow> Channel list" where
  "members t cs = filter (\<lambda>c. tag_of c = t) cs"

definition row_of :: "string \<Rightarrow> Channel list \<Rightarrow> TagRow" where
  "row_of t cs = foldl add_child (new_tag_row t (hd (members t cs))) (members t cs)"

lemma uniq_snoc: "uniq (xs @ [x]) = set_add x (uniq xs)"
  by (simp add: uniq_def)

lemma map_get_tabulate: "map_get (map (\<lambda>t. (t, f t)) ts) x = (if x \<in> set ts then Some (f x) else None)"
  by (induction ts) (auto simp: map_get_def)

lemma map_set_tabulate:
  "distinct ts \<Longrightarrow> map_set x v (map (\<lambda>t. (t, f t)) ts)
     = map (\<lambda>t. (t, if t = x then v else f t)) (set_add x ts)"
  by (induction ts) (auto simp: set_add_def intro!: map_cong)

lemma aggregate_fold:
  "foldl aggregate_step [] cs = map (\<lambda>t. (t, row_of t cs)) (uniq (map tag_of cs))"
proof (induction cs rule: rev_induct)
  case (snoc c cs)
  have row: "row_of t (cs @ [c]) =
      (if t = tag_of c
       then add_child (if t \<in> set (map tag_of cs) then row_of t cs else new_tag_row t c) c
       else row_of t cs)" for t
  proof (cases "t \<in> set (map tag_of cs)")
    case True
    then have "members t cs \<noteq> []" by (auto simp: members_def filter_empty_conv)
    with True show ?thesis
      by (cases "t = tag_of c") (simp_all add: row_of_def members_def)
  next
    case False
    then have "members t cs = []" by (auto simp: members_def filter_empty_conv)
    with False show ?thesis by (auto simp: row_of_def members_def)
  qed
  have "foldl aggregate_step [] (cs @ [c]) = aggregate_step (foldl aggregate_step [] cs) c"
    by simp
  also have "\<dots> = map (\<lambda>t. (t, row_of t (cs @ [c]))) (set_add (tag_of c) (uniq (map tag_of cs)))"
    unfolding snoc aggregate_step_def Let_def
    by (simp add: map_get_tabulate map_set_tabulate row)
  finally show ?case by (simp add: uniq_snoc)
qed simp

lemma in_aggregate:
  assumes "Inr r \<in> set (aggregateChannelsByTag cs)"
  obtains t where "t \<in> set (map tag_of cs)" "r = row_of t cs" "members t cs \<noteq> []"
proof -
  from assms obtain t where t: "t \<in> set (map tag_of cs)" "r = row_of t cs"
    by (auto simp: aggregateChannelsByTag_def aggregate_fold)
  moreover from t(1) have "members t cs \<noteq> []" by (auto simp: members_def filter_empty_conv)
  ultimately show thesis using that by blast
qed

section \<open>The fields of a row\<close>

lemma new_tag_row_sel [simp]:
  "children (new_tag_row t c) = []" "ch_tag (new_tag_row t c) = Some t"
  "ch_used_quota (new_tag_row t c) = 0" "ch_response_time (new_tag_row t c) = 0"
  "ch_priority (new_tag_row t c) = Some (- 1)" "ch_weight (new_tag_row t c) = Some (- 1)"
  "ch_group (new_tag_row t c) = []" "ch_status (new_tag_row t c) = None"
  by (simp_all add: new_tag_row_def Channel.defs TagRow.defs)

lemma add_child_sel [simp]:
  "children (add_child r c) = children r @ [c]"
  "ch_tag (add_child r c) = ch_tag r"
  "ch_used_quota (add_child r c) = ch_used_quota r + ch_used_quota c"
  "ch_priority (add_child r c) = merge_common (ch_priority r) (ch_priority c)"
  "ch_weight (add_child r c) = merge_common (ch_weight r) (ch_weight c)"
  "ch_group (add_child r c) = merge_group (ch_group r) (ch_group c)"
  "ch_status (add_child r c) = merge_status (ch_status r) (ch_status c)"
  "ch_today_cost_quota (add_child r c)
     = add_quota (length (children r) + 1) (ch_today_cost_quota r) (ch_today_cost_quota c)"
  "ch_today_used_quota (add_child r c)
     = add_quota (length (children r) + 1) (ch_today_used_quota r) (ch_today_used_quota c)"
  "ch_total_cost_quota (add_child r c)
     = add_quota (length (children r) + 1) (ch_total_cost_quota r) (ch_total_cost_quota c)"
  "ch_total_used_quota (add_child r c)
     = add_quota (length (children r) + 1) (ch_total_used_quota r) (ch_total_used_quota c)"
  "ch_response_time (add_child r c)
     = (ch_response_time r * of_nat (length (children r)) + ch_response_time c)
         / of_nat (length (children r) + 1)"
  by (simp_all add: add_child_def Let_def)

lemma fold_children [simp]: "children (foldl add_child r cs) = children r @ cs"
  by (induction cs arbitrary: r) simp_all

lemma fold_tag [simp]: "ch_tag (foldl add_child r cs) = ch_tag r"
  by (induction cs arbitrary: r) simp_all

lemma fold_used: "ch_used_quota (foldl add_child r cs) = ch_used_quota r + sum_list (map ch_used_quota cs)"
  by (induction cs arbitrary: r) simp_all

lemma fold_response:
  "children r = [] \<Longrightarrow> ch_response_time (foldl add_child r cs) * of_nat (length cs)
     = sum_list (map ch_response_time cs)"
proof (induction cs rule: rev_induct)
  case (snoc c cs)
  then show ?case
    by (simp only: foldl_append foldl.simps add_child_sel fold_children append_Nil length_append
        list.size map_append list.map sum_list.append sum_list.Nil sum_list.Cons) simp
qed simp

text \<open>The sum of optional figures: unavailable as soon as one of them is.\<close>

definition sum_known :: "num option list \<Rightarrow> num option" where
  "sum_known xs = (if None \<in> set xs then None else Some (sum_list (map the xs)))"

lemma sum_known_snoc:
  "xs \<noteq> [] \<Longrightarrow> sum_known (xs @ [x]) = add_quota (length xs + 1) (sum_known xs) x"
  by (auto simp: sum_known_def add_quota_def split: option.split)

lemma sum_known_single: "sum_known [x] = add_quota 1 y x"
  by (auto simp: sum_known_def add_quota_def)

lemma fold_quota:
  assumes step: "\<And>r c. sel (add_child r c) = add_quota (length (children r) + 1) (sel r) (fld c)"
    and r: "children r = []" and cs: "cs \<noteq> []"
  shows "sel (foldl add_child r cs) = sum_known (map fld cs)"
  using cs
proof (induction cs rule: rev_induct)
  case (snoc c cs)
  then show ?case
    by (cases "cs = []") (simp_all add: step r sum_known_single [of _ "sel r"] sum_known_snoc)
qed simp

lemma fold_status:
  "ch_status (foldl add_child r cs) = Some 1 \<longleftrightarrow>
     ch_status r = Some 1 \<or> (\<exists>c \<in> set cs. ch_status c = Some 1)"
  by (induction cs arbitrary: r) (auto simp: merge_status_def)

text \<open>The common value of a list, and its absence when two values differ.\<close>

definition common :: "num option list \<Rightarrow> num option" where
  "common xs = (if list_all ((=) (hd xs)) xs then hd xs else None)"

lemma common_single: "common [x] = merge_common (Some (- 1)) x"
  by (simp add: common_def merge_common_def)

lemma common_snoc:
  assumes "xs \<noteq> []" "Some (- 1) \<notin> set xs"
  shows "common (xs @ [x]) = merge_common (common xs) x"
proof -
  have "hd xs \<noteq> Some (- 1)" using assms hd_in_set by metis
  with assms(1) show ?thesis
    by (cases "list_all ((=) (hd xs)) xs") (simp_all add: common_def merge_common_def)
qed

lemma fold_common:
  assumes step: "\<And>r c. sel (add_child r c) = merge_common (sel r) (fld c)"
    and cs: "cs \<noteq> []" "Some (- 1) \<notin> set (map fld cs)" and r: "sel r = Some (- 1)"
  shows "sel (foldl add_child r cs) = common (map fld cs)"
  using cs
proof (induction cs rule: rev_induct)
  case (snoc c cs)
  then show ?case
    by (cases "cs = []") (simp_all add: step r common_single common_snoc del: set_map)
qed simp

text \<open>The groups a comma list names.\<close>

definition group_names :: "string \<Rightarrow> string set" where
  "group_names s = set (nonempty_strs (split_on CHR '','' s))"

lemma split_on_app: "split_on c (s @ c # t) = split_on c s @ split_on c t"
  by (induction s) (auto split: list.split)

lemma group_names_Nil [simp]: "group_names [] = {}"
  by (simp add: group_names_def)

lemma group_names_add:
  "g \<noteq> [] \<Longrightarrow> CHR '','' \<notin> set g \<Longrightarrow> group_names (s @ CHR '','' # g) = insert g (group_names s)"
  by (auto simp: group_names_def split_on_app split_on_no_sep)

lemma group_names_fold:
  "\<forall>g \<in> set gs. g \<noteq> [] \<and> CHR '','' \<notin> set g \<Longrightarrow>
   group_names (foldl (\<lambda>acc g. if g \<notin> E then acc @ CHR '','' # g else acc) s gs)
     = group_names s \<union> (set gs - E)"
  by (induction gs arbitrary: s) (auto simp: group_names_add)

lemma group_names_merge: "group_names (merge_group r c) = group_names r \<union> group_names c"
proof (cases "r = []")
  case False
  have "\<forall>g \<in> set (nonempty_strs (split_on CHR '','' c)). g \<noteq> [] \<and> CHR '','' \<notin> set g"
    using split_on_sep_free by auto
  note fold = group_names_fold [OF this]
  have "group_names (merge_group r c) = group_names r
      \<union> (set (nonempty_strs (split_on CHR '','' c)) - set (nonempty_strs (split_on CHR '','' r)))"
    using False fold [of "set (nonempty_strs (split_on CHR '','' r))" r]
    by (simp only: merge_group_def Let_def set_uniq if_False append_Cons append_Nil)
  then show ?thesis by (auto simp: group_names_def)
qed (simp add: merge_group_def)

lemma fold_group:
  "group_names (ch_group (foldl add_child r cs))
     = group_names (ch_group r) \<union> (\<Union>c \<in> set cs. group_names (ch_group c))"
  by (induction cs arbitrary: r) (auto simp: group_names_merge)

section \<open>The rows of the tag mode\<close>

text \<open> C34: In tag mode the table has one row per tag, in the order the tags first appear, with
  pairwise different row identifiers; the children of a row are exactly the channels with its
  tag, in their order. \<close>

theorem tag_rows_partition:
  "map (map_sum id (\<lambda>r. (ch_tag r, children r))) (aggregateChannelsByTag channels)
     = map (\<lambda>t. Inr (Some t, filter (\<lambda>c. tag_of c = t) channels)) (uniq (map tag_of channels))
   \<and> distinct (map getChannelTableRowId (aggregateChannelsByTag channels))"
proof
  have row: "(ch_tag (row_of t channels), children (row_of t channels))
      = (Some t, filter (\<lambda>c. tag_of c = t) channels)" for t
    by (simp add: row_of_def members_def)
  then show "map (map_sum id (\<lambda>r. (ch_tag r, children r))) (aggregateChannelsByTag channels)
     = map (\<lambda>t. Inr (Some t, filter (\<lambda>c. tag_of c = t) channels)) (uniq (map tag_of channels))"
    by (simp add: aggregateChannelsByTag_def aggregate_fold o_def)
  have "map getChannelTableRowId (aggregateChannelsByTag channels)
      = map (\<lambda>t. ''tag:'' @ t) (uniq (map tag_of channels))"
    using row by (simp add: aggregateChannelsByTag_def aggregate_fold o_def or_str_def)
  then show "distinct (map getChannelTableRowId (aggregateChannelsByTag channels))"
    by (simp add: distinct_map inj_on_def)
qed

text \<open> C35: A tag row carries the totals of its children: the consumed quota is their sum, the
  response time their average, each log-derived figure their sum when all of them are known and
  unavailable otherwise, the groups are all their groups, and the row is enabled exactly when
  one of them is. \<close>

theorem tag_row_totals:
  assumes "Inr r \<in> set (aggregateChannelsByTag channels)"
  shows "children r \<noteq> []
    \<and> ch_used_quota r = sum_list (map ch_used_quota (children r))
    \<and> ch_response_time r
        = sum_list (map ch_response_time (children r)) / of_nat (length (children r))
    \<and> ch_today_cost_quota r = sum_known (map ch_today_cost_quota (children r))
    \<and> ch_today_used_quota r = sum_known (map ch_today_used_quota (children r))
    \<and> ch_total_cost_quota r = sum_known (map ch_total_cost_quota (children r))
    \<and> ch_total_used_quota r = sum_known (map ch_total_used_quota (children r))
    \<and> group_names (ch_group r) = (\<Union>c \<in> set (children r). group_names (ch_group c))
    \<and> (ch_status r = Some 1 \<longleftrightarrow> list_ex isChannelEnabled (children r))"
proof -
  obtain t where t: "r = row_of t channels" and ne: "members t channels \<noteq> []"
    using assms by (rule in_aggregate)
  let ?new = "new_tag_row t (hd (members t channels))" and ?ms = "members t channels"
  have r: "r = foldl add_child ?new ?ms" by (simp add: t row_of_def)
  have kids: "children r = ?ms" by (simp add: r)
  have "ch_response_time r * of_nat (length ?ms) = sum_list (map ch_response_time ?ms)"
    unfolding r by (rule fold_response) simp
  then have "ch_response_time r = sum_list (map ch_response_time ?ms) / of_nat (length ?ms)"
    using ne by (simp add: nonzero_eq_divide_eq)
  moreover have "ch_today_cost_quota r = sum_known (map ch_today_cost_quota ?ms)"
    "ch_today_used_quota r = sum_known (map ch_today_used_quota ?ms)"
    "ch_total_cost_quota r = sum_known (map ch_total_cost_quota ?ms)"
    "ch_total_used_quota r = sum_known (map ch_total_used_quota ?ms)"
    unfolding r by (rule fold_quota; simp add: ne)+
  moreover have "ch_status r = Some 1 \<longleftrightarrow> list_ex isChannelEnabled ?ms"
    unfolding r fold_status by (simp add: list_ex_iff isChannelEnabled_def)
  ultimately show ?thesis
    unfolding kids using ne by (simp add: r fold_used fold_group)
qed

definition sample_channel :: "num \<Rightarrow> string \<Rightarrow> num option \<Rightarrow> string \<Rightarrow> Channel" where
  "sample_channel i tag priority grp =
     \<lparr>ch_id = JNum (Fin i), ch_type = 1, ch_key = ''sk'', ch_openai_organization = None,
      ch_test_model = None, ch_status = Some 1, ch_name = ''channel'', ch_weight = Some 0,
      ch_created_time = 0, ch_test_time = 0, ch_response_time = 100 * i, ch_base_url = None,
      ch_other = [], ch_balance = 0, ch_balance_updated_time = 0, ch_cost_ratio = None,
      ch_models = ''gpt-4'', ch_group = grp, ch_used_quota = 10 * i,
      ch_today_used_quota = Some i, ch_today_cost_quota = None, ch_total_used_quota = Some i,
      ch_total_cost_quota = None, ch_model_mapping = None, ch_status_code_mapping = None,
      ch_priority = priority, ch_auto_ban = None, ch_other_info = [], ch_tag = Some tag,
      ch_setting = None, ch_param_override = None, ch_header_override = None, ch_remark = [],
      ch_max_input_tokens = 0, ch_channel_info = None, ch_settings = ''{}''\<rparr>"

text \<open>Two channels of one tag, with the given priorities and groups.\<close>

definition sample_pair :: "num option \<Rightarrow> num option \<Rightarrow> string \<Rightarrow> Channel list" where
  "sample_pair p q grp = [sample_channel 1 ''t'' p ''a'', sample_channel 2 ''t'' q grp]"

definition sample_row :: "num option \<Rightarrow> num option \<Rightarrow> string \<Rightarrow> TagRow" where
  "sample_row p q grp = row_of ''t'' (sample_pair p q grp)"

lemma sample_tags: "map tag_of (sample_pair p q grp) = [''t'', ''t'']"
  by (simp add: sample_pair_def tag_of_def sample_channel_def)

lemma sample_row_in: "Inr (sample_row p q grp) \<in> set (aggregateChannelsByTag (sample_pair p q grp))"
  by (simp add: aggregateChannelsByTag_def aggregate_fold sample_tags sample_row_def)

lemma sample_row_children: "children (sample_row p q grp) = sample_pair p q grp"
  by (simp add: sample_row_def row_of_def members_def sample_pair_def tag_of_def sample_channel_def)

theorem tag_row_totals_witness:
  "ch_used_quota (sample_row (Some 5) (Some 7) ''b'') = 30
   \<and> ch_today_cost_quota (sample_row (Some 5) (Some 7) ''b'') = None
   \<and> ch_total_used_quota (sample_row (Some 5) (Some 7) ''b'') = Some 3"
  using tag_row_totals [OF sample_row_in [of "Some 5" "Some 7" "''b''"]]
  unfolding sample_row_children by (simp add: sample_pair_def sample_channel_def sum_known_def)

text \<open>When no child of a tag row has the priority -1, the row shows the priority the children
  share, and none when two of them differ; the same for the weight.\<close>

lemma tag_row_priority:
  assumes "Inr r \<in> set (aggregateChannelsByTag channels)"
    and "Some (- 1) \<notin> set (map ch_priority (children r))"
    and "Some (- 1) \<notin> set (map ch_weight (children r))"
  shows "ch_priority r = common (map ch_priority (children r))
    \<and> ch_weight r = common (map ch_weight (children r))"
proof -
  obtain t where t: "r = row_of t channels" and ne: "members t channels \<noteq> []"
    using assms(1) by (rule in_aggregate)
  have r: "r = foldl add_child (new_tag_row t (hd (members t channels))) (members t channels)"
    by (simp add: t row_of_def)
  then have kids: "children r = members t channels" by simp
  have "ch_priority r = common (map ch_priority (members t channels))"
    unfolding r by (rule fold_common) (use assms(2) ne in \<open>simp_all add: kids del: set_map\<close>)
  moreover have "ch_weight r = common (map ch_weight (members t channels))"
    unfolding r by (rule fold_common) (use assms(3) ne in \<open>simp_all add: kids del: set_map\<close>)
  ultimately show ?thesis by (simp add: kids)
qed

text \<open>
  The premise of the theorem above is needed: a fresh row is marked by the priority -1, so a child
  whose priority is -1 is forgotten and the row shows the next one's as if they all had it.
  Likewise the groups of a later child are not deduplicated among themselves.
\<close>

lemma minus_one_priority_forgotten: "ch_priority (sample_row (Some (- 1)) (Some 5) ''b'') = Some 5"
  by code_simp

lemma repeated_group_kept: "ch_group (sample_row None None ''b,b'') = ''a,b,b''"
  by code_simp

section \<open>Keys\<close>

lemma dedup_fold:
  "foldl dedup_step (s, s) ls =
     (let u = foldl (\<lambda>s x. set_add x s) s (nonempty_strs (map trim ls)) in (u, u))"
  by (induction ls arbitrary: s) (auto simp: dedup_step_def Let_def set_add_def)

lemma dedup_keys: "snd (foldl dedup_step ([], []) ls) = uniq (nonempty_strs (map trim ls))"
  by (simp add: dedup_fold Let_def uniq_def)

text \<open>The keys of a text: the non-blank lines, trimmed.\<close>

definition key_names :: "string \<Rightarrow> string list" where
  "key_names s = nonempty_strs (map trim (split_on (CHR 0x0A) s))"

lemma key_names_key_lines: "key_names s = map trim (key_lines s)"
  by (simp add: key_names_def key_lines_def filter_map o_def)

lemma key_names_blank: "trim s = [] \<Longrightarrow> key_names s = []"
  unfolding key_names_def filter_empty_conv
  using set_split_on [of _ "CHR 0x0A" s] by (fastforce simp: trim_eq_Nil)

lemma in_key_names:
  assumes "k \<in> set (key_names s)"
  shows "k \<noteq> []" "trim k = k" "CHR 0x0A \<notin> set k"
proof -
  from assms obtain l where l: "l \<in> set (split_on (CHR 0x0A) s)" "k = trim l" "k \<noteq> []"
    by (auto simp: key_names_def)
  then show "k \<noteq> []" "trim k = k" by simp_all
  show "CHR 0x0A \<notin> set k" using split_on_sep_free [OF l(1)] set_trim [of l] l(2) by blast
qed

lemma key_names_join:
  assumes "set ks \<subseteq> set (key_names s)"
  shows "key_names (join [CHR 0x0A] ks) = ks"
proof (cases "ks = []")
  case False
  have "\<forall>k \<in> set ks. CHR 0x0A \<notin> set k" "\<forall>k \<in> set ks. trim k = k" "\<forall>k \<in> set ks. k \<noteq> []"
    using assms in_key_names by blast+
  with False show ?thesis
    by (simp add: key_names_def split_on_join map_idI filter_id_conv)
qed (simp add: key_names_def)

lemma deduplicated_text:
  "deduplicatedText (deduplicateKeys keys) = join [CHR 0x0A] (uniq (key_names keys))"
  using key_names_blank [of keys]
  by (cases "trim keys = []") (auto simp: deduplicateKeys_def Let_def key_names_def dedup_keys)

lemma deduplicated_counts:
  "afterCount (deduplicateKeys keys) = int (length (uniq (key_names keys)))"
  "removedCount (deduplicateKeys keys)
     = beforeCount (deduplicateKeys keys) - afterCount (deduplicateKeys keys)"
proof -
  show "afterCount (deduplicateKeys keys) = int (length (uniq (key_names keys)))"
    using key_names_blank [of keys]
    by (cases "trim keys = []") (auto simp: deduplicateKeys_def Let_def key_names_def dedup_keys)
  show "removedCount (deduplicateKeys keys)
     = beforeCount (deduplicateKeys keys) - afterCount (deduplicateKeys keys)"
    by (simp add: deduplicateKeys_def Let_def)
qed

lemma before_count:
  "beforeCount (deduplicateKeys keys) = (if trim keys = [] then 0 else int (length (split_on (CHR 0x0A) keys)))"
  by (auto simp: deduplicateKeys_def Let_def)

lemma count_keys: "countKeys s = length (key_names s)"
  by (simp add: countKeys_def key_names_key_lines) (simp add: key_lines_def)

text \<open>Every line is a key or blank.\<close>

lemma lines_count:
  "length (split_on (CHR 0x0A) s) = length (key_names s) + length (filter (\<lambda>l. trim l = []) (split_on (CHR 0x0A) s))"
  using sum_length_filter_compl [of "\<lambda>l. trim l \<noteq> []" "split_on (CHR 0x0A) s"]
  by (simp add: key_names_key_lines key_lines_def)

text \<open> C36: Removing repeated keys keeps each key once, in the order of first appearance, and doing it
  again changes nothing. The count after is what the key counter finds in the new text. The count before
  is the number of lines, blank ones included (zero for a blank text), and the count removed is their difference:
  the repeated keys and the blank lines together. \<close>

theorem deduplicate_keeps_each_key_once:
  "map trim (key_lines (deduplicatedText (deduplicateKeys keys))) = uniq (map trim (key_lines keys))
   \<and> afterCount (deduplicateKeys keys) = int (countKeys (deduplicatedText (deduplicateKeys keys)))
   \<and> beforeCount (deduplicateKeys keys) = (if trim keys = [] then 0 else int (length (split_on (CHR 0x0A) keys)))
   \<and> removedCount (deduplicateKeys keys) =
       (int (countKeys keys) - int (length (uniq (map trim (key_lines keys)))))
       + (if trim keys = [] then 0 else int (length (filter (\<lambda>l. trim l = []) (split_on (CHR 0x0A) keys))))
   \<and> deduplicatedText (deduplicateKeys (deduplicatedText (deduplicateKeys keys)))
       = deduplicatedText (deduplicateKeys keys)"
proof -
  let ?new = "deduplicatedText (deduplicateKeys keys)"
  have names: "key_names ?new = uniq (key_names keys)"
    unfolding deduplicated_text by (rule key_names_join [of _ keys]) simp
  have "afterCount (deduplicateKeys keys) = int (countKeys ?new)"
    by (simp add: deduplicated_counts(1) names count_keys)
  moreover have "deduplicatedText (deduplicateKeys ?new) = ?new"
    unfolding deduplicated_text [of ?new] names by (simp add: deduplicated_text uniq_id)
  moreover note before = before_count [of keys]
  moreover have "removedCount (deduplicateKeys keys) =
      (int (countKeys keys) - int (length (uniq (key_names keys))))
      + (if trim keys = [] then 0 else int (length (filter (\<lambda>l. trim l = []) (split_on (CHR 0x0A) keys))))"
    using deduplicated_counts(1,2) [of keys] lines_count [of keys] before key_names_blank [of keys]
    by (simp add: count_keys)
  ultimately show ?thesis using names by (simp add: key_names_key_lines)
qed

text \<open>A final line break counts as a removed key, although no key was repeated.\<close>

lemma blank_line_counted:
  "removedCount (deduplicateKeys (''a'' @ CHR 0x0A # ''b'' @ [CHR 0x0A])) = 1
   \<and> distinct (map trim (key_lines (''a'' @ CHR 0x0A # ''b'' @ [CHR 0x0A])))"
  by code_simp

text \<open>The display of a single key longer than eight characters shows a prefix and a suffix of
  at most eight characters each and leaves out what is between them, at least one character.\<close>

lemma masked_key_hides_middle:
  assumes "length key > 8"
  shows "\<exists>p m q. key = p @ m @ q \<and> m \<noteq> [] \<and> length p \<le> 8 \<and> length q \<le> 8
    \<and> formatChannelKey key False = p @ ''...'' @ q"
proof -
  define n :: nat where "n = (if length key \<le> 16 then 4 else 8)"
  have n: "2 * n < length key" "n \<le> 8" using assms by (simp_all add: n_def)
  have "formatChannelKey key False = take n key @ ''...'' @ drop (length key - n) key"
    using assms by (auto simp: formatChannelKey_def slice_last_def n_def)
  moreover have "key = take n key @ take (length key - 2 * n) (drop n key) @ drop (length key - n) key"
  proof -
    have "length key - 2 * n + n = length key - n" using n by simp
    then have "take (length key - 2 * n) (drop n key) @ drop (length key - n) key = drop n key"
      using append_take_drop_id [of "length key - 2 * n" "drop n key"] by (simp add: drop_drop)
    then show ?thesis by simp
  qed
  moreover have "take (length key - 2 * n) (drop n key) \<noteq> []" using n by simp
  ultimately show ?thesis
    using n by (intro exI [of _ "take n key"] exI [of _ "take (length key - 2 * n) (drop n key)"]
        exI [of _ "drop (length key - n) key"]) simp
qed

text \<open>A key of eight characters is shown whole, and a shorter one more than once.\<close>

lemma short_key_shown_whole:
  assumes "length key = 8"
  shows "formatChannelKey key False = take 4 key @ ''...'' @ drop 4 key"
  using assms by (auto simp: formatChannelKey_def slice_last_def)

end
