(* ===== verification/Model_Redirect.thy ===== *)
theory Model_Redirect
  imports Js_Collections Js_Json_Laws
begin

text \<open>
  The model redirect rules of a channel (\<^verbatim>\<open>web/src/features/channels/lib/model-redirect-rules.ts\<close>)
  and the checks of the model mapping built on them (\<^verbatim>\<open>model-mapping-validation.ts\<close>): the rules as
  JSON text, their normal form, the lookup of the first rule that matches a model, and the
  validator. A legacy mapping is an object and becomes a list of exact rules. The constructor
  \<^verbatim>\<open>RegExp\<close> is the parameter \<open>newRegExp\<close>: the test of a pattern, or \<^const>\<open>None\<close> where it throws.
\<close>

section \<open>Rules\<close>

datatype ModelRedirectMatchType = MExact | MPrefix | MSuffix | MContains | MRegex

definition MODEL_REDIRECT_MATCH_TYPES :: "(string \<times> ModelRedirectMatchType) list" where
  "MODEL_REDIRECT_MATCH_TYPES =
     [(''exact'', MExact), (''prefix'', MPrefix), (''suffix'', MSuffix),
      (''contains'', MContains), (''regex'', MRegex)]"

definition MAX_MODEL_REDIRECT_RULES :: nat where "MAX_MODEL_REDIRECT_RULES = 100"
definition MAX_MODEL_REDIRECT_SOURCE_LENGTH :: nat where "MAX_MODEL_REDIRECT_SOURCE_LENGTH = 512"
definition MAX_MODEL_REDIRECT_TARGET_LENGTH :: nat where "MAX_MODEL_REDIRECT_TARGET_LENGTH = 255"

record ModelRedirectRule =
  match_type :: ModelRedirectMatchType
  source :: string
  target :: string

record ModelRedirectMatch =
  index :: nat
  rule :: ModelRedirectRule

fun isRedirectRecord :: "jsval \<Rightarrow> bool" where
  "isRedirectRecord (JObj _) = True"
| "isRedirectRecord _ = False"

text \<open>\<^verbatim>\<open>isMatchType(v) ? v : \<dots>\<close>: the match type a value names.\<close>

fun isMatchType :: "jsval \<Rightarrow> ModelRedirectMatchType option" where
  "isMatchType (JStr s) = map_of MODEL_REDIRECT_MATCH_TYPES s"
| "isMatchType _ = None"

fun as_string :: "jsval \<Rightarrow> string" where
  "as_string (JStr s) = s"
| "as_string _ = []"

definition rule_of_item :: "jsval \<Rightarrow> ModelRedirectRule" where
  "rule_of_item item =
     (if \<not> isRedirectRecord item then \<lparr>match_type = MExact, source = [], target = []\<rparr>
      else \<lparr>match_type = (case isMatchType (field item ''match_type'') of Some t \<Rightarrow> t | None \<Rightarrow> MExact),
            source = as_string (field item ''source''),
            target = as_string (field item ''target'')\<rparr>)"

fun normalizeModelRedirectRules :: "jsval \<Rightarrow> ModelRedirectRule list" where
  "normalizeModelRedirectRules (JObj kvs) =
     map (\<lambda>(src, tgt). \<lparr>match_type = MExact, source = src, target = as_string tgt\<rparr>)
       (js_sort (\<lambda>l r. str_cmp (fst l) (fst r)) kvs)"
| "normalizeModelRedirectRules (JArr items) = map rule_of_item items"
| "normalizeModelRedirectRules _ = []"

text \<open>\<^const>\<open>None\<close> where \<^verbatim>\<open>JSON.parse\<close> throws.\<close>

definition parseModelRedirectRules :: "string \<Rightarrow> ModelRedirectRule list option" where
  "parseModelRedirectRules v =
     (if trim v = [] then Some [] else map_option normalizeModelRedirectRules (JSON_parse v))"

fun match_type_name :: "ModelRedirectMatchType \<Rightarrow> string" where
  "match_type_name MExact = ''exact''"
| "match_type_name MPrefix = ''prefix''"
| "match_type_name MSuffix = ''suffix''"
| "match_type_name MContains = ''contains''"
| "match_type_name MRegex = ''regex''"

definition rule_json :: "ModelRedirectRule \<Rightarrow> jsval" where
  "rule_json r = JObj [(''match_type'', JStr (match_type_name (match_type r))),
     (''source'', JStr (source r)), (''target'', JStr (target r))]"

definition stringifyModelRedirectRules :: "ModelRedirectRule list \<Rightarrow> string" where
  "stringifyModelRedirectRules rules =
     (if length rules = 0 then [] else JSON_stringify ''  '' (JArr (map rule_json rules)))"

definition normalizeModelRedirectJson :: "string option \<Rightarrow> string" where
  "normalizeModelRedirectJson v =
     (case v of
        None \<Rightarrow> []
      | Some s \<Rightarrow>
          if trim s = [] then []
          else (case parseModelRedirectRules s of
                  Some rules \<Rightarrow> stringifyModelRedirectRules rules
                | None \<Rightarrow> s))"

section \<open>Lookup\<close>

definition ruleMatches :: "(string \<Rightarrow> (string \<Rightarrow> bool) option) \<Rightarrow> string \<Rightarrow> ModelRedirectRule \<Rightarrow> bool" where
  "ruleMatches newRegExp model r =
     (case match_type r of
        MExact \<Rightarrow> model = source r
      | MPrefix \<Rightarrow> startsWith model (source r)
      | MSuffix \<Rightarrow> endsWith model (source r)
      | MContains \<Rightarrow> str_includes model (source r)
      | MRegex \<Rightarrow> (case newRegExp (source r) of Some test \<Rightarrow> test model | None \<Rightarrow> False))"

fun find_from ::
  "(string \<Rightarrow> (string \<Rightarrow> bool) option) \<Rightarrow> string \<Rightarrow> nat \<Rightarrow> ModelRedirectRule list \<Rightarrow>
   ModelRedirectMatch option" where
  "find_from newRegExp model i [] = None"
| "find_from newRegExp model i (r # rs) =
     (if source r \<noteq> [] \<and> target r \<noteq> [] \<and> ruleMatches newRegExp model r
      then Some \<lparr>index = i, rule = r\<rparr>
      else find_from newRegExp model (i + 1) rs)"

definition findFirstModelRedirect ::
  "(string \<Rightarrow> (string \<Rightarrow> bool) option) \<Rightarrow> string \<Rightarrow> ModelRedirectRule list \<Rightarrow> ModelRedirectMatch option" where
  "findFirstModelRedirect newRegExp model rules = find_from newRegExp model 0 rules"

section \<open>Validation\<close>

record RedirectValidation =
  valid :: bool
  error :: "string option"

definition accepted :: RedirectValidation where
  "accepted = \<lparr>valid = True, error = None\<rparr>"

definition rejected :: "string \<Rightarrow> RedirectValidation" where
  "rejected e = \<lparr>valid = False, error = Some e\<rparr>"

text \<open>A required text: a string that is not blank.\<close>

fun is_text :: "jsval \<Rightarrow> bool" where
  "is_text (JStr s) = (trim s \<noteq> [])"
| "is_text _ = False"

definition identity :: "jsval \<Rightarrow> string" where
  "identity item = as_string (field item ''match_type'') @ CHR 0x00 # as_string (field item ''source'')"

fun validate_items ::
  "(string \<Rightarrow> (string \<Rightarrow> bool) option) \<Rightarrow> string list \<Rightarrow> jsval list \<Rightarrow> RedirectValidation" where
  "validate_items newRegExp seen [] = accepted"
| "validate_items newRegExp seen (item # items) =
     (if \<not> isRedirectRecord item then rejected ''Each model redirect rule must be an object''
      else if isMatchType (field item ''match_type'') = None
        then rejected ''Invalid model redirect match type''
      else if \<not> is_text (field item ''source'') \<or> \<not> is_text (field item ''target'')
        then rejected ''Model redirect source and target are required''
      else if length (as_string (field item ''source'')) > MAX_MODEL_REDIRECT_SOURCE_LENGTH
           \<or> length (as_string (field item ''target'')) > MAX_MODEL_REDIRECT_TARGET_LENGTH
        then rejected ''Model redirect rule is too long''
      else if isMatchType (field item ''match_type'') = Some MRegex
           \<and> newRegExp (as_string (field item ''source'')) = None
        then rejected ''Model redirect regex is invalid''
      else if identity item \<in> set seen
        then rejected ''Duplicate model redirect rules are not allowed''
      else validate_items newRegExp (set_add (identity item) seen) items)"

definition validateModelRedirectRules ::
  "(string \<Rightarrow> (string \<Rightarrow> bool) option) \<Rightarrow> string \<Rightarrow> RedirectValidation" where
  "validateModelRedirectRules newRegExp v =
     (if trim v = [] then accepted
      else
        (case JSON_parse v of
           None \<Rightarrow> rejected ''Model redirect rules must be valid JSON''
         | Some (JObj kvs) \<Rightarrow>
             if list_ex (\<lambda>tgt. \<not> is_string tgt) (map_values kvs)
             then rejected ''Legacy model mapping values must be strings''
             else accepted
         | Some (JArr items) \<Rightarrow>
             if length items > MAX_MODEL_REDIRECT_RULES then rejected ''Too many model redirect rules''
             else validate_items newRegExp [] items
         | Some _ \<Rightarrow> rejected ''Model redirect rules must be a JSON array''))"

section \<open>The model mapping of a channel\<close>

definition parseModelsString :: "string \<Rightarrow> string list" where
  "parseModelsString s = (if s \<noteq> [] then nonempty_strs (map trim (split_on CHR '','' s)) else [])"

definition formatModelsArray :: "string list \<Rightarrow> string" where
  "formatModelsArray ms = join '','' (uniq ms)"

definition normalizeModelName :: "string \<Rightarrow> string" where
  "normalizeModelName model = trim model"

definition extractMappingSourceModels :: "string \<Rightarrow> string list" where
  "extractMappingSourceModels modelMapping =
     (let trimmed = trim modelMapping in
      if trimmed = [] then []
      else (case parseModelRedirectRules trimmed of
              None \<Rightarrow> []
            | Some rules \<Rightarrow>
                uniq (nonempty_strs (map (\<lambda>r. trim (source r))
                  (filter (\<lambda>r. match_type r = MExact) rules)))))"

definition extractRedirectModels :: "string \<Rightarrow> string list" where
  "extractRedirectModels modelMapping =
     (let trimmed = trim modelMapping in
      if trimmed = [] then []
      else (case parseModelRedirectRules trimmed of
              None \<Rightarrow> []
            | Some rules \<Rightarrow> uniq (nonempty_strs (map (\<lambda>r. trim (target r)) rules))))"

definition validateModelMappingJson ::
  "(string \<Rightarrow> (string \<Rightarrow> bool) option) \<Rightarrow> string \<Rightarrow> RedirectValidation" where
  "validateModelMappingJson newRegExp modelMapping =
     (if modelMapping = [] \<or> trim modelMapping = [] then accepted
      else validateModelRedirectRules newRegExp modelMapping)"

definition findExposedTargetModels :: "string \<Rightarrow> string list \<Rightarrow> string list" where
  "findExposedTargetModels modelMapping currentModels =
     (let redirectModels = extractRedirectModels modelMapping in
      if length redirectModels = 0 then []
      else
        (let modelSet = uniq (map normalizeModelName currentModels) in
         filter (\<lambda>model. normalizeModelName model \<in> set modelSet) redirectModels))"

record RedirectCategories =
  normalizedCurrentModels :: "string list"
  normalizedRedirectModels :: "string list"
  classificationSet :: "string list"
  redirectOnlySet :: "string list"

definition categorizeModelsWithRedirect :: "string list \<Rightarrow> string list \<Rightarrow> RedirectCategories" where
  "categorizeModelsWithRedirect currentModels redirectModels =
     (let current = uniq (nonempty_strs (map normalizeModelName currentModels));
          redirect = uniq (nonempty_strs (map normalizeModelName redirectModels)) in
      \<lparr>normalizedCurrentModels = current,
       normalizedRedirectModels = redirect,
       classificationSet = uniq (current @ redirect),
       redirectOnlySet = uniq (filter (\<lambda>m. m \<notin> set current) redirect)\<rparr>)"

section \<open>Rules as text\<close>

lemma isMatchType_name: "isMatchType (JStr (match_type_name t)) = Some t"
  by (cases t) (simp_all add: MODEL_REDIRECT_MATCH_TYPES_def)

lemma isMatchType_Some: "isMatchType v = Some t \<longleftrightarrow> v = JStr (match_type_name t)"
  by (cases v; cases t) (auto simp: MODEL_REDIRECT_MATCH_TYPES_def)

lemma rule_json_record [simp]: "isRedirectRecord (rule_json r)"
  by (simp add: rule_json_def)

lemma rule_json_field [simp]:
  "field (rule_json r) ''match_type'' = JStr (match_type_name (match_type r))"
  "field (rule_json r) ''source'' = JStr (source r)"
  "field (rule_json r) ''target'' = JStr (target r)"
  by (simp_all add: rule_json_def)

lemma rule_of_rule_json [simp]: "rule_of_item (rule_json r) = r"
  by (simp add: rule_of_item_def isMatchType_name del: isMatchType.simps)

lemma rules_json_ok: "json_ok (JArr (map rule_json rules))"
proof -
  have "json_ok (rule_json r)" for r
    unfolding rule_json_def
    by (rule json_ok_obj) (simp_all add: is_index_def all_digits_def is_digit_def)
  then show ?thesis by (simp add: list_all_iff)
qed

lemma parse_stringify_rules:
  assumes "rules \<noteq> []"
  shows "JSON_parse (stringifyModelRedirectRules rules) = Some (JArr (map rule_json rules))"
    and "trim (stringifyModelRedirectRules rules) \<noteq> []"
proof -
  have "list_all json_ws ''  ''" by (simp add: json_ws_def)
  from parse_stringify [OF rules_json_ok this] assms
  show parse: "JSON_parse (stringifyModelRedirectRules rules) = Some (JArr (map rule_json rules))"
    by (simp add: stringifyModelRedirectRules_def)
  have "hd (stringifyModelRedirectRules rules) = CHR ''[''" "stringifyModelRedirectRules rules \<noteq> []"
    using assms by (cases rules; simp add: stringifyModelRedirectRules_def JSON_stringify_def)+
  then show "trim (stringifyModelRedirectRules rules) \<noteq> []"
    unfolding trim_eq_Nil by (metis hd_in_set bracket_not_ws)
qed

lemma parse_stringified: "parseModelRedirectRules (stringifyModelRedirectRules rules) = Some rules"
proof (cases "rules = []")
  case False
  then show ?thesis
    using parse_stringify_rules [OF False] by (simp add: parseModelRedirectRules_def o_def)
qed (simp add: stringifyModelRedirectRules_def parseModelRedirectRules_def)

lemma normalize_stringified:
  "normalizeModelRedirectJson (Some (stringifyModelRedirectRules rules)) = stringifyModelRedirectRules rules"
  using parse_stringified [of rules] parse_stringify_rules(2) [of rules]
  by (cases "rules = []") (simp_all add: normalizeModelRedirectJson_def stringifyModelRedirectRules_def)

text \<open> C38: The redirect rules written as text are read back as they were, and rewriting the text of a
  rule set into its normal form is idempotent: on legacy mappings, on rule arrays, on text that is
  not JSON (kept as it is) and on no text at all. \<close>

theorem redirect_text_round_trip:
  "parseModelRedirectRules (stringifyModelRedirectRules rules) = Some rules
   \<and> normalizeModelRedirectJson (Some (normalizeModelRedirectJson v)) = normalizeModelRedirectJson v"
proof (rule conjI)
  show "normalizeModelRedirectJson (Some (normalizeModelRedirectJson v)) = normalizeModelRedirectJson v"
  proof (cases "v = None \<or> trim (the v) = []")
    case True
    then have "normalizeModelRedirectJson v = []"
      by (cases v) (auto simp: normalizeModelRedirectJson_def)
    then show ?thesis by (simp add: normalizeModelRedirectJson_def)
  next
    case False
    then obtain s where v: "v = Some s" and s: "trim s \<noteq> []" by auto
    show ?thesis
    proof (cases "parseModelRedirectRules s")
      case None
      with v s show ?thesis by (simp add: normalizeModelRedirectJson_def)
    next
      case (Some rules)
      with v s have "normalizeModelRedirectJson v = stringifyModelRedirectRules rules"
        by (simp add: normalizeModelRedirectJson_def)
      then show ?thesis by (simp only: normalize_stringified)
    qed
  qed
qed (rule parse_stringified)

section \<open>What the validator accepts\<close>

definition rule_ok :: "(string \<Rightarrow> (string \<Rightarrow> bool) option) \<Rightarrow> ModelRedirectRule \<Rightarrow> bool" where
  "rule_ok newRegExp r \<longleftrightarrow> trim (source r) \<noteq> [] \<and> trim (target r) \<noteq> []
     \<and> length (source r) \<le> 512 \<and> length (target r) \<le> 255
     \<and> (match_type r = MRegex \<longrightarrow> newRegExp (source r) \<noteq> None)"

definition rules_ok :: "(string \<Rightarrow> (string \<Rightarrow> bool) option) \<Rightarrow> ModelRedirectRule list \<Rightarrow> bool" where
  "rules_ok newRegExp rules \<longleftrightarrow> length rules \<le> 100 \<and> list_all (rule_ok newRegExp) rules
     \<and> distinct (map (\<lambda>r. (match_type r, source r)) rules)"

text \<open>An item of the array that spells out its rule: no field is defaulted when it is read.\<close>

definition spelled :: "jsval \<Rightarrow> bool" where
  "spelled item \<longleftrightarrow> isRedirectRecord item \<and> isMatchType (field item ''match_type'') \<noteq> None
     \<and> is_string (field item ''source'') \<and> is_string (field item ''target'')"

definition ident :: "ModelRedirectRule \<Rightarrow> string" where
  "ident r = match_type_name (match_type r) @ CHR 0x00 # source r"

lemma ident_eq: "ident r = ident q \<longleftrightarrow> (match_type r, source r) = (match_type q, source q)"
  unfolding ident_def by (cases "match_type r"; cases "match_type q") simp_all

lemma distinct_ident: "distinct (map ident rules) \<longleftrightarrow> distinct (map (\<lambda>r. (match_type r, source r)) rules)"
  by (induction rules) (auto simp: image_iff ident_eq)

lemma is_text_iff: "is_text v \<longleftrightarrow> is_string v \<and> trim (as_string v) \<noteq> []"
  by (cases v) simp_all

lemma spelled_fields:
  assumes "spelled item"
  shows "isMatchType (field item ''match_type'') = Some (match_type (rule_of_item item))"
    and "as_string (field item ''source'') = source (rule_of_item item)"
    and "as_string (field item ''target'') = target (rule_of_item item)"
    and "identity item = ident (rule_of_item item)"
proof -
  obtain t where t: "isMatchType (field item ''match_type'') = Some t" "isRedirectRecord item"
    using assms by (auto simp: spelled_def)
  then show "isMatchType (field item ''match_type'') = Some (match_type (rule_of_item item))"
    "as_string (field item ''source'') = source (rule_of_item item)"
    "as_string (field item ''target'') = target (rule_of_item item)"
    "identity item = ident (rule_of_item item)"
    by (simp_all add: rule_of_item_def identity_def ident_def isMatchType_Some isMatchType_name
        del: isMatchType.simps)
qed

lemma item_accepted:
  "valid (validate_items newRegExp seen (item # items)) \<longleftrightarrow>
     spelled item \<and> rule_ok newRegExp (rule_of_item item) \<and> ident (rule_of_item item) \<notin> set seen
     \<and> valid (validate_items newRegExp (set_add (ident (rule_of_item item)) seen) items)"
proof (cases "spelled item")
  case True
  then show ?thesis
    unfolding validate_items.simps is_text_iff spelled_fields [OF True]
    by (auto simp: spelled_def rule_ok_def rejected_def
        MAX_MODEL_REDIRECT_SOURCE_LENGTH_def MAX_MODEL_REDIRECT_TARGET_LENGTH_def)
next
  case False
  then show ?thesis
    unfolding validate_items.simps is_text_iff by (auto simp: spelled_def rejected_def)
qed

lemma items_accepted:
  "valid (validate_items newRegExp seen items) \<longleftrightarrow>
     list_all spelled items \<and> list_all (rule_ok newRegExp) (map rule_of_item items)
     \<and> distinct (map ident (map rule_of_item items))
     \<and> ident ` set (map rule_of_item items) \<inter> set seen = {}"
proof (induction items arbitrary: seen)
  case Nil
  show ?case by (simp add: accepted_def)
next
  case (Cons item items)
  show ?case unfolding item_accepted Cons.IH by auto
qed

lemma rule_json_spelled: "list_all spelled (map rule_json rules)"
  by (simp add: list_all_iff spelled_def isMatchType_name del: isMatchType.simps)

text \<open> C39: The validator of redirect rules accepts exactly blank text, a legacy mapping to strings, and
  an array of at most a hundred objects that spell out rules with a known match type, a source and a
  target that are not blank and not too long, a regular expression that compiles, and no two rules
  of the same type and source. The text of a rule list is therefore accepted exactly when the rules
  are in order. \<close>

theorem redirect_validator_accepts_exactly:
  "(valid (validateModelRedirectRules newRegExp v) \<longleftrightarrow>
      trim v = []
      \<or> (\<exists>kvs. JSON_parse v = Some (JObj kvs) \<and> list_all is_string (map snd kvs))
      \<or> (\<exists>items. JSON_parse v = Some (JArr items) \<and> list_all spelled items
           \<and> rules_ok newRegExp (map rule_of_item items)))
   \<and> (valid (validateModelRedirectRules newRegExp (stringifyModelRedirectRules rs)) \<longleftrightarrow>
      rules_ok newRegExp rs)"
proof -
  have arr: "valid (if length items > MAX_MODEL_REDIRECT_RULES then rejected ''Too many model redirect rules''
        else validate_items newRegExp [] items)
      \<longleftrightarrow> list_all spelled items \<and> rules_ok newRegExp (map rule_of_item items)" for items
    unfolding rules_ok_def distinct_ident [symmetric]
    by (simp add: items_accepted rejected_def MAX_MODEL_REDIRECT_RULES_def)
  have text_iff: "valid (validateModelRedirectRules newRegExp w) \<longleftrightarrow>
      trim w = []
      \<or> (\<exists>kvs. JSON_parse w = Some (JObj kvs) \<and> list_all is_string (map snd kvs))
      \<or> (\<exists>items. JSON_parse w = Some (JArr items) \<and> list_all spelled items
           \<and> rules_ok newRegExp (map rule_of_item items))" for w
    unfolding validateModelRedirectRules_def
    by (cases "JSON_parse w"; cases "the (JSON_parse w)")
      (auto simp: arr accepted_def rejected_def list_ex_iff list_all_iff)
  show ?thesis
  proof (rule conjI [OF text_iff], cases "rs = []")
    case True
    then show "valid (validateModelRedirectRules newRegExp (stringifyModelRedirectRules rs)) \<longleftrightarrow>
      rules_ok newRegExp rs"
      by (simp add: text_iff stringifyModelRedirectRules_def rules_ok_def)
  next
    case False
    show "valid (validateModelRedirectRules newRegExp (stringifyModelRedirectRules rs)) \<longleftrightarrow>
      rules_ok newRegExp rs"
      unfolding text_iff using parse_stringify_rules [OF False] by (simp add: rule_json_spelled o_def)
  qed
qed

section \<open>The first rule that matches\<close>

definition applies :: "(string \<Rightarrow> (string \<Rightarrow> bool) option) \<Rightarrow> string \<Rightarrow> ModelRedirectRule \<Rightarrow> bool" where
  "applies newRegExp model r \<longleftrightarrow> source r \<noteq> [] \<and> target r \<noteq> [] \<and> ruleMatches newRegExp model r"

lemma find_from_Some:
  "find_from newRegExp model i rules = Some m \<longleftrightarrow>
     (\<exists>as bs. rules = as @ rule m # bs \<and> index m = i + length as
        \<and> applies newRegExp model (rule m) \<and> list_all (\<lambda>r. \<not> applies newRegExp model r) as)"
proof (induction rules arbitrary: i)
  case (Cons r rs)
  show ?case
  proof (cases "applies newRegExp model r")
    case True
    then have "find_from newRegExp model i (r # rs) = Some m \<longleftrightarrow> m = \<lparr>index = i, rule = r\<rparr>"
      by (auto simp: applies_def)
    with True show ?thesis
      by (cases m) (auto simp: Cons_eq_append_conv intro: exI [of _ "[]"])
  next
    case False
    then have step: "find_from newRegExp model i (r # rs) = find_from newRegExp model (i + 1) rs"
      by (auto simp: applies_def)
    show ?thesis
      unfolding step Cons.IH using False
      by (auto simp: Cons_eq_append_conv) (rule exI, rule conjI, rule exI, rule disjI2, auto)
  qed
qed simp

lemma first_redirect:
  "findFirstModelRedirect newRegExp model rules = Some m \<longleftrightarrow>
     (\<exists>as bs. rules = as @ rule m # bs \<and> index m = length as
        \<and> applies newRegExp model (rule m) \<and> list_all (\<lambda>r. \<not> applies newRegExp model r) as)"
  by (simp add: findFirstModelRedirect_def find_from_Some)

text \<open>A rule the validator accepts is never skipped for an empty source or target.\<close>

lemma accepted_rule_applies:
  "rule_ok newRegExp r \<Longrightarrow> applies newRegExp model r \<longleftrightarrow> ruleMatches newRegExp model r"
  by (auto simp: rule_ok_def applies_def)

text \<open>The models shown as redirect-only are the redirect targets outside the model list.\<close>

lemma redirect_categories:
  "set (classificationSet (categorizeModelsWithRedirect c r))
     = set (normalizedCurrentModels (categorizeModelsWithRedirect c r))
       \<union> set (normalizedRedirectModels (categorizeModelsWithRedirect c r))"
  "set (redirectOnlySet (categorizeModelsWithRedirect c r))
     = set (normalizedRedirectModels (categorizeModelsWithRedirect c r))
       - set (normalizedCurrentModels (categorizeModelsWithRedirect c r))"
  by (auto simp: categorizeModelsWithRedirect_def Let_def)

end
