(* ===== verification/Status_Code_Guard.thy ===== *)
theory Status_Code_Guard
  imports Js_Collections Js_Json
begin

text \<open>
  The guard on a channel's status code mapping
  (\<^verbatim>\<open>web/src/features/channels/lib/status-code-risk-guard.ts\<close>): which entries of the JSON mapping are
  not redirects of one status code to another, which redirect a gateway timeout, and which of those
  are new. The lemmas characterise the three results on any text, JSON or not.
\<close>

section \<open>Definitions\<close>

definition NON_REDIRECTABLE_STATUS_CODES :: "int list" where
  "NON_REDIRECTABLE_STATUS_CODES = [504, 524]"

text \<open>The pattern \<^verbatim>\<open>^[1-5]\d{2}$\<close>.\<close>

definition status_code_pattern :: "string \<Rightarrow> bool" where
  "status_code_pattern s \<longleftrightarrow> length s = 3 \<and> all_digits s \<and> hd s \<in> set ''12345''"

definition parseStatusCodeKey :: "string \<Rightarrow> int option" where
  "parseStatusCodeKey rawKey =
     (let normalized = trim rawKey in
      if \<not> status_code_pattern normalized then None else Some (int (digits_val normalized)))"

definition parseStatusCodeMappingTarget :: "jsval \<Rightarrow> int option" where
  "parseStatusCodeMappingTarget rawValue =
     (case rawValue of
        JNum (Fin q) \<Rightarrow>
          if of_int \<lfloor>q\<rfloor> = q then (if 100 \<le> q \<and> q \<le> 599 then Some \<lfloor>q\<rfloor> else None) else None
      | JStr s \<Rightarrow>
          (let normalized = trim s in
           if \<not> status_code_pattern normalized then None
           else
             (let code = int (digits_val normalized) in
              if 100 \<le> code \<and> code \<le> 599 then Some code else None))
      | _ \<Rightarrow> None)"

text \<open>The entries both collectors loop over; the early returns give none.\<close>

definition mapping_entries :: "string option \<Rightarrow> (string \<times> jsval) list" where
  "mapping_entries s =
     (case s of
        None \<Rightarrow> []
      | Some s \<Rightarrow>
          if trim s = [] then []
          else (case JSON_parse s of Some (JObj kvs) \<Rightarrow> kvs | _ \<Rightarrow> []))"

text \<open>The arrow U+2192 in the UTF-8 bytes of the source.\<close>

definition arrow :: string where
  "arrow = [CHR 0xE2, CHR 0x86, CHR 0x92]"

definition collectInvalidStatusCodeEntries :: "string option \<Rightarrow> string list" where
  "collectInvalidStatusCodeEntries s =
     concat (map (\<lambda>(rawKey, rawValue).
       if parseStatusCodeKey rawKey = None \<or> parseStatusCodeMappingTarget rawValue = None
       then [rawKey @ '' '' @ arrow @ '' '' @ to_str rawValue] else []) (mapping_entries s))"

definition risky_mapping :: "string \<times> jsval \<Rightarrow> string list" where
  "risky_mapping = (\<lambda>(rawFrom, rawTo).
     case (parseStatusCodeKey rawFrom, parseStatusCodeMappingTarget rawTo) of
       (Some fromCode, Some toCode) \<Rightarrow>
         if fromCode \<notin> set NON_REDIRECTABLE_STATUS_CODES then []
         else if fromCode = toCode then []
         else [int_str fromCode @ '' -> '' @ int_str toCode]
     | _ \<Rightarrow> [])"

definition collectDisallowedStatusCodeRedirects :: "string option \<Rightarrow> string list" where
  "collectDisallowedStatusCodeRedirects s =
     js_sort str_cmp (uniq (concat (map risky_mapping (mapping_entries s))))"

definition collectNewDisallowedStatusCodeRedirects :: "string option \<Rightarrow> string option \<Rightarrow> string list" where
  "collectNewDisallowedStatusCodeRedirects originalStr currentStr =
     (let currentRisky = collectDisallowedStatusCodeRedirects currentStr in
      if length currentRisky = 0 then []
      else filter (\<lambda>mapping. mapping \<notin> set (collectDisallowedStatusCodeRedirects originalStr)) currentRisky)"

section \<open>What the guard reports\<close>

lemma digit_val_le: "is_digit c \<Longrightarrow> digit_val c \<le> 9"
  by (auto simp: is_digit_def digit_val_def Let_def)

lemma status_code_range:
  assumes "status_code_pattern s"
  shows "100 \<le> digits_val s" "digits_val s \<le> 599"
proof -
  obtain a b c where s: "s = [a, b, c]"
    using assms by (auto simp: status_code_pattern_def numeral_3_eq_3 length_Suc_conv)
  have "digit_val b \<le> 9" "digit_val c \<le> 9"
    using assms by (simp_all add: s status_code_pattern_def all_digits_def digit_val_le)
  moreover have "1 \<le> digit_val a \<and> digit_val a \<le> 5"
    using assms by (auto simp: s status_code_pattern_def digit_val_def)
  ultimately
  show "100 \<le> digits_val s" "digits_val s \<le> 599"
    by (simp_all add: s digits_val_def)
qed

lemma key_range: "parseStatusCodeKey k = Some c \<Longrightarrow> 100 \<le> c \<and> c \<le> 599"
  using status_code_range by (fastforce simp: parseStatusCodeKey_def Let_def split: if_splits)

lemma target_range: "parseStatusCodeMappingTarget v = Some c \<Longrightarrow> 100 \<le> c \<and> c \<le> 599"
  by (auto simp: parseStatusCodeMappingTarget_def Let_def le_floor_iff floor_le_iff
      split: jsval.splits jsnum.splits if_splits)

lemma risky_mapping_iff:
  "m \<in> set (risky_mapping (k, v)) \<longleftrightarrow>
     (\<exists>a b. parseStatusCodeKey k = Some a \<and> parseStatusCodeMappingTarget v = Some b
        \<and> (a = 504 \<or> a = 524) \<and> a \<noteq> b \<and> m = int_str a @ '' -> '' @ int_str b)"
  by (cases "parseStatusCodeKey k"; cases "parseStatusCodeMappingTarget v")
    (auto simp: risky_mapping_def NON_REDIRECTABLE_STATUS_CODES_def)

lemma risky_iff:
  "m \<in> set (collectDisallowedStatusCodeRedirects s) \<longleftrightarrow>
     (\<exists>k v a b. (k, v) \<in> set (mapping_entries s)
        \<and> parseStatusCodeKey k = Some a \<and> parseStatusCodeMappingTarget v = Some b
        \<and> (a = 504 \<or> a = 524) \<and> a \<noteq> b \<and> m = int_str a @ '' -> '' @ int_str b)"
proof -
  have "m \<in> set (collectDisallowedStatusCodeRedirects s) \<longleftrightarrow>
      (\<exists>k v. (k, v) \<in> set (mapping_entries s) \<and> m \<in> set (risky_mapping (k, v)))"
    by (auto simp: collectDisallowedStatusCodeRedirects_def)
  then show ?thesis by (simp add: risky_mapping_iff)
qed

lemma risky_distinct: "distinct (collectDisallowedStatusCodeRedirects s)"
  by (simp add: collectDisallowedStatusCodeRedirects_def)

lemma new_risky_iff:
  "m \<in> set (collectNewDisallowedStatusCodeRedirects old new) \<longleftrightarrow>
     m \<in> set (collectDisallowedStatusCodeRedirects new) \<and> m \<notin> set (collectDisallowedStatusCodeRedirects old)"
  by (auto simp: collectNewDisallowedStatusCodeRedirects_def Let_def)

lemma no_new_risk: "collectNewDisallowedStatusCodeRedirects s s = []"
  by (auto simp: collectNewDisallowedStatusCodeRedirects_def Let_def filter_empty_conv)

end
