(* ===== verification/Js_Regex.thy ===== *)
theory Js_Regex
  imports Js_Prelude
begin

text \<open>
  The part of the regular expressions of JavaScript that the sources use: a backtracking matcher
  that lists the ways a pattern matches at the start of a string, in the order in which the engine
  tries them, with the captures of each. \<^verbatim>\<open>^r$\<close> is \<open>full_match\<close>, a search is \<open>exec_from\<close>. A group
  inside a repetition keeps its last capture (no pattern of the sources reads one), and the input
  is a sequence of bytes, so a class matches one byte.
\<close>

section \<open>The matcher\<close>

datatype regex =
    REps
  | RClass "char \<Rightarrow> bool"
  | RSeq regex regex
  | RAlt regex regex
  | RStar regex
  | RGroup nat regex
  | RBack nat
  | RWordEnd

type_synonym captures = "(nat \<times> string) list"
type_synonym mstate = "string \<times> captures"

text \<open>
  A greedy repetition tries another round first. A round that consumes nothing is given up, so the
  length of the rest bounds the number of rounds.
\<close>

fun star_match :: "nat \<Rightarrow> (mstate \<Rightarrow> mstate list) \<Rightarrow> mstate \<Rightarrow> mstate list" where
  "star_match 0 f s = [s]"
| "star_match (Suc n) f s =
     concat (map (\<lambda>s'. if length (fst s') < length (fst s) then star_match n f s' else []) (f s)) @ [s]"

definition is_word :: "char \<Rightarrow> bool" where
  "is_word c \<longleftrightarrow> (let n = (of_char c :: nat) in
     48 \<le> n \<and> n \<le> 57 \<or> 65 \<le> n \<and> n \<le> 90 \<or> n = 95 \<or> 97 \<le> n \<and> n \<le> 122)"

definition cap :: "captures \<Rightarrow> nat \<Rightarrow> string" where
  "cap cs n = (case map_of cs n of None \<Rightarrow> [] | Some s \<Rightarrow> s)"

primrec rx_match :: "regex \<Rightarrow> mstate \<Rightarrow> mstate list" where
  "rx_match REps s = [s]"
| "rx_match (RClass C) s =
     (case fst s of [] \<Rightarrow> [] | c # r \<Rightarrow> if C c then [(r, snd s)] else [])"
| "rx_match (RSeq a b) s = concat (map (rx_match b) (rx_match a s))"
| "rx_match (RAlt a b) s = rx_match a s @ rx_match b s"
| "rx_match (RStar a) s = star_match (length (fst s)) (rx_match a) s"
| "rx_match (RGroup n a) s =
     map (\<lambda>s'. (fst s', (n, take (length (fst s) - length (fst s')) (fst s)) # snd s')) (rx_match a s)"
| "rx_match (RBack n) s =
     (let w = cap (snd s) n in
      if startsWith (fst s) w then [(drop (length w) (fst s), snd s)] else [])"
| "rx_match RWordEnd s =
     (if fst s = [] \<or> \<not> is_word (hd (fst s)) then [s] else [])"

text \<open>\<open>RWordEnd\<close> is \<^verbatim>\<open>\b\<close> after a word character.\<close>

definition full_match :: "regex \<Rightarrow> string \<Rightarrow> captures option" where
  "full_match r s =
     (case filter (\<lambda>s'. fst s' = []) (rx_match r (s, [])) of [] \<Rightarrow> None | s' # _ \<Rightarrow> Some (snd s'))"

text \<open>
  \<^verbatim>\<open>re.exec(s)\<close> of a pattern with flag \<^verbatim>\<open>g\<close>, from a position on: the captures of the first match and
  what follows it. \<open>start\<close> says whether a match may begin after the given character, for a pattern
  that begins with \<^verbatim>\<open>\b\<close>.
\<close>

fun exec_from :: "(char option \<Rightarrow> bool) \<Rightarrow> regex \<Rightarrow> char option \<Rightarrow> string \<Rightarrow> (captures \<times> char option \<times> string) option" where
  "exec_from start r prev s =
     (case (if start prev then rx_match r (s, []) else []) of
        (rest, cs) # _ \<Rightarrow>
          Some (cs, (let w = take (length s - length rest) s in if w = [] then prev else Some (last w)), rest)
      | [] \<Rightarrow> (case s of [] \<Rightarrow> None | c # s' \<Rightarrow> exec_from start r (Some c) s'))"

definition anywhere :: "char option \<Rightarrow> bool" where
  "anywhere prev = True"

definition word_start :: "char option \<Rightarrow> bool" where
  "word_start prev \<longleftrightarrow> (case prev of None \<Rightarrow> True | Some c \<Rightarrow> \<not> is_word c)"

text \<open>
  The loop \<^verbatim>\<open>while ((m = re.exec(s)) !== null)\<close>. No match of the patterns it is used on is empty, so
  the length of the text bounds the number of rounds.
\<close>

fun exec_all :: "nat \<Rightarrow> (char option \<Rightarrow> bool) \<Rightarrow> regex \<Rightarrow> char option \<Rightarrow> string \<Rightarrow> captures list" where
  "exec_all 0 start r prev s = []"
| "exec_all (Suc n) start r prev s =
     (case exec_from start r prev s of
        None \<Rightarrow> []
      | Some (cs, prev', rest) \<Rightarrow> cs # exec_all n start r prev' rest)"

section \<open>Patterns\<close>

definition RPlus :: "regex \<Rightarrow> regex" where
  "RPlus r = RSeq r (RStar r)"

definition ROpt :: "regex \<Rightarrow> regex" where
  "ROpt r = RAlt r REps"

definition lit :: "string \<Rightarrow> regex" where
  "lit w = foldr (\<lambda>c. RSeq (RClass (\<lambda>d. d = c))) w REps"

definition rseq :: "regex list \<Rightarrow> regex" where
  "rseq rs = foldr RSeq rs REps"

fun ralt :: "regex list \<Rightarrow> regex" where
  "ralt [] = REps"
| "ralt [r] = r"
| "ralt (r # rs) = RAlt r (ralt rs)"

section \<open>Laws of the matcher\<close>

lemma concat_single [simp]: "concat (map (\<lambda>x. [f x]) xs) = map f xs"
  by (induction xs) simp_all

lemma match_lit: "rx_match (lit w) (s, cs) = (if startsWith s w then [(drop (length w) s, cs)] else [])"
proof (induction w arbitrary: s)
  case (Cons c w)
  then show ?case by (cases s) (simp_all add: lit_def)
qed (simp add: lit_def)

lemma match_rseq [simp]:
  "rx_match (rseq []) s = [s]"
  "rx_match (rseq (r # rs)) s = concat (map (rx_match (rseq rs)) (rx_match r s))"
  by (simp_all add: rseq_def)

text \<open>What a pattern consumes is a prefix, made of characters its classes allow.\<close>

primrec over :: "(char \<Rightarrow> bool) \<Rightarrow> regex \<Rightarrow> bool" where
  "over P REps = True"
| "over P (RClass C) = (\<forall>c. C c \<longrightarrow> P c)"
| "over P (RSeq a b) = (over P a \<and> over P b)"
| "over P (RAlt a b) = (over P a \<and> over P b)"
| "over P (RStar a) = over P a"
| "over P (RGroup n a) = over P a"
| "over P (RBack n) = False"
| "over P RWordEnd = True"

lemma star_over:
  assumes "\<And>s s'. s' \<in> set (f s) \<Longrightarrow> \<exists>u. fst s = u @ fst s' \<and> list_all P u"
  shows "s' \<in> set (star_match n f s) \<Longrightarrow> \<exists>u. fst s = u @ fst s' \<and> list_all P u"
proof (induction n arbitrary: s)
  case 0
  then show ?case by simp
next
  case (Suc n)
  show ?case
  proof (cases "s' = s")
    case False
    with Suc.prems obtain m where m: "m \<in> set (f s)" "s' \<in> set (star_match n f m)"
      by (auto split: if_splits)
    from assms [OF m(1)] obtain u where u: "fst s = u @ fst m" "list_all P u" by blast
    from Suc.IH [OF m(2)] obtain v where v: "fst m = v @ fst s'" "list_all P v" by blast
    show ?thesis by (rule exI [of _ "u @ v"]) (simp add: u v)
  qed simp
qed

lemma match_over:
  "over P r \<Longrightarrow> s' \<in> set (rx_match r s) \<Longrightarrow> \<exists>u. fst s = u @ fst s' \<and> list_all P u"
proof (induction r arbitrary: s s')
  case (RClass C)
  then show ?case by (cases "fst s") (auto split: if_splits intro: exI [of _ "[c]" for c])
next
  case (RSeq a b)
  then obtain m where m: "m \<in> set (rx_match a s)" "s' \<in> set (rx_match b m)" by auto
  from RSeq.IH(1) [OF _ m(1)] RSeq.prems(1) obtain u where u: "fst s = u @ fst m" "list_all P u" by auto
  from RSeq.IH(2) [OF _ m(2)] RSeq.prems(1) obtain v where v: "fst m = v @ fst s'" "list_all P v" by auto
  show ?case by (rule exI [of _ "u @ v"]) (simp add: u v)
next
  case (RStar r)
  have "over P r" using RStar.prems(1) by simp
  from star_over [of "rx_match r", OF RStar.IH [OF this]] RStar.prems(2) show ?case by simp
next
  case (RGroup n r)
  then obtain m where "m \<in> set (rx_match r s)" "fst s' = fst m" by auto
  with RGroup.IH [of m s] RGroup.prems(1) show ?case by simp
qed auto

lemma over_lit: "over P (lit w) \<longleftrightarrow> list_all P w"
  by (induction w) (auto simp: lit_def)

lemma over_rseq: "over P (rseq rs) \<longleftrightarrow> list_all (over P) rs"
  by (induction rs) (simp_all add: rseq_def)

lemma full_match_Some: "full_match r s = Some cs \<Longrightarrow> ([], cs) \<in> set (rx_match r (s, []))"
proof -
  let ?L = "filter (\<lambda>s'. fst s' = []) (rx_match r (s, []))"
  assume m: "full_match r s = Some cs"
  show ?thesis
  proof (cases ?L)
    case Nil
    with m show ?thesis unfolding full_match_def by simp
  next
    case (Cons s' xs)
    have s': "s' \<in> set ?L" unfolding Cons by simp
    have "snd s' = cs" using m unfolding full_match_def Cons by simp
    with s' have "s' = ([], cs)" by (simp add: prod_eq_iff)
    with s' show ?thesis by simp
  qed
qed

lemma full_match_over: "full_match r s \<noteq> None \<Longrightarrow> over P r \<Longrightarrow> list_all P s"
  using full_match_Some match_over by fastforce

text \<open>
  A repetition whose rounds are forced: the text is a list of pieces, each matched by the body in
  one way, and the body fails on what follows. The matches are then the suffixes, longest match
  first.
\<close>

definition forced :: "regex \<Rightarrow> string list \<Rightarrow> string \<Rightarrow> bool" where
  "forced r ws t \<longleftrightarrow> (\<forall>w \<in> set ws. w \<noteq> [] \<and> (\<forall>s cs. rx_match r (w @ s, cs) = [(s, cs)]))
     \<and> (\<forall>cs. rx_match r (t, cs) = [])"

fun tails :: "string list \<Rightarrow> string \<Rightarrow> string list" where
  "tails [] t = [t]"
| "tails (w # ws) t = tails ws t @ [w @ concat ws @ t]"

lemma star_forced:
  assumes "forced r ws t" and "length (concat ws @ t) \<le> n"
  shows "star_match n (rx_match r) (concat ws @ t, cs) = map (\<lambda>u. (u, cs)) (tails ws t)"
  using assms
proof (induction ws arbitrary: n)
  case Nil
  then show ?case by (cases n) (simp_all add: forced_def)
next
  case (Cons w ws)
  have w: "w \<noteq> []" "\<And>s cs. rx_match r (w @ s, cs) = [(s, cs)]" and ws: "forced r ws t"
    using Cons.prems(1) by (auto simp: forced_def)
  obtain k where n: "n = Suc k" using Cons.prems(2) w(1) by (cases n) auto
  have "length (concat ws @ t) \<le> k" using Cons.prems(2) w(1) n by (cases w) auto
  with Cons.IH [OF ws] show ?case by (simp add: n w)
qed

lemma match_star_forced:
  "forced r ws t \<Longrightarrow> rx_match (RStar r) (concat ws @ t, cs) = map (\<lambda>u. (u, cs)) (tails ws t)"
  by (simp add: star_forced)

text \<open>Only the whole text leaves a rest that starts with a character no piece starts with.\<close>

lemma tails_stuck:
  assumes "\<forall>w \<in> set ws. w \<noteq> [] \<and> \<not> Q (hd w)" and "\<And>u. u \<noteq> [] \<Longrightarrow> \<not> Q (hd u) \<Longrightarrow> F u = []"
  shows "concat (map F (tails ws t)) = F t"
  using assms(1)
proof (induction ws)
  case (Cons w ws)
  then have "F (w @ concat ws @ t) = []" by (intro assms(2)) auto
  with Cons show ?case by simp
qed simp

text \<open>Rewriting a sequence from its first pattern on.\<close>

lemma seq_lit:
  "rx_match (rseq (lit w # rs)) (s, cs) =
     (if startsWith s w then rx_match (rseq rs) (drop (length w) s, cs) else [])"
  by (simp add: match_lit)

lemma seq_group_lit:
  "rx_match (rseq (RGroup n (lit w) # rs)) (s, cs) =
     (if startsWith s w then rx_match (rseq rs) (drop (length w) s, (n, w) # cs) else [])"
  by (auto simp: match_lit startsWith_iff)

lemma seq_group_alt:
  "rx_match (rseq (RGroup n (RAlt a b) # rs)) s =
     rx_match (rseq (RGroup n a # rs)) s @ rx_match (rseq (RGroup n b # rs)) s"
  by simp

lemma seq_back:
  "rx_match (rseq (RBack n # rs)) (s, cs) =
     (if startsWith s (cap cs n) then rx_match (rseq rs) (drop (length (cap cs n)) s, cs) else [])"
  by (simp add: Let_def)

lemma plus_forced:
  assumes "forced r (w # ws) t"
  shows "rx_match (RPlus r) (concat (w # ws) @ t, cs) = map (\<lambda>u. (u, cs)) (tails ws t)"
proof -
  from assms have "forced r ws t" "rx_match r (w @ concat ws @ t, cs) = [(concat ws @ t, cs)]"
    by (auto simp: forced_def)
  then show ?thesis by (simp add: RPlus_def match_star_forced del: rx_match.simps(5))
qed

text \<open>A repetition in a group, up to a literal that no round can start.\<close>

lemma seq_stuck:
  assumes "rx_match r (x @ q # t, cs) = map (\<lambda>u. (u, cs)) (tails ws (q # t))"
    and "\<forall>w \<in> set ws. w \<noteq> [] \<and> hd w \<noteq> q"
  shows "rx_match (rseq (RGroup n r # lit (q # l) # rs)) (x @ q # t, cs) =
     rx_match (rseq (lit (q # l) # rs)) (q # t, (n, x) # cs)"
proof -
  define F where "F = (\<lambda>u. rx_match (rseq (lit (q # l) # rs))
      (u, (n, take (length (x @ q # t) - length u) (x @ q # t)) # cs))"
  have "rx_match (rseq (RGroup n r # lit (q # l) # rs)) (x @ q # t, cs)
      = concat (map F (tails ws (q # t)))"
    unfolding match_rseq(2) [of "RGroup n r"] by (simp add: assms(1) F_def o_def)
  also have "\<dots> = F (q # t)"
  proof (rule tails_stuck [where Q = "\<lambda>c. c = q"])
    show "\<forall>w \<in> set ws. w \<noteq> [] \<and> hd w \<noteq> q" by (rule assms(2))
    show "F u = []" if "u \<noteq> []" "hd u \<noteq> q" for u
      using that by (cases u) (simp_all add: F_def match_lit)
  qed
  finally show ?thesis by (simp add: F_def)
qed

definition singles :: "string \<Rightarrow> string list" where
  "singles x = map (\<lambda>c. [c]) x"

lemma concat_singles [simp]: "concat (singles x) = x"
  by (induction x) (simp_all add: singles_def)

lemma forced_class: "forced (RClass C) (singles x) t \<longleftrightarrow> list_all C x \<and> (t = [] \<or> \<not> C (hd t))"
  by (cases t) (auto simp: forced_def singles_def list_all_iff)

lemma plus_class:
  assumes "x \<noteq> []" "list_all C x" "t = [] \<or> \<not> C (hd t)"
  shows "rx_match (RPlus (RClass C)) (x @ t, cs) = map (\<lambda>u. (u, cs)) (tails (singles (tl x)) t)"
proof -
  have "singles x = [hd x] # singles (tl x)" using assms(1) by (cases x) (simp_all add: singles_def)
  moreover have "forced (RClass C) (singles x) t" using assms by (simp add: forced_class)
  ultimately show ?thesis using plus_forced [of "RClass C" "[hd x]" "singles (tl x)" t cs]
    using assms(1) by (cases x) simp_all
qed

lemma seq_plus:
  assumes "x \<noteq> []" "list_all C x" "\<not> C q"
  shows "rx_match (rseq (RGroup n (RPlus (RClass C)) # lit (q # l) # rs)) (x @ q # t, cs) =
     rx_match (rseq (lit (q # l) # rs)) (q # t, (n, x) # cs)"
proof (rule seq_stuck)
  show "rx_match (RPlus (RClass C)) (x @ q # t, cs) = map (\<lambda>u. (u, cs)) (tails (singles (tl x)) (q # t))"
    using assms by (intro plus_class) simp_all
  show "\<forall>w \<in> set (singles (tl x)). w \<noteq> [] \<and> hd w \<noteq> q"
    using assms by (cases x) (auto simp: singles_def list_all_iff)
qed

lemma tails_singles: "tails (singles x) t = map (\<lambda>k. drop k x @ t) (rev [0..<Suc (length x)])"
proof (induction x)
  case (Cons c x)
  have "[0..<Suc (length (c # x))] = 0 # map Suc [0..<Suc (length x)]"
    by (simp add: upt_conv_Cons map_Suc_upt del: upt_Suc)
  with Cons show ?case by (simp add: singles_def rev_map o_def del: upt_Suc)
qed (simp add: singles_def)

lemma group_plus_end:
  assumes "x \<noteq> []" "list_all C x"
  shows "\<exists>rest. rx_match (rseq [RGroup n (RPlus (RClass C))]) (x, cs) = ([], (n, x) # cs) # rest
     \<and> filter (\<lambda>s'. fst s' = []) rest = []"
proof -
  obtain c y where x: "x = c # y" using assms(1) by (cases x) auto
  have "tails (singles y) [] = [] # map (\<lambda>k. drop k y) (rev [0..<length y])"
    by (simp add: tails_singles)
  then have "rx_match (RPlus (RClass C)) (x, cs)
      = ([], cs) # map (\<lambda>u. (u, cs)) (map (\<lambda>k. drop k y) (rev [0..<length y]))"
    using plus_class [of x C "[]" cs] assms by (simp add: x)
  then show ?thesis by (auto simp: filter_empty_conv x)
qed

lemma full_group_end:
  assumes "x \<noteq> []" "list_all C x" "rx_match r (s, []) = rx_match (rseq [RGroup n (RPlus (RClass C))]) (x, cs)"
  shows "full_match r s = Some ((n, x) # cs)"
  using group_plus_end [OF assms(1,2), of n cs] assms(3) by (auto simp: full_match_def)

lemma seq_plus_fail:
  assumes "list_all C x" "\<not> C q"
  shows "rx_match (rseq (RGroup n (RPlus (RClass C)) # lit (q # l) # rs)) (x, cs) = []"
proof (cases "x = []")
  case True
  then show ?thesis by (simp add: RPlus_def)
next
  case False
  have "\<forall>u \<in> set (tails (singles (tl x)) []). u = [] \<or> hd u \<noteq> q"
    using assms by (cases x) (auto simp: tails_singles list_all_iff hd_drop_conv_nth)
  then have "rx_match (lit (q # l)) (u, ds) = []" if "u \<in> set (tails (singles (tl x)) [])" for u ds
    using that by (cases u) (auto simp: match_lit)
  then show ?thesis
    using plus_class [of x C "[]" cs] False assms(1) by (simp add: concat_eq_Nil_conv)
qed

lemma full_match_None: "rx_match r (s, []) = [] \<Longrightarrow> full_match r s = None"
  by (simp add: full_match_def)

lemma full_match_one: "rx_match r (s, []) = [([], cs)] \<Longrightarrow> full_match r s = Some cs"
  by (simp add: full_match_def)

text \<open>A repetition of any character.\<close>

lemma any_plus:
  "S \<noteq> [] \<Longrightarrow> rx_match (RPlus (RClass (\<lambda>_. True))) (S, cs) = map (\<lambda>k. (drop k S, cs)) (rev [1..<Suc (length S)])"
proof -
  assume "S \<noteq> []"
  then obtain a x where S: "S = a # x" by (cases S) auto
  have "[1..<Suc (length S)] = map Suc [0..<Suc (length x)]" by (simp add: S map_Suc_upt del: upt_Suc)
  then show ?thesis
    using plus_class [of S "\<lambda>_. True" "[]" cs]
    by (simp add: S list_all_iff tails_singles rev_map o_def del: upt_Suc)
qed

lemma seq_any:
  "S \<noteq> [] \<Longrightarrow> rx_match (rseq (RGroup n (RPlus (RClass (\<lambda>_. True))) # rs)) (S, cs) =
     concat (map (\<lambda>k. rx_match (rseq rs) (drop k S, (n, take k S) # cs)) (rev [1..<Suc (length S)]))"
proof -
  assume "S \<noteq> []"
  have eq: "map (\<lambda>s'. (fst s', (n, take (length S - length (fst s')) S) # snd s'))
      (map (\<lambda>k. (drop k S, cs)) (rev [1..<Suc (length S)]))
    = map (\<lambda>k. (drop k S, (n, take k S) # cs)) (rev [1..<Suc (length S)])"
    by (auto simp del: upt_Suc)
  show ?thesis
    unfolding match_rseq(2) [of "RGroup n r" for r] rx_match.simps any_plus [OF \<open>S \<noteq> []\<close>] fst_conv eq
    by (simp add: o_def del: upt_Suc)
qed

lemma concat_unique:
  "distinct us \<Longrightarrow> u \<in> set us \<Longrightarrow> (\<And>v. v \<in> set us \<Longrightarrow> v \<noteq> u \<Longrightarrow> F v = []) \<Longrightarrow> concat (map F us) = F u"
proof (induction us)
  case (Cons v us)
  then show ?case by (cases "v = u") (auto simp: concat_eq_Nil_conv)
qed simp

text \<open>Sequences in sequences, alternatives and options.\<close>

lemma concat_map_concat: "concat (map f (concat xss)) = concat (map (\<lambda>xs. concat (map f xs)) xss)"
  by (induction xss) simp_all

lemma seq_nest: "rx_match (rseq (rseq xs # ys)) s = rx_match (rseq (xs @ ys)) s"
proof (induction xs arbitrary: s)
  case (Cons x xs)
  then show ?case by (simp add: concat_map_concat o_def)
qed simp

lemma seq_one: "rx_match (rseq [r]) s = rx_match r s"
proof -
  have "concat (map (rx_match (rseq [])) xs) = xs" for xs by (induction xs) simp_all
  then show ?thesis by (simp only: match_rseq(2))
qed

lemma seq_alt:
  "rx_match (rseq (RAlt a b # rs)) s = rx_match (rseq (a # rs)) s @ rx_match (rseq (b # rs)) s"
  by simp

lemma seq_opt: "rx_match (rseq (ROpt a # rs)) s = rx_match (rseq (a # rs)) s @ rx_match (rseq rs) s"
  by (simp add: ROpt_def)

lemma seq_star:
  assumes "list_all C x" "\<not> C q"
  shows "rx_match (rseq (RGroup n (RStar (RClass C)) # lit (q # l) # rs)) (x @ q # t, cs) =
     rx_match (rseq (lit (q # l) # rs)) (q # t, (n, x) # cs)"
proof (rule seq_stuck)
  have "forced (RClass C) (singles x) (q # t)" using assms by (simp add: forced_class)
  from match_star_forced [OF this]
  show "rx_match (RStar (RClass C)) (x @ q # t, cs) = map (\<lambda>u. (u, cs)) (tails (singles x) (q # t))"
    by (simp del: rx_match.simps)
  show "\<forall>w \<in> set (singles x). w \<noteq> [] \<and> hd w \<noteq> q"
    using assms by (auto simp: singles_def list_all_iff)
qed

text \<open>The longest match comes first; every other one leaves some of the text it could have taken.\<close>

lemma first_tail:
  "\<exists>us. tails (singles x) t = t # us \<and> (\<forall>u \<in> set us. u \<noteq> [] \<and> hd u \<in> set x)"
proof -
  have "tails (singles x) t = t # map (\<lambda>k. drop k x @ t) (rev [0..<length x])"
    by (simp add: tails_singles)
  moreover have "drop k x \<noteq> [] \<and> hd (drop k x @ t) \<in> set x" if "k < length x" for k
    using that by (auto simp: hd_drop_conv_nth hd_append)
  ultimately show ?thesis by fastforce
qed

text \<open>The rewriting rules for a concrete pattern, which take the place of the general ones.\<close>

declare match_rseq(2) [simp del]

lemmas rx_eval = seq_lit seq_group_lit seq_group_alt seq_back

lemmas rx_struct = seq_nest seq_alt seq_opt

end
