(* ===== verification/Billing_Rules.thy ===== *)
theory Billing_Rules
  imports Js_Json Js_Regex
begin

text \<open>
  The request rules of a billing expression (\<^verbatim>\<open>web/src/features/pricing/lib/billing-expr.ts\<close>): factors
  of the form \<^verbatim>\<open>(condition ? multiplier : 1)\<close> that the editor builds from its form and reads back from
  the stored text, and the split of an expression into its base and its rules. A function of the
  parser returns a value, returns \<^verbatim>\<open>null\<close>, or throws, where \<^verbatim>\<open>JSON.parse\<close> does outside a \<^verbatim>\<open>try\<close>.
\<close>

section \<open>Constants and types\<close>

definition SOURCE_PARAM :: string where "SOURCE_PARAM = ''param''"
definition SOURCE_HEADER :: string where "SOURCE_HEADER = ''header''"
definition SOURCE_TIME :: string where "SOURCE_TIME = ''time''"
definition MATCH_EQ :: string where "MATCH_EQ = ''eq''"
definition MATCH_CONTAINS :: string where "MATCH_CONTAINS = ''contains''"
definition MATCH_GT :: string where "MATCH_GT = ''gt''"
definition MATCH_GTE :: string where "MATCH_GTE = ''gte''"
definition MATCH_LT :: string where "MATCH_LT = ''lt''"
definition MATCH_LTE :: string where "MATCH_LTE = ''lte''"
definition MATCH_EXISTS :: string where "MATCH_EXISTS = ''exists''"
definition MATCH_RANGE :: string where "MATCH_RANGE = ''range''"

lemmas match_names = SOURCE_PARAM_def SOURCE_HEADER_def SOURCE_TIME_def MATCH_EQ_def MATCH_CONTAINS_def
  MATCH_GT_def MATCH_GTE_def MATCH_LT_def MATCH_LTE_def MATCH_EXISTS_def MATCH_RANGE_def

definition TIME_FUNCS :: "string list" where
  "TIME_FUNCS = [''hour'', ''minute'', ''weekday'', ''month'', ''day'']"

record ParamHeaderCondition =
  ph_source :: string
  ph_path :: string
  ph_mode :: string
  ph_value :: string

record TimeCondition =
  timeFunc :: string
  timezone :: string
  t_mode :: string
  t_value :: string
  rangeStart :: string
  rangeEnd :: string

datatype RequestCondition = Time_Cond TimeCondition | Param_Header_Cond ParamHeaderCondition

record RequestRuleGroup =
  rg_conditions :: "RequestCondition list"
  multiplier :: string
  conditionText :: "string option"
  rg_matched :: "bool option"

record RequestRuleTrace =
  tr_cond :: string
  tr_multiplier :: jsnum
  tr_matched :: bool

datatype 'a parsed = Thrown | Null | Got 'a

section \<open>Patterns\<close>

definition digit_class :: regex where "digit_class = RClass is_digit"

text \<open>\<^verbatim>\<open>[\d.eE+-]\<close>\<close>

definition num_char :: "char \<Rightarrow> bool" where
  "num_char c \<longleftrightarrow> is_digit c \<or> c \<in> set ''.eE+-''"

definition number_text :: regex where "number_text = RPlus (RClass num_char)"

text \<open>\<^verbatim>\<open>[^"]+\<close>\<close>

definition not_quote :: "char \<Rightarrow> bool" where "not_quote c \<longleftrightarrow> c \<noteq> quote"

definition name_text :: regex where "name_text = RPlus (RClass not_quote)"

text \<open>\<^verbatim>\<open>"(?:[^"\\]|\\.)*"\<close>; the dot is any character but a line terminator.\<close>

definition dot :: "char \<Rightarrow> bool" where
  "dot c \<longleftrightarrow> (of_char c :: nat) \<noteq> 10 \<and> (of_char c :: nat) \<noteq> 13"

definition literal_char :: regex where
  "literal_char = RAlt (RClass (\<lambda>c. c \<noteq> quote \<and> c \<noteq> backslash)) (rseq [lit [backslash], RClass dot])"

definition literal_text :: regex where
  "literal_text = rseq [lit [quote], RStar literal_char, lit [quote]]"

definition NUMERIC_LITERAL_REGEX :: regex where
  "NUMERIC_LITERAL_REGEX = rseq
     [ROpt (lit ''-''),
      RAlt (rseq [RPlus digit_class, ROpt (lit ''.''), RStar digit_class]) (rseq [lit ''.'', RPlus digit_class]),
      ROpt (rseq [RClass (\<lambda>c. c \<in> set ''eE''), ROpt (RClass (\<lambda>c. c \<in> set ''+-'')), RPlus digit_class])]"

definition is_numeric :: "string \<Rightarrow> bool" where
  "is_numeric s \<longleftrightarrow> full_match NUMERIC_LITERAL_REGEX s \<noteq> None"

definition time_func :: regex where
  "time_func = ralt (map lit TIME_FUNCS)"

text \<open>\<^verbatim>\<open>f("tz") >= a || f("tz") < b\<close>, with what may stand around it.\<close>

definition range_pattern :: "string \<Rightarrow> string \<Rightarrow> regex" where
  "range_pattern pre post = rseq
     ([lit pre, RGroup 1 time_func, lit (''('' @ [quote]), RGroup 2 name_text, lit (quote # '') >= ''),
       RGroup 3 number_text, lit '' || '', RBack 1, lit (''('' @ [quote]), RBack 2, lit (quote # '') < ''),
       RGroup 4 number_text] @ (if post = [] then [] else [lit post]))"

definition time_pattern :: regex where
  "time_pattern = rseq
     [RGroup 1 time_func, lit (''('' @ [quote]), RGroup 2 name_text, lit (quote # '') ''),
      RGroup 3 (ralt [lit ''=='', lit ''>='', lit ''<'']), lit '' '', RGroup 4 number_text]"

definition header_exists_pattern :: regex where
  "header_exists_pattern = rseq
     [lit (''header('' @ [quote]), RGroup 1 name_text, lit (quote # '') != '' @ [quote, quote])]"

definition param_exists_pattern :: regex where
  "param_exists_pattern = rseq
     [lit (''param('' @ [quote]), RGroup 1 name_text, lit (quote # '') != nil'')]"

definition header_contains_pattern :: regex where
  "header_contains_pattern = rseq
     [lit (''has(header('' @ [quote]), RGroup 1 name_text, lit (quote # ''), ''), RGroup 2 literal_text, lit '')'']"

definition param_contains_pattern :: regex where
  "param_contains_pattern = rseq
     [lit (''param('' @ [quote]), RGroup 1 name_text, lit (quote # '') != nil && has(param('' @ [quote]),
      RGroup 2 name_text, lit (quote # ''), ''), RGroup 3 literal_text, lit '')'']"

definition param_compare_pattern :: regex where
  "param_compare_pattern = rseq
     [lit (''param('' @ [quote]), RGroup 1 name_text, lit (quote # '') != nil && param('' @ [quote]),
      RGroup 2 name_text, lit (quote # '') ''),
      RGroup 3 (ralt [lit ''>'', lit ''>='', lit ''<'', lit ''<='']), lit '' '', RGroup 4 number_text]"

definition eq_pattern :: regex where
  "eq_pattern = rseq
     [RGroup 1 (ralt [lit ''param'', lit ''header'']), lit (''('' @ [quote]), RGroup 2 name_text,
      lit (quote # '') == ''), RGroup 3 (RPlus (RClass dot))]"

definition factor_pattern :: regex where
  "factor_pattern = rseq
     [lit ''('', RGroup 1 (RPlus (RClass (\<lambda>_. True))), lit '' ? '', RGroup 2 number_text, lit '' : 1)'']"

section \<open>The parser\<close>

definition paren_depth :: "char \<Rightarrow> int" where
  "paren_depth c = (if c = CHR ''('' then 1 else if c = CHR '')'' then - 1 else 0)"

text \<open>
  The loop of both splitters: the characters of the current part are collected in reverse, and a
  separator outside parentheses ends it.
\<close>

function split_top :: "string \<Rightarrow> int \<Rightarrow> string \<Rightarrow> string \<Rightarrow> string list" where
  "split_top sep depth part [] = [trim (rev part)]"
| "split_top sep depth part (c # s) =
     (let d = depth + paren_depth c in
      if d = 0 \<and> startsWith (c # s) sep
      then trim (rev part) # split_top sep d [] (drop (length sep - 1) s)
      else split_top sep d (c # part) s)"
  by pat_completeness auto
termination by (relation "measure (\<lambda>(_, _, _, s). length s)") auto

definition splitTopLevelMultiply :: "string \<Rightarrow> string list" where
  "splitTopLevelMultiply expr = filter (\<lambda>p. p \<noteq> []) (split_top '' * '' 0 [] expr)"

definition splitTopLevelAnd :: "string \<Rightarrow> string list" where
  "splitTopLevelAnd expr = filter (\<lambda>p. p \<noteq> []) (split_top '' && '' 0 [] expr)"

text \<open>\<^const>\<open>None\<close> is \<^verbatim>\<open>null\<close>, also where the parsed value is.\<close>

definition parseExprLiteral :: "string \<Rightarrow> jsval option" where
  "parseExprLiteral raw =
     (let txt = trim raw in
      if txt = ''true'' \<or> txt = ''false'' then Some (JStr txt)
      else if is_numeric txt then Some (JStr txt)
      else (case JSON_parse txt of None \<Rightarrow> None | Some JNull \<Rightarrow> None | Some v \<Rightarrow> Some v))"

definition range_condition :: "captures \<Rightarrow> RequestCondition" where
  "range_condition m = Time_Cond \<lparr>timeFunc = cap m 1, timezone = cap m 2, t_mode = MATCH_RANGE, t_value = [],
     rangeStart = cap m 3, rangeEnd = cap m 4\<rparr>"

definition tryParseTimeCondition :: "string \<Rightarrow> RequestCondition option" where
  "tryParseTimeCondition expr =
     (case full_match (range_pattern [] []) expr of
        Some m \<Rightarrow> Some (range_condition m)
      | None \<Rightarrow>
     (case full_match (range_pattern ''('' '')'') expr of
        Some m \<Rightarrow> Some (range_condition m)
      | None \<Rightarrow>
     (case full_match time_pattern expr of
        Some m \<Rightarrow>
          (let opMap = [(''=='', MATCH_EQ), (''>='', MATCH_GTE), (''<'', MATCH_LT)] in
           Some (Time_Cond \<lparr>timeFunc = cap m 1, timezone = cap m 2, t_mode = or_str (map_of opMap (cap m 3)) MATCH_EQ,
             t_value = cap m 4, rangeStart = [], rangeEnd = []\<rparr>))
      | None \<Rightarrow> None)))"

definition ph_cond :: "string \<Rightarrow> string \<Rightarrow> string \<Rightarrow> string \<Rightarrow> RequestCondition" where
  "ph_cond src path mode v =
     Param_Header_Cond \<lparr>ph_source = src, ph_path = path, ph_mode = mode, ph_value = v\<rparr>"

text \<open>A condition whose value is a literal \<^verbatim>\<open>JSON.parse\<close> reads, outside any \<^verbatim>\<open>try\<close>.\<close>

definition json_cond :: "string \<Rightarrow> string \<Rightarrow> string \<Rightarrow> RequestCondition parsed" where
  "json_cond src path l =
     (case JSON_parse l of None \<Rightarrow> Thrown | Some v \<Rightarrow> Got (ph_cond src path MATCH_CONTAINS (to_str v)))"

definition parse_eq :: "string \<Rightarrow> RequestCondition parsed" where
  "parse_eq expr =
     (case full_match eq_pattern expr of
        None \<Rightarrow> Null
      | Some m \<Rightarrow>
          (case parseExprLiteral (cap m 3) of
             None \<Rightarrow> Null
           | Some v \<Rightarrow> Got (ph_cond (cap m 1) (cap m 2) MATCH_EQ (to_str v))))"

definition parse_compare :: "string \<Rightarrow> RequestCondition parsed" where
  "parse_compare expr =
     (case full_match param_compare_pattern expr of
        None \<Rightarrow> parse_eq expr
      | Some m \<Rightarrow>
          if cap m 1 = cap m 2 then
            (let opMap = [(''>'', MATCH_GT), (''>='', MATCH_GTE), (''<'', MATCH_LT), (''<='', MATCH_LTE)] in
             Got (ph_cond ''param'' (cap m 1) (case map_of opMap (cap m 3) of Some op \<Rightarrow> op | None \<Rightarrow> []) (cap m 4)))
          else parse_eq expr)"

definition tryParseRequestCondition :: "string \<Rightarrow> RequestCondition parsed" where
  "tryParseRequestCondition expr =
     (case tryParseTimeCondition expr of
        Some tc \<Rightarrow> Got tc
      | None \<Rightarrow>
     (case full_match header_exists_pattern expr of
        Some m \<Rightarrow> Got (ph_cond ''header'' (cap m 1) MATCH_EXISTS [])
      | None \<Rightarrow>
     (case full_match param_exists_pattern expr of
        Some m \<Rightarrow> Got (ph_cond ''param'' (cap m 1) MATCH_EXISTS [])
      | None \<Rightarrow>
     (case full_match header_contains_pattern expr of
        Some m \<Rightarrow> json_cond ''header'' (cap m 1) (cap m 2)
      | None \<Rightarrow>
     (case full_match param_contains_pattern expr of
        Some m \<Rightarrow> if cap m 1 = cap m 2 then json_cond ''param'' (cap m 1) (cap m 3) else parse_compare expr
      | None \<Rightarrow> parse_compare expr)))))"

fun parse_each :: "('a \<Rightarrow> 'b parsed) \<Rightarrow> 'a list \<Rightarrow> 'b list parsed" where
  "parse_each f [] = Got []"
| "parse_each f (x # xs) =
     (case f x of
        Thrown \<Rightarrow> Thrown
      | Null \<Rightarrow> Null
      | Got y \<Rightarrow>
          (case parse_each f xs of Thrown \<Rightarrow> Thrown | Null \<Rightarrow> Null | Got ys \<Rightarrow> Got (y # ys)))"

definition tryParseRequestConditions :: "string \<Rightarrow> RequestCondition list parsed" where
  "tryParseRequestConditions conditionStr =
     (case parse_each (\<lambda>part. tryParseRequestCondition (trim part)) (splitTopLevelAnd conditionStr) of
        Got conditions \<Rightarrow> if length conditions > 0 then Got conditions else Null
      | r \<Rightarrow> r)"

definition tryParseRuleGroupFactor :: "string \<Rightarrow> RequestRuleGroup parsed" where
  "tryParseRuleGroupFactor part =
     (case full_match factor_pattern part of
        None \<Rightarrow> Null
      | Some m \<Rightarrow>
          (case tryParseRequestConditions (cap m 1) of
             Thrown \<Rightarrow> Thrown
           | Null \<Rightarrow> Null
           | Got conditions \<Rightarrow>
               Got \<lparr>rg_conditions = conditions, multiplier = cap m 2, conditionText = None, rg_matched = None\<rparr>))"

definition group_from_trace :: "RequestRuleTrace \<Rightarrow> RequestRuleGroup parsed" where
  "group_from_trace rule =
     (let txt = trim (tr_cond rule);
          group = (\<lambda>cs. Got \<lparr>rg_conditions = cs, multiplier = to_str (JNum (tr_multiplier rule)),
                    conditionText = Some txt, rg_matched = Some (tr_matched rule)\<rparr>) in
      case tryParseRequestConditions txt of Thrown \<Rightarrow> Thrown | Null \<Rightarrow> group [] | Got cs \<Rightarrow> group cs)"

definition requestRuleGroupsFromTrace :: "RequestRuleTrace list \<Rightarrow> RequestRuleGroup list parsed" where
  "requestRuleGroupsFromTrace requestRules = parse_each group_from_trace requestRules"

definition tryParseRequestRuleExpr :: "string \<Rightarrow> RequestRuleGroup list parsed" where
  "tryParseRequestRuleExpr expr =
     (let trimmed = trim expr in
      if trimmed = [] then Got []
      else parse_each tryParseRuleGroupFactor (splitTopLevelMultiply trimmed))"

section \<open>Base and rules of an expression\<close>

fun outer_loop :: "int \<Rightarrow> string \<Rightarrow> bool" where
  "outer_loop depth [] = (depth = 0)"
| "outer_loop depth (c # s) =
     (let d = depth + paren_depth c in if d = 0 \<and> s \<noteq> [] then False else outer_loop d s)"

definition hasFullOuterParens :: "string \<Rightarrow> bool" where
  "hasFullOuterParens expr =
     (if \<not> startsWith expr ''('' \<or> \<not> endsWith expr '')'' then False else outer_loop 0 expr)"

lemma trim_length: "length (trim s) \<le> length s"
  unfolding trim_def ltrim_def by (metis length_dropWhile_le length_rev le_trans)

function unwrap_loop :: "string \<Rightarrow> string" where
  "unwrap_loop current =
     (if hasFullOuterParens current then unwrap_loop (trim (butlast (tl current))) else current)"
  by pat_completeness auto
termination
proof (relation "measure length")
  show "(trim (butlast (tl s)), s) \<in> measure length" if "hasFullOuterParens s" for s
    using that trim_length [of "butlast (tl s)"]
    by (cases s) (auto simp: hasFullOuterParens_def split: if_splits)
qed simp

definition unwrapOuterParens :: "string \<Rightarrow> string" where
  "unwrapOuterParens expr = unwrap_loop (trim expr)"

record BillingExprParts =
  billingExpr :: string
  requestRuleExpr :: string

text \<open>The parts that are rules and the others; the first exception ends the loop.\<close>

fun sort_parts :: "string list \<Rightarrow> (string list \<times> string list) parsed" where
  "sort_parts [] = Got ([], [])"
| "sort_parts (part # parts) =
     (case tryParseRequestRuleExpr part of
        Thrown \<Rightarrow> Thrown
      | r \<Rightarrow>
          (case sort_parts parts of
             Got (ruleParts, baseParts) \<Rightarrow>
               (case r of
                  Got (g # gs) \<Rightarrow> Got (part # ruleParts, baseParts)
                | _ \<Rightarrow> Got (ruleParts, part # baseParts))
           | x \<Rightarrow> x))"

definition splitBillingExprAndRequestRules :: "string \<Rightarrow> BillingExprParts parsed" where
  "splitBillingExprAndRequestRules expr =
     (let trimmed = trim expr; whole = Got \<lparr>billingExpr = trimmed, requestRuleExpr = []\<rparr> in
      if trimmed = [] then Got \<lparr>billingExpr = [], requestRuleExpr = []\<rparr>
      else
        (let parts = splitTopLevelMultiply trimmed in
         if length parts \<le> 1 then whole
         else
           (case sort_parts parts of
              Got (ruleParts, baseParts) \<Rightarrow>
                if length ruleParts = 0 \<or> length baseParts \<noteq> 1 then whole
                else Got \<lparr>billingExpr = unwrapOuterParens (baseParts ! 0), requestRuleExpr = join '' * '' ruleParts\<rparr>
            | Thrown \<Rightarrow> Thrown
            | Null \<Rightarrow> Null)))"

definition combineBillingExpr :: "string \<Rightarrow> string \<Rightarrow> string" where
  "combineBillingExpr baseExpr ruleExpr =
     (let base = trim baseExpr; rules = trim ruleExpr in
      if base = [] then []
      else if rules = [] then base
      else ''('' @ base @ '') * '' @ rules)"

section \<open>The editor\<close>

definition createEmptyCondition :: RequestCondition where
  "createEmptyCondition = ph_cond ''param'' [] MATCH_EQ []"

definition createEmptyTimeCondition :: RequestCondition where
  "createEmptyTimeCondition = Time_Cond \<lparr>timeFunc = ''hour'', timezone = ''Asia/Shanghai'', t_mode = MATCH_GTE,
     t_value = [], rangeStart = [], rangeEnd = []\<rparr>"

definition createEmptyRuleGroup :: RequestRuleGroup where
  "createEmptyRuleGroup =
     \<lparr>rg_conditions = [createEmptyCondition], multiplier = [], conditionText = None, rg_matched = None\<rparr>"

definition createEmptyTimeRuleGroup :: RequestRuleGroup where
  "createEmptyTimeRuleGroup =
     \<lparr>rg_conditions = [createEmptyTimeCondition], multiplier = [], conditionText = None, rg_matched = None\<rparr>"

record MatchOption =
  mo_value :: string
  labelKey :: string

definition match_option :: "string \<Rightarrow> string \<Rightarrow> MatchOption" where
  "match_option v l = \<lparr>mo_value = v, labelKey = l\<rparr>"

definition getRequestRuleMatchOptions :: "string \<Rightarrow> MatchOption list" where
  "getRequestRuleMatchOptions src =
     (if src = SOURCE_TIME then
        [match_option MATCH_EQ ''Equals'', match_option MATCH_GTE ''Greater than or equal'',
         match_option MATCH_LT ''Less than'', match_option MATCH_RANGE ''Overnight range'']
      else
        (let base = [match_option MATCH_EQ ''Equals'', match_option MATCH_CONTAINS ''Contains'',
                     match_option MATCH_EXISTS ''Exists''] in
         if src = SOURCE_HEADER then base
         else base @
           [match_option MATCH_GT ''Greater than'', match_option MATCH_GTE ''Greater than or equal'',
            match_option MATCH_LT ''Less than'', match_option MATCH_LTE ''Less than or equal'']))"

text \<open>A condition of which any field may be missing.\<close>

record PartialCondition =
  pc_source :: "string option"
  pc_timeFunc :: "string option"
  pc_timezone :: "string option"
  pc_path :: "string option"
  pc_mode :: "string option"
  pc_value :: "string option"
  pc_rangeStart :: "string option"
  pc_rangeEnd :: "string option"

fun as_partial :: "RequestCondition \<Rightarrow> PartialCondition" where
  "as_partial (Time_Cond c) =
     \<lparr>pc_source = Some ''time'', pc_timeFunc = Some (timeFunc c), pc_timezone = Some (timezone c), pc_path = None,
      pc_mode = Some (t_mode c), pc_value = Some (t_value c), pc_rangeStart = Some (rangeStart c),
      pc_rangeEnd = Some (rangeEnd c)\<rparr>"
| "as_partial (Param_Header_Cond c) =
     \<lparr>pc_source = Some (ph_source c), pc_timeFunc = None, pc_timezone = None, pc_path = Some (ph_path c),
      pc_mode = Some (ph_mode c), pc_value = Some (ph_value c), pc_rangeStart = None, pc_rangeEnd = None\<rparr>"

definition isTimeFunc :: "string option \<Rightarrow> bool" where
  "isTimeFunc v = (case v of None \<Rightarrow> False | Some s \<Rightarrow> s \<in> set TIME_FUNCS)"

definition offers :: "MatchOption list \<Rightarrow> string option \<Rightarrow> bool" where
  "offers options mode = list_ex (\<lambda>item. mode = Some (mo_value item)) options"

definition normalizeCondition :: "PartialCondition option \<Rightarrow> RequestCondition" where
  "normalizeCondition cond =
     (let opt = (\<lambda>f. case cond of None \<Rightarrow> None | Some c \<Rightarrow> f c);
          txt = (\<lambda>v. case v of None \<Rightarrow> [] | Some s \<Rightarrow> s);
          src = (if opt pc_source = Some ''time'' then ''time''
                 else if opt pc_source = Some ''header'' then ''header'' else ''param'') in
      if src = ''time'' then
        Time_Cond
          \<lparr>timeFunc = (if isTimeFunc (opt pc_timeFunc) then the (opt pc_timeFunc) else ''hour''),
           timezone = or_str (opt pc_timezone) ''Asia/Shanghai'',
           t_mode = (if offers (getRequestRuleMatchOptions SOURCE_TIME) (opt pc_mode)
                     then the (opt pc_mode) else MATCH_GTE),
           t_value = txt (opt pc_value), rangeStart = txt (opt pc_rangeStart), rangeEnd = txt (opt pc_rangeEnd)\<rparr>
      else
        Param_Header_Cond
          \<lparr>ph_source = src, ph_path = or_str (opt pc_path) [],
           ph_mode = (if offers (getRequestRuleMatchOptions src) (opt pc_mode)
                      then the (opt pc_mode) else MATCH_EQ),
           ph_value = txt (opt pc_value)\<rparr>)"

definition buildExprLiteral :: "string \<Rightarrow> string \<Rightarrow> string" where
  "buildExprLiteral mode v =
     (let txt = trim v in
      if mode = MATCH_CONTAINS then JSON_stringify [] (JStr txt)
      else if txt = ''true'' \<or> txt = ''false'' then txt
      else if is_numeric txt then txt
      else JSON_stringify [] (JStr txt))"

definition build_time :: "TimeCondition \<Rightarrow> string" where
  "build_time c =
     (let fn = timeFunc c @ ''('' @ JSON_stringify [] (JStr (timezone c)) @ '')'' in
      if t_mode c = MATCH_RANGE then
        (let s = trim (rangeStart c); e = trim (rangeEnd c) in
         if \<not> is_numeric s \<or> \<not> is_numeric e then []
         else fn @ '' >= '' @ s @ '' || '' @ fn @ '' < '' @ e)
      else
        (let v = trim (t_value c) in
         if \<not> is_numeric v then []
         else
           (let opMap = [(MATCH_EQ, ''==''), (MATCH_GTE, ''>=''), (MATCH_LT, ''<'')] in
            fn @ '' '' @ or_str (map_of opMap (t_mode c)) ''=='' @ '' '' @ v)))"

definition buildTimeConditionExpr :: "TimeCondition \<Rightarrow> string" where
  "buildTimeConditionExpr cond =
     (case normalizeCondition (Some (as_partial (Time_Cond cond))) of
        Time_Cond normalized \<Rightarrow> build_time normalized
      | Param_Header_Cond _ \<Rightarrow> [])"

definition build_param_header :: "ParamHeaderCondition \<Rightarrow> string" where
  "build_param_header c =
     (let path = trim (ph_path c) in
      if path = [] then []
      else
        (let hdr = (ph_source c = ''header'');
             src = (if hdr then ''header('' @ JSON_stringify [] (JStr path) @ '')''
                    else ''param('' @ JSON_stringify [] (JStr path) @ '')'');
             mode = ph_mode c in
         if mode = MATCH_EXISTS then
           (if hdr then src @ '' != '' @ [quote, quote] else src @ '' != nil'')
         else if mode = MATCH_CONTAINS then
           (if hdr then ''has('' @ src @ '', '' @ buildExprLiteral mode (ph_value c) @ '')''
            else src @ '' != nil && has('' @ src @ '', '' @ buildExprLiteral mode (ph_value c) @ '')'')
         else if mode = MATCH_GT \<or> mode = MATCH_GTE \<or> mode = MATCH_LT \<or> mode = MATCH_LTE then
           (let opMap = [(MATCH_GT, ''>''), (MATCH_GTE, ''>=''), (MATCH_LT, ''<''), (MATCH_LTE, ''<='')];
                numText = trim (ph_value c) in
            if \<not> is_numeric numText then []
            else src @ '' != nil && '' @ src @ '' '' @ the (map_of opMap mode) @ '' '' @ numText)
         else src @ '' == '' @ buildExprLiteral mode (ph_value c)))"

fun buildRequestConditionExpr :: "RequestCondition \<Rightarrow> string" where
  "buildRequestConditionExpr (Time_Cond c) = buildTimeConditionExpr c"
| "buildRequestConditionExpr (Param_Header_Cond c) =
     (case normalizeCondition (Some (as_partial (Param_Header_Cond c))) of
        Param_Header_Cond normalized \<Rightarrow> build_param_header normalized
      | Time_Cond _ \<Rightarrow> [])"

definition wrap_or :: "string \<Rightarrow> string" where
  "wrap_or e = (if str_includes e '' || '' then ''('' @ e @ '')'' else e)"

definition buildRuleGroupFactor :: "RequestRuleGroup \<Rightarrow> string" where
  "buildRuleGroupFactor g =
     (let mult = trim (multiplier g) in
      if \<not> is_numeric mult then []
      else
        (let condExprs = filter (\<lambda>e. e \<noteq> []) (map buildRequestConditionExpr (rg_conditions g)) in
         if length condExprs = 0 then []
         else
           (let combined = (if length condExprs = 1 then condExprs ! 0
                            else join '' && '' (map wrap_or condExprs)) in
            ''('' @ combined @ '' ? '' @ mult @ '' : 1)'')))"

definition buildRequestRuleExpr :: "RequestRuleGroup list \<Rightarrow> string" where
  "buildRequestRuleExpr groups = join '' * '' (filter (\<lambda>f. f \<noteq> []) (map buildRuleGroupFactor groups))"

end
