(* ===== verification/Billing_Laws.thy ===== *)
theory Billing_Laws
  imports Billing_Rules Js_Json_Laws
begin

text \<open>
  What the editor of request rules reads back from the text it has built.
\<close>

section \<open>Trimming\<close>

lemma trim_ends:
  assumes "s \<noteq> []" "\<not> is_ws (hd s)" "\<not> is_ws (last s)"
  shows "trim s = s"
proof -
  have "dropWhile is_ws s = s" using assms by (cases s) auto
  moreover have "dropWhile is_ws (rev s) = rev s" using assms by (cases s rule: rev_cases) auto
  ultimately show ?thesis by (simp add: trim_def ltrim_def)
qed

section \<open>Depth of parentheses\<close>

definition depth_of :: "string \<Rightarrow> int" where
  "depth_of s = sum_list (map paren_depth s)"

text \<open>Read from a depth, the text never comes down to depth zero.\<close>

fun deep :: "int \<Rightarrow> string \<Rightarrow> bool" where
  "deep d [] = True"
| "deep d (c # s) = (d + paren_depth c > 0 \<and> deep (d + paren_depth c) s)"

definition balanced :: "string \<Rightarrow> bool" where
  "balanced s \<longleftrightarrow> deep 1 s \<and> depth_of s = 0"

lemma depth_of_simps [simp]:
  "depth_of [] = 0" "depth_of (c # s) = paren_depth c + depth_of s" "depth_of (x @ y) = depth_of x + depth_of y"
  by (simp_all add: depth_of_def)

lemma deep_append [simp]: "deep d (x @ y) \<longleftrightarrow> deep d x \<and> deep (d + depth_of x) y"
  by (induction x arbitrary: d) (simp_all add: algebra_simps)

lemma deep_mono: "deep d s \<Longrightarrow> d \<le> e \<Longrightarrow> deep e s"
proof (induction s arbitrary: d e)
  case (Cons c s)
  then show ?case using Cons.IH [of "d + paren_depth c" "e + paren_depth c"] by simp
qed simp

lemma balanced_Nil [simp]: "balanced []"
  by (simp add: balanced_def)

lemma balanced_append: "balanced x \<Longrightarrow> balanced y \<Longrightarrow> balanced (x @ y)"
  by (simp add: balanced_def)

lemma balanced_plain: "paren_depth c = 0 \<Longrightarrow> balanced s \<Longrightarrow> balanced (c # s)"
  by (simp add: balanced_def)

lemma balanced_parens: "balanced x \<Longrightarrow> balanced s \<Longrightarrow> balanced (CHR ''('' # x @ CHR '')'' # s)"
  using deep_mono [of 1 x 2] by (simp add: balanced_def paren_depth_def)

lemma balanced_no_paren: "list_all (\<lambda>c. paren_depth c = 0) x \<Longrightarrow> balanced x"
  by (induction x) (simp_all add: balanced_plain)

lemma split_top_deep:
  "deep d x \<Longrightarrow> split_top sep d part (x @ s) = split_top sep (d + depth_of x) (rev x @ part) s"
  by (induction x arbitrary: d part) (auto simp: Let_def algebra_simps)

section \<open>Splitting at the top level\<close>

text \<open>
  The interface of a splitter: parts that it passes over whole, and a separator that starts with a
  space. The list it gives for joined parts is proved once.
\<close>

locale top_split =
  fixes sep :: string and good :: "string \<Rightarrow> bool"
  assumes sep_space: "sep \<noteq> []" "hd sep = CHR '' ''"
    and good_trim: "good x \<Longrightarrow> x \<noteq> [] \<and> trim x = x"
    and good_pass: "good x \<Longrightarrow> s = [] \<or> startsWith s sep \<Longrightarrow> split_top sep 0 [] (x @ s) = split_top sep 0 (rev x) s"
begin

lemma split_at_sep: "split_top sep 0 part (sep @ s) = trim (rev part) # split_top sep 0 [] s"
proof (cases sep)
  case (Cons c w)
  moreover have "paren_depth c = 0" using sep_space(2) Cons by (simp add: paren_depth_def)
  ultimately show ?thesis using startsWith_append [of sep s] by (simp add: Let_def)
qed (use sep_space in simp)

lemma split_join:
  "ps \<noteq> [] \<Longrightarrow> list_all good ps \<Longrightarrow> split_top sep 0 [] (join sep ps) = ps"
proof (induction ps rule: induct_list012)
  case (2 x)
  then show ?case using good_pass [of x "[]"] good_trim [of x] by simp
next
  case (3 x y ys)
  then have "split_top sep 0 [] (x @ sep @ join sep (y # ys)) = split_top sep 0 (rev x) (sep @ join sep (y # ys))"
    by (intro good_pass) simp_all
  with 3 show ?case using good_trim [of x] by (simp add: split_at_sep)
qed simp

lemma filter_join:
  assumes "list_all good ps" "ps \<noteq> []"
  shows "filter (\<lambda>p. p \<noteq> []) (split_top sep 0 [] (join sep ps)) = ps"
proof -
  have "filter (\<lambda>p. p \<noteq> []) ps = ps"
    using assms(1) good_trim by (auto simp: filter_id_conv list_all_iff)
  then show ?thesis using split_join assms by simp
qed

end

definition and_part :: "string \<Rightarrow> bool" where
  "and_part x \<longleftrightarrow> x \<noteq> [] \<and> trim x = x \<and> depth_of x = 0 \<and> CHR ''&'' \<notin> set x"

definition factor_part :: "string \<Rightarrow> bool" where
  "factor_part x \<longleftrightarrow> (\<exists>y. x = ''('' @ y @ '')'' \<and> balanced y)"

lemma split_and_pass:
  "CHR ''&'' \<notin> set x \<Longrightarrow> s = [] \<or> hd s \<noteq> CHR ''&'' \<Longrightarrow>
   split_top '' && '' d part (x @ s) = split_top '' && '' (d + depth_of x) (rev x @ part) s"
proof (induction x arbitrary: d part)
  case (Cons c x)
  have "\<not> startsWith (c # x @ s) '' && ''"
    using Cons.prems by (cases x; cases s) auto
  with Cons show ?case by (auto simp: Let_def algebra_simps)
qed simp

interpretation and_split: top_split "'' && ''" and_part
proof
  show "split_top '' && '' 0 [] (x @ s) = split_top '' && '' 0 (rev x) s"
    if "and_part x" "s = [] \<or> startsWith s '' && ''" for x s
    using split_and_pass [of x s 0 "[]"] that by (cases s) (auto simp: and_part_def)
qed (simp_all add: and_part_def)

lemma factor_trim: "trim (CHR ''('' # y @ '')'') = CHR ''('' # y @ '')''"
  by (rule trim_ends) (simp_all add: is_ws_def)

interpretation factor_split: top_split "'' * ''" factor_part
proof
  show "x \<noteq> [] \<and> trim x = x" if "factor_part x" for x
    using that factor_trim by (auto simp: factor_part_def)
  show "split_top '' * '' 0 [] (x @ s) = split_top '' * '' 0 (rev x) s"
    if "factor_part x" for x s
  proof -
    from that obtain y where x: "x = ''('' @ y @ '')''" and y: "deep 1 y" "depth_of y = 0"
      by (auto simp: factor_part_def balanced_def)
    have "split_top '' * '' 0 [] (''('' @ y @ '')'' @ s) = split_top '' * '' 1 (rev y @ ''('') ('')'' @ s)"
      using split_top_deep [of 1 y "'' * ''" "''(''" "'')'' @ s"] y by (simp add: Let_def paren_depth_def)
    then show ?thesis by (simp add: x Let_def paren_depth_def)
  qed
qed simp_all

section \<open>Names, values and numbers\<close>

text \<open>
  Characters other than control characters, parentheses and the characters of the two operators;
  in a name also without what JSON escapes.
\<close>

definition plain :: "char \<Rightarrow> bool" where
  "plain c \<longleftrightarrow> 32 \<le> (of_char c :: nat) \<and> c \<notin> set ''()&|''"

definition name_char :: "char \<Rightarrow> bool" where
  "name_char c \<longleftrightarrow> plain c \<and> c \<noteq> quote \<and> c \<noteq> backslash"

definition name :: "string \<Rightarrow> bool" where
  "name x \<longleftrightarrow> x \<noteq> [] \<and> list_all name_char x"

lemma name_not_quote: "name x \<Longrightarrow> x \<noteq> [] \<and> list_all not_quote x"
  by (auto simp: name_def name_char_def not_quote_def list_all_iff)

lemma numeric_chars: "is_numeric s \<Longrightarrow> list_all num_char s"
  unfolding is_numeric_def
  by (rule full_match_over)
    (auto simp: NUMERIC_LITERAL_REGEX_def over_rseq over_lit ROpt_def RPlus_def digit_class_def num_char_def)

lemma numeric_nonempty: "is_numeric s \<Longrightarrow> s \<noteq> []"
proof
  assume "is_numeric s" "s = []"
  moreover have "\<not> is_numeric []" by code_simp
  ultimately show False by simp
qed

lemma num_char_plain: "num_char c \<Longrightarrow> plain c \<and> \<not> is_ws c"
  by (auto simp: num_char_def plain_def is_digit_def is_ws_def Let_def)

lemma numeric_text:
  assumes "is_numeric s"
  shows "s \<noteq> []" "list_all num_char s" "trim s = s" "list_all plain s"
  using numeric_chars [OF assms] numeric_nonempty [OF assms] num_char_plain
  by (auto simp: list_all_iff intro!: trim_id)

lemma quote_name: "list_all name_char x \<Longrightarrow> JSON_stringify [] (JStr x) = quote # x @ [quote]"
proof -
  have "esc_char c = [c]" if "name_char c" for c
    using that by (auto simp: name_char_def plain_def esc_char_def Let_def)
  then show "list_all name_char x \<Longrightarrow> ?thesis"
    by (induction x) (simp_all add: JSON_stringify_def quote_str_def)
qed

lemma quote_plain: "list_all plain x \<Longrightarrow> list_all plain (JSON_stringify [] (JStr x))"
proof -
  have "list_all plain (esc_char c)" if "plain c" for c
    using that by (auto simp: plain_def esc_char_def Let_def backslash_def)
  then have "list_all plain x \<Longrightarrow> list_all plain (concat (map esc_char x))"
    by (induction x) simp_all
  then show "list_all plain x \<Longrightarrow> ?thesis"
    by (simp add: JSON_stringify_def quote_str_def quote_def plain_def)
qed

lemma plain_dot: "plain c \<Longrightarrow> dot c"
  by (auto simp: plain_def dot_def)

section \<open>Reading one condition\<close>

lemmas rx_defs = range_pattern_def time_pattern_def header_exists_pattern_def param_exists_pattern_def
  header_contains_pattern_def param_contains_pattern_def param_compare_pattern_def eq_pattern_def
  name_text_def number_text_def

lemma quote_not_quote [simp]: "\<not> not_quote quote"
  by (simp add: not_quote_def)

lemma not_time:
  "tryParseTimeCondition (''header('' @ s) = None"
  "tryParseTimeCondition (''param('' @ s) = None"
  "tryParseTimeCondition (''has('' @ s) = None"
  unfolding tryParseTimeCondition_def
  by (simp_all add: rx_defs rx_eval full_match_None time_func_def TIME_FUNCS_def)

lemmas rx_fail = full_match_None rx_defs rx_eval not_time [simplified]

lemma one_param_or_header:
  assumes "name x"
  shows "rx_match header_exists_pattern (''header('' @ quote # x @ quote # '') != '' @ [quote, quote], []) = [([], [(1, x)])]"
    and "rx_match param_exists_pattern (''param('' @ quote # x @ quote # '') != nil'', []) = [([], [(1, x)])]"
  using name_not_quote [OF assms] by (simp_all add: rx_defs rx_eval seq_plus)

lemma parse_exists:
  assumes "name x"
  shows "tryParseRequestCondition (''header('' @ quote # x @ quote # '') != '' @ [quote, quote])
      = Got (ph_cond ''header'' x MATCH_EXISTS [])"
    and "tryParseRequestCondition (''param('' @ quote # x @ quote # '') != nil'')
      = Got (ph_cond ''param'' x MATCH_EXISTS [])"
  using one_param_or_header [OF assms, THEN full_match_one]
  by (simp_all add: tryParseRequestCondition_def rx_fail cap_def)

text \<open>A printed string is one literal.\<close>

lemma literal_piece:
  assumes "plain c"
  shows "rx_match literal_char (esc_char c @ s, cs) = [(s, cs)] \<and> esc_char c \<noteq> [] \<and> hd (esc_char c) \<noteq> quote"
proof (cases "c = quote \<or> c = backslash")
  case True
  then show ?thesis
    using plain_dot [OF assms] by (auto simp: esc_char_def literal_char_def match_lit match_rseq(2) quote_def backslash_def)
next
  case False
  then have "esc_char c = [c]" using assms by (auto simp: esc_char_def plain_def Let_def)
  with False show ?thesis by (auto simp: literal_char_def rx_eval)
qed

lemma literal_once:
  assumes "list_all plain v"
  shows "rx_match literal_text (JSON_stringify [] (JStr v) @ t, cs) = [(t, cs)]"
proof -
  let ?ws = "map esc_char v" and ?F = "\<lambda>u. rx_match (rseq [lit [quote]]) (u, cs)"
  have ws: "\<forall>w \<in> set ?ws. (\<forall>s cs. rx_match literal_char (w @ s, cs) = [(s, cs)]) \<and> w \<noteq> [] \<and> hd w \<noteq> quote"
    using assms literal_piece by (auto simp: list_all_iff)
  have "rx_match literal_char (quote # t, cs) = []" for cs
    by (simp add: literal_char_def rx_eval) (simp add: quote_def backslash_def)
  with ws have "forced literal_char ?ws (quote # t)" by (simp add: forced_def)
  then have "rx_match (rseq [RStar literal_char, lit [quote]]) (concat ?ws @ quote # t, cs)
      = concat (map ?F (tails ?ws (quote # t)))"
    unfolding match_rseq(2) [of "RStar literal_char"] by (simp only: match_star_forced) (simp add: o_def)
  also have "\<dots> = ?F (quote # t)"
  proof (rule tails_stuck [where Q = "\<lambda>c. c = quote"])
    show "?F u = []" if "u \<noteq> []" "hd u \<noteq> quote" for u using that by (cases u) (simp_all add: rx_eval)
  qed (use ws in blast)
  finally show ?thesis
    by (simp add: literal_text_def JSON_stringify_def quote_str_def rx_eval)
qed

lemma seq_literal:
  assumes "list_all plain v"
  shows "rx_match (rseq (RGroup n literal_text # rs)) (JSON_stringify [] (JStr v) @ t, cs)
     = rx_match (rseq rs) (t, (n, JSON_stringify [] (JStr v)) # cs)"
  unfolding match_rseq(2) [of "RGroup n literal_text"] by (simp add: literal_once [OF assms])

lemma parse_literal [simp]: "JSON_parse (JSON_stringify [] (JStr v)) = Some (JStr v)"
  by (rule parse_stringify) simp_all

lemma parse_header_contains:
  assumes "name x" "list_all plain v"
  shows "tryParseRequestCondition (''has(header('' @ quote # x @ quote # ''), '' @ JSON_stringify [] (JStr v) @ '')'')
     = Got (ph_cond ''header'' x MATCH_CONTAINS v)"
proof -
  let ?l = "JSON_stringify [] (JStr v)"
  have "rx_match header_contains_pattern (''has(header('' @ quote # x @ quote # ''), '' @ ?l @ '')'', [])
      = [([], [(2, ?l), (1, x)])]"
    using name_not_quote [OF assms(1)] by (simp add: rx_defs rx_eval seq_plus seq_literal [OF assms(2)])
  from full_match_one [OF this] show ?thesis
    by (simp add: tryParseRequestCondition_def rx_fail cap_def json_cond_def)
qed

text \<open>The two sides of a comparison of a parameter, read on their own.\<close>

lemma second_half_unreadable:
  "tryParseRequestCondition (''has(param('' @ s) = Null"
  "name x \<Longrightarrow> op \<in> {''>'', ''>='', ''<'', ''<=''} \<Longrightarrow>
     tryParseRequestCondition (''param('' @ quote # x @ quote # '') '' @ op @ '' '' @ v) = Null"
proof -
  show "tryParseRequestCondition (''has(param('' @ s) = Null"
    by (simp add: tryParseRequestCondition_def parse_compare_def parse_eq_def rx_fail)
  assume "name x" and op: "op \<in> {''>'', ''>='', ''<'', ''<=''}"
  then show "tryParseRequestCondition (''param('' @ quote # x @ quote # '') '' @ op @ '' '' @ v) = Null"
    using name_not_quote [of x]
    by (elim insertE) (simp_all add: tryParseRequestCondition_def parse_compare_def parse_eq_def rx_fail seq_plus)
qed

lemma parse_equals:
  assumes "name x" "src = ''header'' \<or> src = ''param''" "l \<noteq> []" "list_all plain l" "parseExprLiteral l = Some v"
  shows "tryParseRequestCondition (src @ ''('' @ quote # x @ quote # '') == '' @ l)
     = Got (ph_cond src x MATCH_EQ (to_str v))"
proof -
  let ?e = "src @ ''('' @ quote # x @ quote # '') == '' @ l"
  have "rx_match eq_pattern (?e, []) = rx_match (rseq [RGroup 3 (RPlus (RClass dot))]) (l, [(2, x), (1, src)])"
    using name_not_quote [OF assms(1)] assms(2) by (auto simp: rx_defs rx_eval seq_plus)
  moreover have "list_all dot l" using assms(4) plain_dot by (auto simp: list_all_iff)
  ultimately have "full_match eq_pattern ?e = Some [(3, l), (2, x), (1, src)]"
    using assms(3) by (intro full_group_end)
  then show ?thesis
    using name_not_quote [OF assms(1)] assms(2,5)
    by (auto simp: tryParseRequestCondition_def parse_compare_def parse_eq_def rx_fail seq_plus cap_def)
qed

text \<open>Time conditions.\<close>

lemma num_char_space [simp]: "\<not> num_char CHR '' ''" "\<not> num_char CHR '')''"
  by (simp_all add: num_char_def is_digit_def)

lemma seq_time_func:
  "f \<in> set TIME_FUNCS \<Longrightarrow>
     rx_match (rseq (RGroup n time_func # rs)) (f @ CHR ''('' # s, cs)
     = rx_match (rseq rs) (CHR ''('' # s, (n, f) # cs)"
  by (auto simp: TIME_FUNCS_def time_func_def rx_eval)

lemma time_func_paren: "rx_match (rseq (RGroup n time_func # rs)) (CHR ''('' # s, cs) = []"
  by (simp add: TIME_FUNCS_def time_func_def rx_eval)

lemma time_func_start: "f \<in> set TIME_FUNCS \<Longrightarrow> \<not> startsWith (f @ s) ''(''"
  by (auto simp: TIME_FUNCS_def)

lemma parse_time_compare:
  assumes "f \<in> set TIME_FUNCS" "name z" "is_numeric v" "op \<in> {''=='', ''>='', ''<''}"
  shows "tryParseTimeCondition (f @ ''('' @ quote # z @ quote # '') '' @ op @ '' '' @ v) =
     Some (Time_Cond \<lparr>timeFunc = f, timezone = z,
       t_mode = (if op = ''=='' then MATCH_EQ else if op = ''>='' then MATCH_GTE else MATCH_LT),
       t_value = v, rangeStart = [], rangeEnd = []\<rparr>)"
proof -
  let ?e = "f @ ''('' @ quote # z @ quote # '') '' @ op @ '' '' @ v"
  note z = name_not_quote [OF assms(2)] and f = assms(1)
  have v: "v \<noteq> []" "list_all num_char v" using numeric_text [OF assms(3)] by simp_all
  have "rx_match time_pattern (?e, [])
      = rx_match (rseq [RGroup 4 (RPlus (RClass num_char))]) (v, [(3, op), (2, z), (1, f)])"
    using assms(4) z by (elim insertE; simp add: rx_defs rx_eval seq_plus seq_time_func [OF f])
  then have m: "full_match time_pattern ?e = Some [(4, v), (3, op), (2, z), (1, f)]"
    using v by (intro full_group_end)
  have "rx_match (range_pattern [] []) (?e, []) = []"
    using assms(4) z v(2)
    by (elim insertE; simp add: rx_defs rx_eval seq_plus seq_time_func [OF f] seq_plus_fail)
  moreover have "rx_match (range_pattern ''('' '')'') (?e, []) = []"
    unfolding range_pattern_def by (simp add: seq_lit time_func_start [OF f] del: startsWith.simps)
  ultimately show ?thesis
    using m assms(4) by (auto simp: tryParseTimeCondition_def full_match_None cap_def match_names or_str_def)
qed

lemma parse_time_range:
  assumes f: "f \<in> set TIME_FUNCS" and "name z" "is_numeric a" "is_numeric b"
    and e: "e = f @ ''('' @ quote # z @ quote # '') >= '' @ a @ '' || '' @ f @ ''('' @ quote # z @ quote # '') < '' @ b"
  shows "tryParseTimeCondition e = Some (Time_Cond \<lparr>timeFunc = f, timezone = z, t_mode = MATCH_RANGE,
       t_value = [], rangeStart = a, rangeEnd = b\<rparr>)"
    and "tryParseTimeCondition (''('' @ e @ '')'') = Some (Time_Cond \<lparr>timeFunc = f, timezone = z, t_mode = MATCH_RANGE,
       t_value = [], rangeStart = a, rangeEnd = b\<rparr>)"
proof -
  note z = name_not_quote [OF assms(2)]
  have a: "a \<noteq> []" "list_all num_char a" and b: "b \<noteq> []" "list_all num_char b"
    using numeric_text [OF assms(3)] numeric_text [OF assms(4)] by simp_all
  note eval = rx_defs rx_eval seq_plus seq_time_func [OF f] cap_def
  have "rx_match (range_pattern [] []) (e, [])
      = rx_match (rseq [RGroup 4 (RPlus (RClass num_char))]) (b, [(3, a), (2, z), (1, f)])"
    using z a by (simp add: e eval)
  then have "full_match (range_pattern [] []) e = Some [(4, b), (3, a), (2, z), (1, f)]"
    using b by (intro full_group_end)
  then show "tryParseTimeCondition e = Some (Time_Cond \<lparr>timeFunc = f, timezone = z, t_mode = MATCH_RANGE,
       t_value = [], rangeStart = a, rangeEnd = b\<rparr>)"
    by (simp add: tryParseTimeCondition_def range_condition_def cap_def)
  have "rx_match (range_pattern ''('' '')'') (''('' @ e @ '')'', []) = [([], [(4, b), (3, a), (2, z), (1, f)])]"
    using z a b by (simp add: e eval)
  from full_match_one [OF this]
  have "full_match (range_pattern ''('' '')'') (''('' @ e @ '')'') = Some [(4, b), (3, a), (2, z), (1, f)]" .
  moreover have "rx_match (range_pattern [] []) (''('' @ e @ '')'', []) = []"
    by (simp add: rx_defs rx_eval time_func_paren)
  ultimately show "tryParseTimeCondition (''('' @ e @ '')'') = Some (Time_Cond \<lparr>timeFunc = f, timezone = z,
       t_mode = MATCH_RANGE, t_value = [], rangeStart = a, rangeEnd = b\<rparr>)"
    by (simp add: tryParseTimeCondition_def full_match_None range_condition_def cap_def)
qed

section \<open>Reading a factor\<close>

lemma number_suffix:
  assumes "xs @ '' ? '' @ m = ys @ '' ? '' @ n" "list_all num_char m" "list_all num_char n"
  shows "m = n"
proof -
  have "takeWhile num_char (rev m @ rev '' ? '' @ rev xs) = rev m" if "list_all num_char m" for m xs
    using that by (subst takeWhile_append2) (auto simp: list_all_iff)
  from this [OF assms(2), of xs] this [OF assms(3), of ys] arg_cong [OF assms(1), of rev]
  show ?thesis by simp
qed

lemma factor_rest:
  assumes "([], ds) \<in> set (rx_match (rseq [lit '' ? '', RGroup 2 number_text, lit '' : 1)'']) (u, cs))"
  shows "\<exists>n. u = '' ? '' @ n @ '' : 1)'' \<and> list_all num_char n"
proof -
  from assms obtain w where u: "u = '' ? '' @ w"
    and w: "([], ds) \<in> set (rx_match (rseq [RGroup 2 number_text, lit '' : 1)'']) (w, cs))"
    unfolding rx_eval by (auto simp: startsWith_iff split: if_splits)
  from w obtain m where m: "m \<in> set (rx_match number_text (w, cs))"
    and l: "([], ds) \<in> set (rx_match (rseq [lit '' : 1)'']) (fst m, (2, take (length w - length (fst m)) w) # snd m))"
    by (auto simp: match_rseq(2) [of "RGroup 2 number_text"])
  have "over num_char number_text" by (simp add: number_text_def RPlus_def)
  from match_over [OF this m] obtain n where n: "w = n @ fst m" "list_all num_char n" by auto
  have "fst m = '' : 1)''" using l unfolding rx_eval by (auto simp: startsWith_iff split: if_splits)
  with u n show ?thesis by auto
qed

lemma factor_match:
  assumes c: "c \<noteq> []" and m: "m \<noteq> []" "list_all num_char m"
  shows "full_match factor_pattern (''('' @ c @ '' ? '' @ m @ '' : 1)'') = Some [(2, m), (1, c)]"
proof -
  let ?rest = "[lit '' ? '', RGroup 2 number_text, lit '' : 1)'']"
  define S where "S = c @ '' ? '' @ m @ '' : 1)''"
  define F where "F k = filter (\<lambda>s'. fst s' = []) (rx_match (rseq ?rest) (drop k S, [(1, take k S)]))" for k
  have "S \<noteq> []" by (simp add: S_def)
  then have "filter (\<lambda>s'. fst s' = []) (rx_match factor_pattern (''('' @ S, []))
      = concat (map F (rev [1..<Suc (length S)]))"
    unfolding factor_pattern_def F_def
    by (simp only: seq_lit startsWith_append if_True append_eq_conv_conj drop_append)
      (simp add: seq_any seq_lit filter_concat o_def cong: if_cong del: upt_Suc)
  also have "\<dots> = F (length c)"
  proof (rule concat_unique)
    show "F k = []" if "k \<in> set (rev [1..<Suc (length S)])" "k \<noteq> length c" for k
    proof (rule ccontr)
      assume "F k \<noteq> []"
      then obtain ds where "([], ds) \<in> set (rx_match (rseq ?rest) (drop k S, [(1, take k S)]))"
        unfolding F_def by (auto simp: filter_empty_conv)
      from factor_rest [OF this] obtain n where n: "drop k S = '' ? '' @ n @ '' : 1)''" "list_all num_char n" by blast
      have "take k S @ '' ? '' @ n @ '' : 1)'' = S" using append_take_drop_id [of k S] unfolding n(1) .
      also have "S = c @ '' ? '' @ m @ '' : 1)''" by (rule S_def)
      finally have "take k S @ '' ? '' @ n = c @ '' ? '' @ m" by simp
      from number_suffix [OF this n(2) m(2)] have "n = m" .
      then have "length (drop k S) = length ('' ? '' @ m @ '' : 1)'')" unfolding n(1) by simp
      with that show False by (simp add: S_def)
    qed
  qed (use c in \<open>auto simp: Suc_le_eq S_def\<close>)
  also have "F (length c) = [([], [(2, m), (1, c)])]"
    unfolding F_def S_def number_text_def using m by (simp add: rx_eval seq_plus)
  finally show ?thesis by (simp add: full_match_def S_def)
qed

end
