(* ===== verification/Billing_Editor.thy ===== *)
theory Billing_Editor
  imports Billing_Laws
begin

text \<open>
  The editor of request rules as a whole: what a condition of the form becomes when the text built
  from it is read back (\<open>read_back\<close>), and what happens to a list of rule groups. The conditions are
  taken with names and values without control characters, without parentheses and without the
  characters of the operators.
\<close>

section \<open>Normal conditions\<close>

fun well_formed :: "RequestCondition \<Rightarrow> bool" where
  "well_formed (Time_Cond c) \<longleftrightarrow> timeFunc c \<in> set TIME_FUNCS \<and> timezone c \<noteq> []
     \<and> t_mode c \<in> {MATCH_EQ, MATCH_GTE, MATCH_LT, MATCH_RANGE}"
| "well_formed (Param_Header_Cond c) \<longleftrightarrow>
     (ph_source c = ''header'' \<and> ph_mode c \<in> {MATCH_EQ, MATCH_CONTAINS, MATCH_EXISTS}
      \<or> ph_source c = ''param'' \<and> ph_mode c \<in> {MATCH_EQ, MATCH_CONTAINS, MATCH_EXISTS,
          MATCH_GT, MATCH_GTE, MATCH_LT, MATCH_LTE})"

lemma offers_modes:
  "offers (getRequestRuleMatchOptions SOURCE_TIME) (Some m) \<longleftrightarrow> m \<in> {MATCH_EQ, MATCH_GTE, MATCH_LT, MATCH_RANGE}"
  "offers (getRequestRuleMatchOptions ''header'') (Some m) \<longleftrightarrow> m \<in> {MATCH_EQ, MATCH_CONTAINS, MATCH_EXISTS}"
  "offers (getRequestRuleMatchOptions ''param'') (Some m) \<longleftrightarrow>
     m \<in> {MATCH_EQ, MATCH_CONTAINS, MATCH_EXISTS, MATCH_GT, MATCH_GTE, MATCH_LT, MATCH_LTE}"
  "\<not> offers opts None"
  by (auto simp: offers_def getRequestRuleMatchOptions_def match_option_def SOURCE_TIME_def SOURCE_HEADER_def
      list_ex_iff)

text \<open>Whatever fields are missing or wrong, the result of normalising is a condition of the editor.\<close>

lemma chosen_mode:
  "(if offers (getRequestRuleMatchOptions SOURCE_TIME) m then the m else MATCH_GTE)
     \<in> {MATCH_EQ, MATCH_GTE, MATCH_LT, MATCH_RANGE}"
  "(if offers (getRequestRuleMatchOptions ''header'') m then the m else MATCH_EQ)
     \<in> {MATCH_EQ, MATCH_CONTAINS, MATCH_EXISTS}"
  "(if offers (getRequestRuleMatchOptions ''param'') m then the m else MATCH_EQ)
     \<in> {MATCH_EQ, MATCH_CONTAINS, MATCH_EXISTS, MATCH_GT, MATCH_GTE, MATCH_LT, MATCH_LTE}"
  by (cases m; simp only: offers_modes option.sel; simp)+

lemma chosen_func: "(if isTimeFunc f then the f else ''hour'') \<in> set TIME_FUNCS"
  by (cases f) (simp_all add: isTimeFunc_def TIME_FUNCS_def)

lemma normalized_well_formed: "well_formed (normalizeCondition cond)"
proof -
  define opt where "opt f = (case cond of None \<Rightarrow> None | Some c \<Rightarrow> f c)" for f :: "PartialCondition \<Rightarrow> string option"
  consider "opt pc_source = Some ''time''"
    | "opt pc_source \<noteq> Some ''time''" "opt pc_source = Some ''header''"
    | "opt pc_source \<noteq> Some ''time''" "opt pc_source \<noteq> Some ''header''" by blast
  then show ?thesis
    unfolding normalizeCondition_def opt_def [symmetric] Let_def
    by cases (simp_all add: or_str_nonempty chosen_func del: insert_iff add: chosen_mode)
qed

definition normal_cond :: "RequestCondition \<Rightarrow> RequestCondition" where
  "normal_cond c = normalizeCondition (Some (as_partial c))"

lemma norm_time:
  "\<exists>n. normal_cond (Time_Cond c) = Time_Cond n \<and> (timezone n = timezone c \<or> timezone n = ''Asia/Shanghai'')"
  by (simp add: normal_cond_def normalizeCondition_def Let_def or_str_def)

lemma norm_param_header:
  "ph_source p \<noteq> ''time'' \<Longrightarrow> \<exists>n. normal_cond (Param_Header_Cond p) = Param_Header_Cond n
     \<and> ph_path n = ph_path p \<and> ph_value n = ph_value p \<and> ph_source n \<noteq> ''time''"
  by (simp add: normal_cond_def normalizeCondition_def Let_def or_str_def)

lemma norm_id: "well_formed c \<Longrightarrow> normal_cond c = c"
  by (cases c) (auto simp: normal_cond_def normalizeCondition_def Let_def offers_modes isTimeFunc_def or_str_def)

fun build_normal :: "RequestCondition \<Rightarrow> string" where
  "build_normal (Time_Cond c) = build_time c"
| "build_normal (Param_Header_Cond c) = build_param_header c"

text \<open>
  The conditions with plain text in their fields; a condition on a parameter or header does not have the
  source of a time condition, as its type in the code demands.
\<close>

fun plain_cond :: "RequestCondition \<Rightarrow> bool" where
  "plain_cond (Time_Cond c) \<longleftrightarrow> list_all name_char (timezone c)"
| "plain_cond (Param_Header_Cond c) \<longleftrightarrow> ph_source c \<noteq> ''time''
     \<and> list_all name_char (ph_path c) \<and> list_all plain (ph_value c)"

lemma build_norm:
  assumes "plain_cond c"
  shows "buildRequestConditionExpr c = build_normal (normal_cond c)"
proof (cases c)
  case (Time_Cond t)
  with norm_time [of t] show ?thesis
    by (auto simp: buildTimeConditionExpr_def normal_cond_def simp del: as_partial.simps)
next
  case (Param_Header_Cond p)
  with assms norm_param_header [of p] show ?thesis
    by (auto simp: normal_cond_def simp del: as_partial.simps)
qed

lemma norm_ready:
  assumes "plain_cond c"
  shows "plain_cond (normal_cond c) \<and> well_formed (normal_cond c)"
proof
  have asia: "list_all name_char ''Asia/Shanghai''"
    by (simp add: name_char_def plain_def quote_def backslash_def)
  show "plain_cond (normal_cond c)"
  proof (cases c)
    case (Time_Cond t)
    obtain n where "normal_cond (Time_Cond t) = Time_Cond n" "timezone n = timezone t \<or> timezone n = ''Asia/Shanghai''"
      using norm_time by blast
    then show ?thesis using assms asia unfolding Time_Cond by (elim disjE) simp_all
  next
    case (Param_Header_Cond p)
    then show ?thesis using assms norm_param_header [of p] by auto
  qed
  show "well_formed (normal_cond c)" by (simp add: normal_cond_def normalized_well_formed)
qed

section \<open>What is read back\<close>

text \<open>\<^const>\<open>None\<close> for a condition the editor leaves out of the text.\<close>

fun read_back :: "RequestCondition \<Rightarrow> RequestCondition option" where
  "read_back (Time_Cond c) =
     (if t_mode c = MATCH_RANGE then
        (if is_numeric (trim (rangeStart c)) \<and> is_numeric (trim (rangeEnd c))
         then Some (Time_Cond (c\<lparr>t_value := [], rangeStart := trim (rangeStart c), rangeEnd := trim (rangeEnd c)\<rparr>))
         else None)
      else if is_numeric (trim (t_value c))
        then Some (Time_Cond (c\<lparr>t_value := trim (t_value c), rangeStart := [], rangeEnd := []\<rparr>))
      else None)"
| "read_back (Param_Header_Cond c) =
     (if trim (ph_path c) = [] then None
      else if ph_mode c = MATCH_EXISTS then Some (Param_Header_Cond (c\<lparr>ph_path := trim (ph_path c), ph_value := []\<rparr>))
      else if ph_mode c \<in> {MATCH_EQ, MATCH_CONTAINS} \<or> is_numeric (trim (ph_value c))
        then Some (Param_Header_Cond (c\<lparr>ph_path := trim (ph_path c), ph_value := trim (ph_value c)\<rparr>))
      else None)"

text \<open>The conditions whose text has an \<^verbatim>\<open>&&\<close> of its own.\<close>

fun splits :: "RequestCondition \<Rightarrow> bool" where
  "splits (Time_Cond c) = False"
| "splits (Param_Header_Cond c) =
     (ph_source c = ''param'' \<and> ph_mode c \<in> {MATCH_CONTAINS, MATCH_GT, MATCH_GTE, MATCH_LT, MATCH_LTE})"

lemma name_trim: "list_all name_char x \<Longrightarrow> trim x \<noteq> [] \<Longrightarrow> name (trim x)"
  using set_trim [of x] by (auto simp: name_def list_all_iff)

lemma plain_trim: "list_all plain x \<Longrightarrow> list_all plain (trim x)"
  using set_trim [of x] by (auto simp: list_all_iff)

lemma plain_facts:
  assumes "list_all plain x"
  shows "CHR ''&'' \<notin> set x" "CHR ''|'' \<notin> set x" "balanced x"
proof -
  show "CHR ''&'' \<notin> set x" "CHR ''|'' \<notin> set x" using assms by (auto simp: plain_def list_all_iff)
  show "balanced x"
    using assms by (intro balanced_no_paren) (auto simp: plain_def list_all_iff paren_depth_def)
qed

lemma name_plain: "name x \<Longrightarrow> list_all plain x"
  by (auto simp: name_def name_char_def list_all_iff)

lemma literal_facts:
  assumes "list_all plain v"
  shows "list_all plain (buildExprLiteral m v)" "buildExprLiteral m v \<noteq> []" "\<not> is_ws (last (buildExprLiteral m v))"
proof -
  have q: "list_all plain (JSON_stringify [] (JStr (trim v)))" by (intro quote_plain plain_trim assms)
  have t: "list_all plain (trim v)" by (intro plain_trim assms)
  have n: "trim v \<noteq> [] \<and> \<not> is_ws (last (trim v))" if "is_numeric (trim v)"
    using numeric_text [OF that] num_char_plain by (auto simp: list_all_iff)
  have e: "JSON_stringify [] (JStr (trim v)) \<noteq> [] \<and> \<not> is_ws (last (JSON_stringify [] (JStr (trim v))))"
    by (simp add: JSON_stringify_def quote_str_def quote_def is_ws_def)
  show "list_all plain (buildExprLiteral m v)" using q t by (auto simp: buildExprLiteral_def Let_def)
  show "buildExprLiteral m v \<noteq> []" using n e by (auto simp: buildExprLiteral_def Let_def)
  show "\<not> is_ws (last (buildExprLiteral m v))"
    using n e by (auto simp: buildExprLiteral_def Let_def is_ws_def)
qed

lemma parse_built_literal:
  assumes "m \<noteq> MATCH_CONTAINS"
  shows "\<exists>v'. parseExprLiteral (buildExprLiteral m v) = Some v' \<and> to_str v' = trim v"
proof (cases "trim v = ''true'' \<or> trim v = ''false'' \<or> is_numeric (trim v)")
  case True
  with assms have b: "buildExprLiteral m v = trim v" by (auto simp: buildExprLiteral_def Let_def)
  then have "parseExprLiteral (buildExprLiteral m v) = Some (JStr (trim v))"
    using True by (auto simp: parseExprLiteral_def Let_def)
  then show ?thesis by simp
next
  case False
  let ?l = "JSON_stringify [] (JStr (trim v))"
  have l: "?l = quote # concat (map esc_char (trim v)) @ [quote]" by (simp add: JSON_stringify_def quote_str_def)
  from False assms have b: "buildExprLiteral m v = ?l" by (auto simp: buildExprLiteral_def Let_def)
  have "trim ?l = ?l" unfolding l by (rule trim_ends) (simp_all add: quote_def is_ws_def)
  moreover have "\<not> is_numeric ?l"
    using numeric_chars [of ?l] by (auto simp: l num_char_def is_digit_def quote_def)
  moreover have "?l \<noteq> ''true''" "?l \<noteq> ''false''" by (simp_all add: l quote_def)
  ultimately have "parseExprLiteral ?l = Some (JStr (trim v))" by (simp add: parseExprLiteral_def)
  with b show ?thesis by simp
qed

section \<open>The parts of a built condition\<close>

definition part_ok :: "string \<Rightarrow> bool" where
  "part_ok p \<longleftrightarrow> and_part p \<and> balanced p"

lemma part_okI:
  "p \<noteq> [] \<Longrightarrow> \<not> is_ws (hd p) \<Longrightarrow> \<not> is_ws (last p) \<Longrightarrow> balanced p \<Longrightarrow> CHR ''&'' \<notin> set p \<Longrightarrow> part_ok p"
  by (simp add: part_ok_def and_part_def trim_ends balanced_def)

lemma plain_depth: "list_all plain x \<Longrightarrow> depth_of x = 0" "list_all plain x \<Longrightarrow> 0 < d \<Longrightarrow> deep d x"
proof -
  show "list_all plain x \<Longrightarrow> depth_of x = 0"
    using plain_facts(3) by (auto simp: balanced_def)
  show "list_all plain x \<Longrightarrow> 0 < d \<Longrightarrow> deep d x"
    using plain_facts(3) deep_mono [of 1 x d] by (auto simp: balanced_def)
qed

lemma no_bar: "CHR ''|'' \<notin> set e \<Longrightarrow> wrap_or e = e"
proof -
  assume "CHR ''|'' \<notin> set e"
  then have "\<not> str_includes e '' || ''"
  proof (induction e)
    case (Cons c e)
    then show ?case by (cases e) auto
  qed simp
  then show ?thesis by (simp add: wrap_or_def)
qed

text \<open>The text \<open>e\<close> of a condition, cut at the operator, is read as the condition or is not readable.\<close>

definition reads_as :: "string \<Rightarrow> RequestCondition parsed \<Rightarrow> bool" where
  "reads_as e r \<longleftrightarrow> (\<exists>ps. ps \<noteq> [] \<and> e = join '' && '' ps \<and> list_all part_ok ps
     \<and> parse_each tryParseRequestCondition ps = (case r of Got c \<Rightarrow> Got [c] | Null \<Rightarrow> Null | Thrown \<Rightarrow> Thrown))"

lemma reads_one: "part_ok e \<Longrightarrow> tryParseRequestCondition e = Got c \<Longrightarrow> reads_as e (Got c)"
  unfolding reads_as_def by (rule exI [of _ "[e]"]) simp

lemma reads_two:
  "part_ok a \<Longrightarrow> part_ok b \<Longrightarrow> tryParseRequestCondition a = Got c \<Longrightarrow> tryParseRequestCondition b = Null \<Longrightarrow>
   reads_as (a @ '' && '' @ b) Null"
  unfolding reads_as_def by (rule exI [of _ "[a, b]"]) simp

lemma call_facts:
  assumes "name x"
  shows "list_all plain x" "CHR ''&'' \<notin> set x" "CHR ''|'' \<notin> set x" "depth_of x = 0" "0 < d \<Longrightarrow> deep d x"
  using name_plain [OF assms] plain_facts plain_depth by blast+

lemmas text_simps = paren_depth_def quote_def is_ws_def balanced_def

lemma header_texts:
  assumes "name x" "list_all plain l" "l \<noteq> []" "\<not> is_ws (last l)"
  shows "part_ok (''header('' @ quote # x @ quote # '') != '' @ [quote, quote])"
    and "part_ok (''has(header('' @ quote # x @ quote # ''), '' @ l @ '')'')"
    and "part_ok (''header('' @ quote # x @ quote # '') == '' @ l)"
  using call_facts [OF assms(1)] plain_facts [OF assms(2)] plain_depth [OF assms(2)] assms(3,4)
  by (intro part_okI; simp add: text_simps)+

lemma param_texts:
  assumes "name x" "list_all plain l" "l \<noteq> []" "\<not> is_ws (last l)"
  shows "part_ok (''param('' @ quote # x @ quote # '') != nil'')"
    and "part_ok (''has(param('' @ quote # x @ quote # ''), '' @ l @ '')'')"
    and "part_ok (''param('' @ quote # x @ quote # '') == '' @ l)"
    and "op \<in> {''>'', ''>='', ''<'', ''<=''} \<Longrightarrow> part_ok (''param('' @ quote # x @ quote # '') '' @ op @ '' '' @ l)"
proof -
  note facts = call_facts [OF assms(1)] plain_facts [OF assms(2)] plain_depth [OF assms(2)] assms(3,4)
  show "part_ok (''param('' @ quote # x @ quote # '') != nil'')"
    "part_ok (''has(param('' @ quote # x @ quote # ''), '' @ l @ '')'')"
    "part_ok (''param('' @ quote # x @ quote # '') == '' @ l)"
    using facts by (intro part_okI; simp add: text_simps)+
  show "part_ok (''param('' @ quote # x @ quote # '') '' @ op @ '' '' @ l)" if "op \<in> {''>'', ''>='', ''<'', ''<=''}"
    using facts that by (elim insertE; intro part_okI; simp add: text_simps)
qed

lemma time_texts:
  assumes f: "f \<in> set TIME_FUNCS" and z: "name z" and a: "is_numeric a" and b: "is_numeric b"
    and op: "op \<in> {''=='', ''>='', ''<''}"
    and e: "e = f @ ''('' @ quote # z @ quote # '') >= '' @ a @ '' || '' @ f @ ''('' @ quote # z @ quote # '') < '' @ b"
  shows "part_ok (f @ ''('' @ quote # z @ quote # '') '' @ op @ '' '' @ a)"
    and "part_ok e" and "part_ok (''('' @ e @ '')'')"
proof -
  have F: "list_all plain f" "f \<noteq> []" "\<not> is_ws (hd f)" using f by (auto simp: TIME_FUNCS_def plain_def is_ws_def)
  have n: "v \<noteq> [] \<and> \<not> is_ws (last v) \<and> list_all plain v" if "is_numeric v" for v
    using numeric_text [OF that] num_char_plain by (auto simp: list_all_iff)
  note facts = call_facts [OF z] plain_facts [OF F(1)] plain_depth [OF F(1)] F n [OF a] n [OF b]
    plain_facts [of a] plain_depth [of a] plain_facts [of b] plain_depth [of b]
  show "part_ok (f @ ''('' @ quote # z @ quote # '') '' @ op @ '' '' @ a)"
    using facts op by (elim insertE; intro part_okI; simp add: text_simps)
  show "part_ok e" "part_ok (''('' @ e @ '')'')"
    unfolding e using facts by (intro part_okI; simp add: text_simps)+
qed

lemma time_reads:
  assumes "plain_cond (Time_Cond c)" "well_formed (Time_Cond c)" "read_back (Time_Cond c) = Some c'"
    and e: "e = build_time c \<or> e = wrap_or (build_time c)"
  shows "reads_as e (Got c')"
proof -
  let ?f = "timeFunc c" and ?z = "timezone c"
  have f: "?f \<in> set TIME_FUNCS" and z: "name ?z" using assms(1,2) by (auto simp: name_def)
  have q: "JSON_stringify [] (JStr ?z) = quote # ?z @ [quote]" using assms(1) by (simp add: quote_name)
  show ?thesis
  proof (cases "t_mode c = MATCH_RANGE")
    case True
    let ?a = "trim (rangeStart c)" and ?b = "trim (rangeEnd c)"
    have ab: "is_numeric ?a" "is_numeric ?b"
      and c': "c' = Time_Cond (c\<lparr>t_value := [], rangeStart := ?a, rangeEnd := ?b\<rparr>)"
      using assms(3) True by (auto split: if_splits)
    have b: "build_time c = ?f @ ''('' @ quote # ?z @ quote # '') >= '' @ ?a @ '' || '' @ ?f @ ''('' @ quote # ?z @ quote # '') < '' @ ?b"
      using True ab by (simp add: build_time_def q)
    have w: "e = build_time c \<or> e = ''('' @ build_time c @ '')''" using e by (auto simp: wrap_or_def)
    have "part_ok e" using time_texts(2,3) [OF f z ab _ b, of "''==''"] w by auto
    moreover have "tryParseTimeCondition e = Some c'"
      using parse_time_range [OF f z ab b] w True by (auto simp: c')
    ultimately show ?thesis by (intro reads_one) (simp_all add: tryParseRequestCondition_def)
  next
    case False
    let ?v = "trim (t_value c)"
    define op where "op = (if t_mode c = MATCH_EQ then ''=='' else if t_mode c = MATCH_GTE then ''>='' else ''<'')"
    have v: "is_numeric ?v" and c': "c' = Time_Cond (c\<lparr>t_value := ?v, rangeStart := [], rangeEnd := []\<rparr>)"
      using assms(3) False by (auto split: if_splits)
    have m: "t_mode c \<in> {MATCH_EQ, MATCH_GTE, MATCH_LT}" using assms(2) False by auto
    then have b: "build_time c = ?f @ ''('' @ quote # ?z @ quote # '') '' @ op @ '' '' @ ?v"
      using False v by (auto simp: build_time_def q op_def match_names or_str_def)
    have op: "op \<in> {''=='', ''>='', ''<''}" by (simp add: op_def)
    have "CHR ''|'' \<notin> set (build_time c)"
      using call_facts(3) [OF z] f op plain_facts(2) [OF numeric_text(4) [OF v]]
      by (auto simp: b TIME_FUNCS_def quote_def)
    then have e: "e = build_time c" using e by (auto simp: no_bar)
    have "part_ok e" unfolding e b by (rule time_texts(1) [OF f z v v op refl])
    moreover have "tryParseTimeCondition e = Some c'"
      unfolding e b parse_time_compare [OF f z v op] using m by (auto simp: c' op_def match_names)
    ultimately show ?thesis by (intro reads_one) (simp_all add: tryParseRequestCondition_def)
  qed
qed

lemma param_header_bar:
  assumes "name x" "list_all plain l"
  shows "CHR ''|'' \<notin> set (''header('' @ quote # x @ quote # '') != '' @ [quote, quote])"
    "CHR ''|'' \<notin> set (''has(header('' @ quote # x @ quote # ''), '' @ l @ '')'')"
    "CHR ''|'' \<notin> set (''header('' @ quote # x @ quote # '') == '' @ l)"
    "CHR ''|'' \<notin> set (''param('' @ quote # x @ quote # '') != nil'')"
    "CHR ''|'' \<notin> set (''has(param('' @ quote # x @ quote # ''), '' @ l @ '')'')"
    "CHR ''|'' \<notin> set (''param('' @ quote # x @ quote # '') == '' @ l)"
  using call_facts(3) [OF assms(1)] plain_facts(2) [OF assms(2)] by (simp_all add: quote_def)

lemma header_reads:
  assumes "plain_cond (Param_Header_Cond c)" "well_formed (Param_Header_Cond c)"
    and "read_back (Param_Header_Cond c) = Some c'" and src: "ph_source c = ''header''"
    and e: "e = build_param_header c \<or> e = wrap_or (build_param_header c)"
  shows "reads_as e (Got c')"
proof -
  let ?x = "trim (ph_path c)"
  have x: "name ?x" using assms(1,3) by (intro name_trim) (auto split: if_splits)
  have q: "JSON_stringify [] (JStr ?x) = quote # ?x @ [quote]" using x by (simp add: quote_name name_def)
  have v: "list_all plain (ph_value c)" using assms(1) by simp
  note l = literal_facts [OF v]
  consider "ph_mode c = MATCH_EXISTS" | "ph_mode c = MATCH_CONTAINS" | "ph_mode c = MATCH_EQ"
    using assms(2) src by auto
  then show ?thesis
  proof cases
    case 1
    with x have b: "build_param_header c = ''header('' @ quote # ?x @ quote # '') != '' @ [quote, quote]"
      by (simp add: build_param_header_def q src match_names name_def)
    have e': "e = ''header('' @ quote # ?x @ quote # '') != '' @ [quote, quote]"
      using e no_bar [OF param_header_bar(1) [OF x v]] unfolding b by auto
    show ?thesis unfolding e'
      by (rule reads_one [OF header_texts(1) [OF x l]]) (use 1 assms(3) src parse_exists(1) [OF x] in
          \<open>auto simp: ph_cond_def match_names split: if_splits\<close>)
  next
    case 2
    let ?l = "JSON_stringify [] (JStr (trim (ph_value c)))"
    have bl: "buildExprLiteral MATCH_CONTAINS (ph_value c) = ?l" by (simp add: buildExprLiteral_def)
    from 2 x have b: "build_param_header c = ''has(header('' @ quote # ?x @ quote # ''), '' @ ?l @ '')''"
      by (simp add: build_param_header_def q src name_def match_names bl [unfolded match_names])
    have e': "e = ''has(header('' @ quote # ?x @ quote # ''), '' @ ?l @ '')''"
      using e no_bar [OF param_header_bar(2) [OF x l(1) [of MATCH_CONTAINS, unfolded bl]]] unfolding b by auto
    show ?thesis unfolding e'
      by (rule reads_one [OF header_texts(2) [OF x l [of MATCH_CONTAINS, unfolded bl]]])
        (use 2 assms(3) src parse_header_contains [OF x plain_trim [OF v]] in
          \<open>auto simp: ph_cond_def match_names split: if_splits\<close>)
  next
    case 3
    let ?l = "buildExprLiteral MATCH_EQ (ph_value c)"
    from 3 x have b: "build_param_header c = ''header('' @ quote # ?x @ quote # '') == '' @ ?l"
      by (simp add: build_param_header_def q src match_names name_def)
    have e': "e = ''header('' @ quote # ?x @ quote # '') == '' @ ?l"
      using e no_bar [OF param_header_bar(3) [OF x l(1)]] unfolding b by auto
    obtain w where w: "parseExprLiteral ?l = Some w" "to_str w = trim (ph_value c)"
      using parse_built_literal [of MATCH_EQ "ph_value c"] by (auto simp: match_names)
    show ?thesis unfolding e'
      by (rule reads_one [OF header_texts(3) [OF x l]])
        (use 3 assms(3) src w(2) parse_equals [OF x _ l(2,1) w(1), of "''header''"] in
          \<open>auto simp: ph_cond_def match_names split: if_splits\<close>)
  qed
qed

lemma param_reads:
  assumes "plain_cond (Param_Header_Cond c)" "well_formed (Param_Header_Cond c)"
    and "read_back (Param_Header_Cond c) = Some c'" and src: "ph_source c = ''param''"
    and "\<not> splits (Param_Header_Cond c)"
    and e: "e = build_param_header c \<or> e = wrap_or (build_param_header c)"
  shows "reads_as e (Got c')"
proof -
  let ?x = "trim (ph_path c)"
  have x: "name ?x" using assms(1,3) by (intro name_trim) (auto split: if_splits)
  have q: "JSON_stringify [] (JStr ?x) = quote # ?x @ [quote]" using x by (simp add: quote_name name_def)
  have v: "list_all plain (ph_value c)" using assms(1) by simp
  note l = literal_facts [OF v]
  consider "ph_mode c = MATCH_EXISTS" | "ph_mode c = MATCH_EQ"
    using assms(2,5) src by auto
  then show ?thesis
  proof cases
    case 1
    with x have b: "build_param_header c = ''param('' @ quote # ?x @ quote # '') != nil''"
      by (simp add: build_param_header_def q src match_names name_def)
    have e': "e = ''param('' @ quote # ?x @ quote # '') != nil''"
      using e no_bar [OF param_header_bar(4) [OF x v]] unfolding b by auto
    show ?thesis unfolding e'
      by (rule reads_one [OF param_texts(1) [OF x l]]) (use 1 assms(3) src parse_exists(2) [OF x] in
          \<open>auto simp: ph_cond_def match_names split: if_splits\<close>)
  next
    case 2
    let ?l = "buildExprLiteral MATCH_EQ (ph_value c)"
    from 2 x have b: "build_param_header c = ''param('' @ quote # ?x @ quote # '') == '' @ ?l"
      by (simp add: build_param_header_def q src match_names name_def)
    have e': "e = ''param('' @ quote # ?x @ quote # '') == '' @ ?l"
      using e no_bar [OF param_header_bar(6) [OF x l(1)]] unfolding b by auto
    obtain w where w: "parseExprLiteral ?l = Some w" "to_str w = trim (ph_value c)"
      using parse_built_literal [of MATCH_EQ "ph_value c"] by (auto simp: match_names)
    show ?thesis unfolding e'
      by (rule reads_one [OF param_texts(3) [OF x l]])
        (use 2 assms(3) src w(2) parse_equals [OF x _ l(2,1) w(1), of "''param''"] in
          \<open>auto simp: ph_cond_def match_names split: if_splits\<close>)
  qed
qed

lemma bar_and: "CHR ''|'' \<notin> set a \<Longrightarrow> CHR ''|'' \<notin> set b \<Longrightarrow> wrap_or (a @ '' && '' @ b) = a @ '' && '' @ b"
  by (rule no_bar) simp

lemma param_splits:
  assumes "plain_cond (Param_Header_Cond c)" "well_formed (Param_Header_Cond c)"
    and "read_back (Param_Header_Cond c) = Some c'" and sp: "splits (Param_Header_Cond c)"
    and e: "e = build_param_header c \<or> e = wrap_or (build_param_header c)"
  shows "reads_as e Null"
proof -
  let ?x = "trim (ph_path c)" and ?a = "''param('' @ quote # trim (ph_path c) @ quote # '') != nil''"
  have src: "ph_source c = ''param''" using sp by simp
  have x: "name ?x" using assms(1,3) by (intro name_trim) (auto split: if_splits)
  have q: "JSON_stringify [] (JStr ?x) = quote # ?x @ [quote]" using x by (simp add: quote_name name_def)
  have v: "list_all plain (ph_value c)" using assms(1) by simp
  note l = literal_facts [OF v] and bar = param_header_bar(4) [OF x v]
  consider "ph_mode c = MATCH_CONTAINS" | "ph_mode c \<in> {MATCH_GT, MATCH_GTE, MATCH_LT, MATCH_LTE}"
    using sp by auto
  then show ?thesis
  proof cases
    case 1
    let ?l = "buildExprLiteral MATCH_CONTAINS (ph_value c)"
    let ?b = "''has(param('' @ quote # ?x @ quote # ''), '' @ ?l @ '')''"
    from 1 x have b: "build_param_header c = ?a @ '' && '' @ ?b"
      by (simp add: build_param_header_def q src match_names name_def Let_def)
    have "e = ?a @ '' && '' @ ?b"
      using e bar_and [OF bar param_header_bar(5) [OF x l(1)]] unfolding b by auto
    moreover have "tryParseRequestCondition ?b = Null"
      using second_half_unreadable(1) [of "quote # ?x @ quote # ''), '' @ ?l @ '')''"] by simp
    ultimately show ?thesis
      using reads_two [OF param_texts(1,2) [OF x l] parse_exists(2) [OF x]] by simp
  next
    case 2
    let ?n = "trim (ph_value c)"
    define op where "op = (if ph_mode c = MATCH_GT then ''>'' else if ph_mode c = MATCH_GTE then ''>=''
      else if ph_mode c = MATCH_LT then ''<'' else ''<='')"
    let ?b = "''param('' @ quote # ?x @ quote # '') '' @ op @ '' '' @ ?n"
    have op: "op \<in> {''>'', ''>='', ''<'', ''<=''}" by (simp add: op_def)
    have n: "is_numeric ?n" using 2 assms(3) by (auto simp: match_names split: if_splits)
    have n': "list_all plain ?n" "?n \<noteq> []" "\<not> is_ws (last ?n)"
      using numeric_text [OF n] num_char_plain by (auto simp: list_all_iff)
    from 2 x have b: "build_param_header c = ?a @ '' && '' @ ?b"
      by (auto simp: build_param_header_def q src match_names name_def n op_def Let_def)
    have "CHR ''|'' \<notin> set ?b"
      using call_facts(3) [OF x] plain_facts(2) [OF n'(1)] op by (auto simp: quote_def)
    then have "e = ?a @ '' && '' @ ?b" using e bar_and [OF bar] unfolding b by auto
    then show ?thesis
      using reads_two [OF param_texts(1) [OF x n'] param_texts(4) [OF x n' op] parse_exists(2) [OF x]
          second_half_unreadable(2) [OF x op]] by simp
  qed
qed

text \<open>A condition of the form, built with or without parentheses around an alternative.\<close>

lemma condition_reads:
  assumes "plain_cond c" "well_formed c" "read_back c = Some c'"
    and "e = build_normal c \<or> e = wrap_or (build_normal c)"
  shows "reads_as e (if splits c then Null else Got c')"
proof (cases c)
  case (Time_Cond t)
  with assms time_reads [of t c' e] show ?thesis by (simp del: read_back.simps well_formed.simps plain_cond.simps)
next
  case (Param_Header_Cond p)
  have "ph_source p = ''header'' \<or> ph_source p = ''param''" using assms(2) Param_Header_Cond by auto
  then show ?thesis
  proof
    assume src: "ph_source p = ''header''"
    then have "\<not> splits c" by (simp add: Param_Header_Cond)
    with header_reads [of p c' e] assms src show ?thesis
      by (simp add: Param_Header_Cond del: read_back.simps well_formed.simps plain_cond.simps)
  next
    assume src: "ph_source p = ''param''"
    show ?thesis
      using param_reads [of p c' e] param_splits [of p c' e] assms src
      by (simp add: Param_Header_Cond del: read_back.simps well_formed.simps plain_cond.simps splits.simps)
  qed
qed

lemma not_built:
  assumes "well_formed c" "read_back c = None"
  shows "build_normal c = []"
proof (cases c)
  case (Time_Cond t)
  with assms show ?thesis by (auto simp: build_time_def Let_def split: if_splits)
next
  case (Param_Header_Cond p)
  with assms show ?thesis
    by (auto simp: build_param_header_def Let_def match_names split: if_splits)
qed

lemma reads_nonempty: "reads_as e r \<Longrightarrow> e \<noteq> []"
proof -
  assume "reads_as e r"
  then obtain ps where "ps \<noteq> []" "e = join '' && '' ps" "list_all part_ok ps" by (auto simp: reads_as_def)
  then show ?thesis by (cases ps; cases "tl ps") (auto simp: part_ok_def and_part_def)
qed

section \<open>Rule groups\<close>

lemma join_append:
  "xs \<noteq> [] \<Longrightarrow> ys \<noteq> [] \<Longrightarrow> join s (xs @ ys) = join s xs @ s @ join s ys"
proof (induction xs rule: induct_list012)
  case (2 x)
  then show ?case by (cases ys) simp_all
qed simp_all

lemma parse_each_append:
  "parse_each f (xs @ ys) =
     (case parse_each f xs of
        Got as \<Rightarrow> (case parse_each f ys of Got bs \<Rightarrow> Got (as @ bs) | Null \<Rightarrow> Null | Thrown \<Rightarrow> Thrown)
      | Null \<Rightarrow> Null
      | Thrown \<Rightarrow> Thrown)"
  by (induction xs) (auto split: parsed.splits)

lemma parse_each_cong: "(\<And>x. x \<in> set xs \<Longrightarrow> f x = g x) \<Longrightarrow> parse_each f xs = parse_each g xs"
  by (induction xs) (auto split: parsed.split)

lemma balanced_join: "list_all balanced ps \<Longrightarrow> balanced (join '' && '' ps)"
proof (induction ps rule: induct_list012)
  case (3 x y ys)
  moreover have "balanced '' && ''" by (simp add: balanced_def paren_depth_def)
  ultimately show ?case by (auto intro!: balanced_append simp del: append_Cons)
qed simp_all

definition built_as :: "string \<Rightarrow> RequestCondition \<Rightarrow> bool" where
  "built_as e c \<longleftrightarrow> plain_cond c \<and> well_formed c \<and> read_back c \<noteq> None
     \<and> (e = build_normal c \<or> e = wrap_or (build_normal c))"

text \<open>What a list of conditions is read as: one that splits makes the whole unreadable.\<close>

definition conds_back :: "RequestCondition list \<Rightarrow> RequestCondition list parsed" where
  "conds_back cs = (if list_ex splits cs then Null else Got (map (\<lambda>c. the (read_back c)) cs))"

lemma parts_of_list:
  assumes "list_all2 built_as es cs" "cs \<noteq> []"
  shows "\<exists>ps. ps \<noteq> [] \<and> join '' && '' es = join '' && '' ps \<and> list_all part_ok ps
     \<and> parse_each tryParseRequestCondition ps = conds_back cs"
  using assms
proof (induction rule: list_all2_induct)
  case (Cons e es c cs)
  have "reads_as e (if splits c then Null else Got (the (read_back c)))"
    using Cons.hyps(1) condition_reads [of c "the (read_back c)" e] by (auto simp: built_as_def)
  then obtain ps where ps: "ps \<noteq> []" "e = join '' && '' ps" "list_all part_ok ps"
    "parse_each tryParseRequestCondition ps = (if splits c then Null else Got [the (read_back c)])"
    unfolding reads_as_def by (auto split: if_splits)
  show ?case
  proof (cases "cs = []")
    case True
    then have "es = []" using Cons.hyps(2) by simp
    with True ps show ?thesis by (intro exI [of _ ps]) (simp add: conds_back_def)
  next
    case False
    with Cons.IH obtain qs where qs: "qs \<noteq> []" "join '' && '' es = join '' && '' qs" "list_all part_ok qs"
      "parse_each tryParseRequestCondition qs = conds_back cs" by blast
    have "es \<noteq> []" using False Cons.hyps(2) by auto
    then have "join '' && '' (e # es) = join '' && '' (ps @ qs)"
      using join_append [of "[e]" es "'' && ''"] join_append [OF ps(1) qs(1), of "'' && ''"] ps(2) qs(2) by simp
    moreover have "parse_each tryParseRequestCondition (ps @ qs) = conds_back (c # cs)"
      by (simp add: parse_each_append ps(4) qs(4) conds_back_def)
    ultimately show ?thesis using ps(1,3) qs(3) by (intro exI [of _ "ps @ qs"]) simp
  qed
qed simp

lemma conditions_read:
  assumes "list_all2 built_as es cs" "cs \<noteq> []"
  shows "tryParseRequestConditions (join '' && '' es) = conds_back cs"
    and "balanced (join '' && '' es)" and "join '' && '' es \<noteq> []"
proof -
  from parts_of_list [OF assms] obtain ps where ps: "ps \<noteq> []" "join '' && '' es = join '' && '' ps"
    "list_all part_ok ps" "parse_each tryParseRequestCondition ps = conds_back cs" by blast
  have "list_all and_part ps" "list_all balanced ps" using ps(3) by (auto simp: part_ok_def list_all_iff)
  then have "splitTopLevelAnd (join '' && '' es) = ps" and bal: "balanced (join '' && '' es)"
    by (simp_all add: splitTopLevelAnd_def ps(2) and_split.filter_join ps(1) balanced_join)
  moreover have "parse_each (\<lambda>part. tryParseRequestCondition (trim part)) ps = conds_back cs"
    unfolding ps(4) [symmetric] using \<open>list_all and_part ps\<close>
    by (intro parse_each_cong) (auto simp: and_part_def list_all_iff)
  ultimately show "tryParseRequestConditions (join '' && '' es) = conds_back cs"
    using assms(2) by (auto simp: tryParseRequestConditions_def conds_back_def)
  show "balanced (join '' && '' es)" by (rule bal)
  show "join '' && '' es \<noteq> []"
    unfolding ps(2) using ps(1,3) by (cases ps; cases "tl ps") (auto simp: part_ok_def and_part_def)
qed

text \<open>The conditions of a group that are built, in normal form.\<close>

definition kept :: "RequestRuleGroup \<Rightarrow> RequestCondition list" where
  "kept g = filter (\<lambda>c. read_back c \<noteq> None) (map normal_cond (rg_conditions g))"

definition built :: "RequestRuleGroup \<Rightarrow> bool" where
  "built g \<longleftrightarrow> is_numeric (trim (multiplier g)) \<and> kept g \<noteq> []"

definition group_back :: "RequestRuleGroup \<Rightarrow> RequestRuleGroup" where
  "group_back g = \<lparr>rg_conditions = map (\<lambda>c. the (read_back c)) (kept g), multiplier = trim (multiplier g),
     conditionText = None, rg_matched = None\<rparr>"

definition plain_group :: "RequestRuleGroup \<Rightarrow> bool" where
  "plain_group g \<longleftrightarrow> list_all plain_cond (rg_conditions g)"

lemma built_texts:
  assumes "plain_group g"
  shows "filter (\<lambda>e. e \<noteq> []) (map buildRequestConditionExpr (rg_conditions g)) = map build_normal (kept g)"
proof -
  have "buildRequestConditionExpr c = build_normal (normal_cond c)
      \<and> (build_normal (normal_cond c) \<noteq> [] \<longleftrightarrow> read_back (normal_cond c) \<noteq> None)" if "c \<in> set (rg_conditions g)" for c
  proof -
    have c: "plain_cond c" using assms that by (auto simp: plain_group_def list_all_iff)
    have "build_normal (normal_cond c) \<noteq> []" if "read_back (normal_cond c) \<noteq> None"
      using that condition_reads [of "normal_cond c"] norm_ready [OF c] reads_nonempty by blast
    then show ?thesis using build_norm [OF c] not_built norm_ready [OF c] by blast
  qed
  then have "\<forall>c \<in> set (rg_conditions g). buildRequestConditionExpr c = build_normal (normal_cond c)
      \<and> (build_normal (normal_cond c) \<noteq> [] \<longleftrightarrow> read_back (normal_cond c) \<noteq> None)" by blast
  then show ?thesis unfolding kept_def
  proof (induction "rg_conditions g" arbitrary: g)
    case (Cons c cs)
    show ?case using Cons.hyps(1) [of "g\<lparr>rg_conditions := cs\<rparr>"] Cons.hyps(2) [symmetric] Cons.prems by simp
  qed simp
qed

lemma factor_back:
  assumes "plain_group g" "built g"
  shows "factor_part (buildRuleGroupFactor g)"
    and "tryParseRuleGroupFactor (buildRuleGroupFactor g) =
      (if list_ex splits (kept g) then Null else Got (group_back g))"
proof -
  let ?m = "trim (multiplier g)" and ?es = "map build_normal (kept g)"
  define es where "es = (if length ?es = 1 then ?es else map wrap_or ?es)"
  have m: "is_numeric ?m" and k: "kept g \<noteq> []" using assms(2) by (simp_all add: built_def)
  have "plain_cond c \<and> well_formed c \<and> read_back c \<noteq> None" if "c \<in> set (kept g)" for c
    using that assms(1) norm_ready by (auto simp: kept_def plain_group_def list_all_iff)
  then have "list_all2 built_as es (kept g)"
    by (auto simp: es_def built_as_def list_all2_map1 intro!: list.rel_refl_strong)
  note comb = conditions_read [OF this k]
  have f: "buildRuleGroupFactor g = ''('' @ join '' && '' es @ '' ? '' @ ?m @ '' : 1)''"
    using m k by (cases "kept g"; cases "tl (kept g)")
      (auto simp: buildRuleGroupFactor_def Let_def built_texts [OF assms(1)] es_def)
  have "balanced (join '' && '' es @ '' ? '' @ ?m @ '' : 1'')"
    using comb(2) plain_facts(3) [OF numeric_text(4) [OF m]]
    by (intro balanced_append) (simp_all add: balanced_def paren_depth_def)
  then show "factor_part (buildRuleGroupFactor g)"
    unfolding factor_part_def f by (intro exI [of _ "join '' && '' es @ '' ? '' @ ?m @ '' : 1''"]) simp
  show "tryParseRuleGroupFactor (buildRuleGroupFactor g) =
      (if list_ex splits (kept g) then Null else Got (group_back g))"
    unfolding tryParseRuleGroupFactor_def f factor_match [OF comb(3) numeric_text(1,2) [OF m]]
    by (simp add: cap_def comb(1) conds_back_def group_back_def)
qed

lemma factor_empty: "plain_group g \<Longrightarrow> \<not> built g \<Longrightarrow> buildRuleGroupFactor g = []"
  by (auto simp: buildRuleGroupFactor_def Let_def built_texts built_def)

lemma factors_of:
  assumes "list_all plain_group gs"
  shows "filter (\<lambda>f. f \<noteq> []) (map buildRuleGroupFactor gs) = map buildRuleGroupFactor (filter built gs)"
    and "list_all factor_part (map buildRuleGroupFactor (filter built gs))"
proof -
  have "buildRuleGroupFactor g \<noteq> [] \<longleftrightarrow> built g" if "plain_group g" for g
    using factor_back(1) [OF that] factor_empty [OF that] by (auto simp: factor_part_def)
  with assms show "filter (\<lambda>f. f \<noteq> []) (map buildRuleGroupFactor gs) = map buildRuleGroupFactor (filter built gs)"
    by (induction gs) auto
  show "list_all factor_part (map buildRuleGroupFactor (filter built gs))"
    using assms factor_back(1) by (auto simp: list_all_iff)
qed

lemma join_not_Nil: "x \<noteq> [] \<Longrightarrow> join s (x # xs) \<noteq> []"
  by (cases xs) simp_all

lemma join_factors:
  assumes "list_all factor_part fs" "fs \<noteq> []"
  shows "join '' * '' fs \<noteq> []" "trim (join '' * '' fs) = join '' * '' fs" "splitTopLevelMultiply (join '' * '' fs) = fs"
proof -
  obtain f rest where fs: "fs = f # rest" using assms(2) by (cases fs) auto
  have hd: "join '' * '' fs \<noteq> [] \<and> hd (join '' * '' fs) = CHR ''(''"
    using assms(1) unfolding fs by (cases rest) (auto simp: factor_part_def)
  moreover have "last (join '' * '' fs) = CHR '')''"
    using assms by (induction fs rule: induct_list012) (auto simp: factor_part_def join_not_Nil)
  ultimately show "join '' * '' fs \<noteq> []" "trim (join '' * '' fs) = join '' * '' fs"
    by (auto intro!: trim_ends simp: is_ws_def)
  show "splitTopLevelMultiply (join '' * '' fs) = fs"
    unfolding splitTopLevelMultiply_def by (rule factor_split.filter_join [OF assms])
qed

text \<open> C11: What the editor reads back from the text of its rules, when no name or value in them has a
  control character, a parenthesis, an ampersand or a bar, and no name a double quote or a backslash (\<open>plain_group\<close>). A group without a numeric multiplier
  or without a complete condition is left out; every other group comes back with its conditions in
  normal form, incomplete conditions left out and texts trimmed. But one comparison of a request
  parameter (greater, less, or contains) is enough to make the whole text unreadable: its text has
  an \<^verbatim>\<open>&&\<close> of its own, and the parser cuts it there. \<close>

theorem request_rules_read_back:
  assumes "list_all plain_group groups"
  shows "tryParseRequestRuleExpr (buildRequestRuleExpr groups) =
     (if list_ex (\<lambda>g. list_ex splits (kept g)) (filter built groups) then Null
      else Got (map group_back (filter built groups)))"
proof (cases "filter built groups = []")
  case True
  then show ?thesis
    using factors_of(1) [OF assms] by (simp add: buildRequestRuleExpr_def tryParseRequestRuleExpr_def)
next
  case False
  let ?fs = "map buildRuleGroupFactor (filter built groups)"
  have text_eq: "buildRequestRuleExpr groups = join '' * '' ?fs"
    by (simp add: buildRequestRuleExpr_def factors_of(1) [OF assms])
  have "parse_each tryParseRuleGroupFactor (map buildRuleGroupFactor gs) =
      (if list_ex (\<lambda>g. list_ex splits (kept g)) gs then Null else Got (map group_back gs))"
    if "\<forall>g \<in> set gs. plain_group g \<and> built g" for gs
    using that by (induction gs) (auto simp: factor_back(2))
  from this [of "filter built groups"] show ?thesis
    using assms join_factors [OF factors_of(2) [OF assms]] False
    by (auto simp: tryParseRequestRuleExpr_def text_eq list_all_iff)
qed

definition sample_group :: RequestRuleGroup where
  "sample_group = \<lparr>rg_conditions =
       [ph_cond ''header'' '' x-tier '' ''eq'' ''gold'',
        Time_Cond \<lparr>timeFunc = ''hour'', timezone = ''UTC'', t_mode = ''range'', t_value = [],
          rangeStart = ''22'', rangeEnd = ''6''\<rparr>],
     multiplier = '' 0.5'', conditionText = None, rg_matched = None\<rparr>"

definition comparing_group :: RequestRuleGroup where
  "comparing_group = \<lparr>rg_conditions = [ph_cond ''param'' ''n'' ''gt'' ''4''], multiplier = ''2'',
     conditionText = None, rg_matched = None\<rparr>"

lemma samples_plain: "list_all plain_group [sample_group, comparing_group]"
  by code_simp

lemma samples_built: "filter built [sample_group] = [sample_group]" "filter built [comparing_group] = [comparing_group]"
  "filter built [sample_group, comparing_group] = [sample_group, comparing_group]"
  by code_simp+

lemma samples_split: "\<not> list_ex splits (kept sample_group)" "list_ex splits (kept comparing_group)"
  by code_simp+

theorem request_rules_read_back_witness:
  "tryParseRequestRuleExpr (buildRequestRuleExpr [sample_group]) = Got [group_back sample_group]
   \<and> tryParseRequestRuleExpr (buildRequestRuleExpr [sample_group, comparing_group]) = Null"
  using request_rules_read_back [of "[sample_group]"] request_rules_read_back [of "[sample_group, comparing_group]"]
    samples_plain samples_built samples_split by simp

section \<open>Base and rules\<close>

lemma outer_deep: "deep d x \<Longrightarrow> s \<noteq> [] \<Longrightarrow> outer_loop d (x @ s) = outer_loop (d + depth_of x) s"
  by (induction x arbitrary: d) (auto simp: Let_def algebra_simps)

lemma outer_parens:
  assumes "balanced b"
  shows "hasFullOuterParens (''('' @ b @ '')'')"
proof -
  have "outer_loop 1 (b @ '')'') = outer_loop 1 '')''"
    using assms outer_deep [of 1 b "'')''"] by (simp add: balanced_def)
  then show ?thesis
    by (simp add: hasFullOuterParens_def endsWith_def Let_def paren_depth_def)
qed

lemma unwrap_parens: "balanced b \<Longrightarrow> unwrapOuterParens (''('' @ b @ '')'') = unwrapOuterParens b"
  using outer_parens [of b] factor_trim [of b]
  by (simp add: unwrapOuterParens_def unwrap_loop.simps [of "CHR ''('' # b @ '')''"] del: unwrap_loop.simps)

lemma parse_factor: "factor_part f \<Longrightarrow>
  tryParseRequestRuleExpr f = parse_each tryParseRuleGroupFactor [f]"
  using join_factors [of "[f]"] by (simp add: tryParseRequestRuleExpr_def)

lemma sort_factors:
  "list_all (\<lambda>g. plain_group g \<and> built g) gs \<Longrightarrow>
   sort_parts (map buildRuleGroupFactor gs) =
     Got (map buildRuleGroupFactor (filter (\<lambda>g. \<not> list_ex splits (kept g)) gs),
          map buildRuleGroupFactor (filter (\<lambda>g. list_ex splits (kept g)) gs))"
  by (induction gs) (auto simp: parse_factor factor_back)

lemma split_sorted:
  assumes "splitTopLevelMultiply t = parts" "trim t = t" "t \<noteq> []" "1 < length parts" "sort_parts parts = Got (rs, bs)"
  shows "splitBillingExprAndRequestRules t =
     Got (if rs = [] \<or> length bs \<noteq> 1 then \<lparr>billingExpr = t, requestRuleExpr = []\<rparr>
          else \<lparr>billingExpr = unwrapOuterParens (bs ! 0), requestRuleExpr = join '' * '' rs\<rparr>)"
  using assms by (simp add: splitBillingExprAndRequestRules_def)

text \<open> C12: Joining a base expression and the built rules into one billing expression and splitting it
  again gives the base back, without parentheses around it, and the rules, provided that the base is not blank,
  that its parentheses match and that it is not a rule itself, that at least one rule is built, and that the names and values
  of the rules are as in the property above (\<open>plain_group\<close>). With a comparison of a request
  parameter among the rules the expression is not split: everything is taken for the base. \<close>

theorem billing_expr_split:
  assumes "balanced (trim base)" "trim base \<noteq> []" "tryParseRuleGroupFactor (''('' @ trim base @ '')'') = Null"
    and gs: "list_all plain_group groups" "filter built groups \<noteq> []"
  shows "splitBillingExprAndRequestRules (combineBillingExpr base (buildRequestRuleExpr groups)) =
     Got (if list_ex (\<lambda>g. list_ex splits (kept g)) (filter built groups)
          then \<lparr>billingExpr = combineBillingExpr base (buildRequestRuleExpr groups), requestRuleExpr = []\<rparr>
          else \<lparr>billingExpr = unwrapOuterParens base, requestRuleExpr = buildRequestRuleExpr groups\<rparr>)"
proof -
  let ?gs = "filter built groups" and ?b = "''('' @ trim base @ '')''"
  let ?fs = "map buildRuleGroupFactor ?gs"
  have fs: "list_all factor_part ?fs" "?fs \<noteq> []" using factors_of(2) [OF gs(1)] gs(2) by simp_all
  have r: "buildRequestRuleExpr groups = join '' * '' ?fs"
    by (simp add: buildRequestRuleExpr_def factors_of(1) [OF gs(1)])
  have b: "factor_part ?b" using assms(1) by (auto simp: factor_part_def)
  have e: "combineBillingExpr base (buildRequestRuleExpr groups) = join '' * '' (?b # ?fs)"
    using join_factors [OF fs] fs(2) assms(2) join_append [of "[?b]" ?fs "'' * ''"]
    by (simp add: combineBillingExpr_def r)
  have all: "list_all factor_part (?b # ?fs)" "?b # ?fs \<noteq> []" using b fs by simp_all
  have sorted: "sort_parts (?b # ?fs) = Got (map buildRuleGroupFactor (filter (\<lambda>g. \<not> list_ex splits (kept g)) ?gs),
      ?b # map buildRuleGroupFactor (filter (\<lambda>g. list_ex splits (kept g)) ?gs))"
    using sort_factors [of ?gs] gs(1) parse_factor [OF b] assms(3) by (simp add: list_all_iff)
  have len: "1 < length (?b # ?fs)" using gs(2) by simp
  note split = split_sorted [OF join_factors(3,2,1) [OF all] len sorted]
  have u: "unwrapOuterParens ?b = unwrapOuterParens base"
    unfolding unwrap_parens [OF assms(1)] by (simp only: unwrapOuterParens_def trim_trim)
  show ?thesis
  proof (cases "list_ex (\<lambda>g. list_ex splits (kept g)) ?gs")
    case True
    then have "filter (\<lambda>g. list_ex splits (kept g)) ?gs \<noteq> []" unfolding list_ex_iff filter_empty_conv by blast
    with True show ?thesis unfolding e split by (simp del: filter_filter)
  next
    case False
    then have none: "filter (\<lambda>g. list_ex splits (kept g)) ?gs = []"
      and every: "filter (\<lambda>g. \<not> list_ex splits (kept g)) ?gs = ?gs"
      unfolding list_ex_iff filter_empty_conv filter_id_conv by blast+
    show ?thesis
      unfolding e split none every unfolding r using False gs(2) u by simp
  qed
qed

lemma sample_base:
  "balanced (trim ''p * 2 + c * 3'')" "trim ''p * 2 + c * 3'' \<noteq> []"
  "tryParseRuleGroupFactor (''('' @ trim ''p * 2 + c * 3'' @ '')'') = Null"
  by code_simp+

theorem billing_expr_split_witness:
  "splitBillingExprAndRequestRules (combineBillingExpr ''p * 2 + c * 3'' (buildRequestRuleExpr [sample_group])) =
     Got \<lparr>billingExpr = unwrapOuterParens ''p * 2 + c * 3'', requestRuleExpr = buildRequestRuleExpr [sample_group]\<rparr>
   \<and> splitBillingExprAndRequestRules (combineBillingExpr ''p * 2 + c * 3'' (buildRequestRuleExpr [comparing_group])) =
     Got \<lparr>billingExpr = combineBillingExpr ''p * 2 + c * 3'' (buildRequestRuleExpr [comparing_group]), requestRuleExpr = []\<rparr>"
  using billing_expr_split [OF sample_base, of "[sample_group]"]
    billing_expr_split [OF sample_base, of "[comparing_group]"] samples_plain
  unfolding samples_built using samples_split by (simp del: unwrap_loop.simps)

text \<open>The pattern for such a comparison exists: the condition alone is read.\<close>

lemma comparison_alone_read:
  "tryParseRequestCondition (buildRequestConditionExpr (hd (rg_conditions comparing_group)))
     = Got (hd (rg_conditions comparing_group))"
  by code_simp

text \<open>A literal with an escape JSON does not have is matched and then makes the parser throw.\<close>

lemma bad_escape_throws:
  "tryParseRequestRuleExpr (''(has(header('' @ [quote] @ ''a'' @ [quote] @ ''), '' @ [quote, backslash] @ ''q'' @ [quote]
     @ '') ? 2 : 1)'') = Thrown"
  by code_simp

text \<open>A parenthesis inside a value is counted as one of the expression.\<close>

lemma paren_in_value_unreadable:
  "tryParseRequestRuleExpr (buildRequestRuleExpr [\<lparr>rg_conditions = [ph_cond ''header'' ''a'' ''eq'' ''(x'',
     ph_cond ''header'' ''b'' ''eq'' ''y''], multiplier = ''2'', conditionText = None, rg_matched = None\<rparr>]) = Null"
  by code_simp

end
