(* ===== verification/Billing_Tiers.thy ===== *)
theory Billing_Tiers
  imports Billing_Rules
begin

text \<open>
  The tiers of a billing expression. \<^verbatim>\<open>web/src/features/pricing/lib/billing-expr.ts\<close> has the registry of
  the pricing variables and the parser from which the price tables are shown;
  \<^verbatim>\<open>web/src/features/pricing/lib/tier-expr.ts\<close> has the visual editor's configuration, the expression
  generated from it and the reader that accepts only what it can generate. The evaluator of the
  estimator compiles the expression with \<^verbatim>\<open>new Function\<close> and is left out.
\<close>

section \<open>Pricing variables\<close>

datatype BillingSide = Input_Side | Output_Side | Condition_Side

record BillingVar =
  bv_key :: string
  bv_field :: "string option"
  bv_tierField :: "string option"
  bv_label :: string
  bv_shortLabel :: string
  bv_side :: BillingSide
  bv_isBase :: bool
  bv_isConditionOnly :: bool
  bv_group :: "string option"

definition price_var ::
  "string \<Rightarrow> string \<Rightarrow> string \<Rightarrow> string \<Rightarrow> string \<Rightarrow> BillingSide \<Rightarrow> string option \<Rightarrow> BillingVar" where
  "price_var k f tf l sl sd g =
     \<lparr>bv_key = k, bv_field = Some f, bv_tierField = Some tf, bv_label = l, bv_shortLabel = sl, bv_side = sd,
      bv_isBase = (g = None), bv_isConditionOnly = False, bv_group = g\<rparr>"

definition BILLING_VARS :: "BillingVar list" where
  "BILLING_VARS =
     [price_var ''p'' ''inputPrice'' ''input_unit_cost'' ''Input price'' ''Input'' Input_Side None,
      price_var ''c'' ''outputPrice'' ''output_unit_cost'' ''Completion price'' ''Output'' Output_Side None,
      \<lparr>bv_key = ''len'', bv_field = None, bv_tierField = None, bv_label = ''Input length'',
       bv_shortLabel = ''Length'', bv_side = Condition_Side, bv_isBase = False, bv_isConditionOnly = True,
       bv_group = None\<rparr>,
      price_var ''cr'' ''cacheReadPrice'' ''cache_read_unit_cost'' ''Cache read price'' ''Cache Read''
        Input_Side (Some ''cache''),
      price_var ''cc'' ''cacheCreatePrice'' ''cache_create_unit_cost'' ''Cache create price'' ''Cache Write''
        Input_Side (Some ''cache''),
      price_var ''cc1h'' ''cacheCreate1hPrice'' ''cache_create_1h_unit_cost'' ''Cache create (1h) price''
        ''Cache Write (1h)'' Input_Side (Some ''cache''),
      price_var ''img'' ''imagePrice'' ''image_unit_cost'' ''Image input price'' ''Image In'' Input_Side (Some ''media''),
      price_var ''img_o'' ''imageOutputPrice'' ''image_output_unit_cost'' ''Image output price'' ''Image Out''
        Output_Side (Some ''media''),
      price_var ''ai'' ''audioInputPrice'' ''audio_input_unit_cost'' ''Audio input price'' ''Audio In''
        Input_Side (Some ''media''),
      price_var ''ao'' ''audioOutputPrice'' ''audio_output_unit_cost'' ''Audio output price'' ''Audio Out''
        Output_Side (Some ''media'')]"

definition BILLING_PRICING_VARS :: "BillingVar list" where
  "BILLING_PRICING_VARS = filter (\<lambda>v. \<not> bv_isConditionOnly v) BILLING_VARS"

definition BILLING_CONDITION_VARS :: "string list" where
  "BILLING_CONDITION_VARS = map bv_key (filter (\<lambda>v. bv_isBase v \<or> bv_isConditionOnly v) BILLING_VARS)"

definition BILLING_VAR_KEY_TO_FIELD :: "(string \<times> string) list" where
  "BILLING_VAR_KEY_TO_FIELD = map (\<lambda>v. (bv_key v, the (bv_field v))) BILLING_PRICING_VARS"

definition BILLING_EXTRA_VARS :: "BillingVar list" where
  "BILLING_EXTRA_VARS = filter (\<lambda>v. \<not> bv_isBase v \<and> \<not> bv_isConditionOnly v) BILLING_VARS"

text \<open>The field of a tier and the variable of the expression.\<close>

definition BILLING_CACHE_VAR_MAP :: "(string \<times> string) list" where
  "BILLING_CACHE_VAR_MAP = map (\<lambda>v. (the (bv_tierField v), bv_key v)) BILLING_EXTRA_VARS"

section \<open>Reading the tiers\<close>

definition ws_class :: regex where "ws_class = RStar (RClass is_ws)"

text \<open>\<^verbatim>\<open>\b(\<dots>)\s*\*\s*([\d.eE+-]+)\<close>; the word boundary is the start condition of the search.\<close>

definition BILLING_VAR_REGEX :: regex where
  "BILLING_VAR_REGEX = rseq
     [RGroup 1 (ralt (map (\<lambda>v. lit (bv_key v)) BILLING_PRICING_VARS)), ws_class, lit ''*'', ws_class,
      RGroup 2 number_text]"

record TierCondition =
  tc_var :: string
  tc_op :: string
  tc_value :: jsnum

record ParsedTier =
  pt_label :: string
  pt_conditions :: "TierCondition list"
  pt_prices :: "(string \<times> jsnum) list"

record ExprVersion =
  ev_version :: jsnum
  ev_body :: string

definition stripExprVersion :: "string \<Rightarrow> ExprVersion" where
  "stripExprVersion exprStr =
     (if exprStr = [] then \<lparr>ev_version = Fin 1, ev_body = []\<rparr>
      else
        (case full_match (rseq [lit ''v'', RGroup 1 (RPlus digit_class), lit '':'', RGroup 2 (RStar (RClass (\<lambda>_. True)))])
                exprStr of
           Some m \<Rightarrow> \<lparr>ev_version = Number_str (cap m 1), ev_body = cap m 2\<rparr>
         | None \<Rightarrow> \<lparr>ev_version = Fin 1, ev_body = exprStr\<rparr>))"

text \<open>\<^verbatim>\<open>n || 0\<close>\<close>

definition num_or_zero :: "jsnum option \<Rightarrow> jsnum" where
  "num_or_zero n = (case n of None \<Rightarrow> Fin 0 | Some m \<Rightarrow> if jsnum_truthy m then m else Fin 0)"

definition add_coeff :: "(string \<times> jsnum) list \<Rightarrow> captures \<Rightarrow> (string \<times> jsnum) list" where
  "add_coeff coeffs m =
     (if map_of coeffs (cap m 1) \<noteq> None then coeffs else coeffs @ [(cap m 1, Number_str (cap m 2))])"

definition parseTierBody :: "string \<Rightarrow> (string \<times> jsnum) list" where
  "parseTierBody bodyStr =
     (let coeffs = foldl add_coeff [] (exec_all (length bodyStr) word_start BILLING_VAR_REGEX None bodyStr) in
      map (\<lambda>(varName, fld). (fld, num_or_zero (map_of coeffs varName))) BILLING_VAR_KEY_TO_FIELD)"

text \<open>\<^verbatim>\<open>[\d.eE+]\<close>\<close>

definition cond_char :: "char \<Rightarrow> bool" where
  "cond_char c \<longleftrightarrow> is_digit c \<or> c \<in> set ''.eE+''"

definition cond_var :: regex where "cond_var = ralt [lit ''p'', lit ''c'', lit ''len'']"

definition cond_op :: regex where "cond_op = ralt [lit ''<'', lit ''<='', lit ''>'', lit ''>='']"

definition cond_number :: regex where "cond_number = RPlus (RClass cond_char)"

definition cond_atom :: regex where
  "cond_atom = rseq [cond_var, ws_class, cond_op, ws_class, cond_number]"

definition and_sep :: regex where
  "and_sep = rseq [ws_class, lit ''&&'', ws_class]"

definition cond_group :: regex where
  "cond_group = rseq [cond_atom, RStar (rseq [and_sep, cond_atom])]"

definition cond_pattern :: regex where
  "cond_pattern = rseq [RGroup 1 cond_var, ws_class, RGroup 2 cond_op, ws_class, RGroup 3 cond_number]"

definition tier_head :: "regex list" where
  "tier_head = [ROpt (rseq [RGroup 1 cond_group, ws_class, lit ''?'', ws_class]), lit (''tier('' @ [quote]),
     RGroup 2 (RStar (RClass not_quote)), lit (quote # '',''), ws_class]"

definition tierRe :: regex where
  "tierRe = rseq (tier_head @ [RGroup 3 (RPlus (RClass (\<lambda>c. c \<noteq> CHR '')''))), lit '')''])"

text \<open>\<^verbatim>\<open>s.split(re)\<close> for a pattern that matches no empty text; each round takes a character, and the
  length of the text bounds the rounds.\<close>

fun split_rx :: "nat \<Rightarrow> regex \<Rightarrow> string \<Rightarrow> string \<Rightarrow> string list" where
  "split_rx 0 r part s = [rev part]"
| "split_rx (Suc n) r part s =
     (case rx_match r (s, []) of
        (rest, _) # _ \<Rightarrow> rev part # split_rx n r [] rest
      | [] \<Rightarrow> (case s of [] \<Rightarrow> [rev part] | c # s' \<Rightarrow> split_rx n r (c # part) s'))"

definition parse_condition :: "string \<Rightarrow> TierCondition list" where
  "parse_condition cp =
     (case full_match cond_pattern (trim cp) of
        Some m \<Rightarrow> [\<lparr>tc_var = cap m 1, tc_op = cap m 2, tc_value = Number_str (cap m 3)\<rparr>]
      | None \<Rightarrow> [])"

definition parse_conditions :: "string \<Rightarrow> TierCondition list" where
  "parse_conditions condStr =
     (if condStr = [] then []
      else concat (map parse_condition (split_rx (length condStr + 1) and_sep [] condStr)))"

definition parsed_tier :: "captures \<Rightarrow> ParsedTier" where
  "parsed_tier m =
     \<lparr>pt_label = cap m 2, pt_conditions = parse_conditions (cap m 1), pt_prices = parseTierBody (cap m 3)\<rparr>"

definition parseTiersFromExpr :: "string \<Rightarrow> ParsedTier list" where
  "parseTiersFromExpr exprStr =
     (if exprStr = [] then []
      else
        (let body = ev_body (stripExprVersion exprStr) in
         map parsed_tier (exec_all (length body) anywhere tierRe None body)))"

text \<open>\<^verbatim>\<open>s.replaceAll(re, r)\<close> for a pattern that matches no empty text.\<close>

fun replace_rx :: "nat \<Rightarrow> regex \<Rightarrow> string \<Rightarrow> string \<Rightarrow> string" where
  "replace_rx 0 r by' s = s"
| "replace_rx (Suc n) r by' s =
     (case rx_match r (s, []) of
        (rest, _) # _ \<Rightarrow> by' @ replace_rx n r by' rest
      | [] \<Rightarrow> (case s of [] \<Rightarrow> [] | c # s' \<Rightarrow> c # replace_rx n r by' s'))"

definition replaceAll_rx :: "regex \<Rightarrow> string \<Rightarrow> string \<Rightarrow> string" where
  "replaceAll_rx r by' s = replace_rx (length s) r by' s"

definition to_lower :: "char \<Rightarrow> char" where
  "to_lower c =
     (let n = (of_char c :: nat) in
      if 65 \<le> n \<and> n \<le> 90 \<or> 192 \<le> n \<and> n \<le> 222 \<and> n \<noteq> 215 then char_of (n + 32) else c)"

text \<open>The signs U+2264, U+2265, U+FF1C, U+FF1E and U+FF1D in the UTF-8 bytes of the source.\<close>

definition less_equal_sign :: string where "less_equal_sign = [CHR 0xE2, CHR 0x89, CHR 0xA4]"
definition greater_equal_sign :: string where "greater_equal_sign = [CHR 0xE2, CHR 0x89, CHR 0xA5]"
definition wide_less :: string where "wide_less = [CHR 0xEF, CHR 0xBC, CHR 0x9C]"
definition wide_greater :: string where "wide_greater = [CHR 0xEF, CHR 0xBC, CHR 0x9E]"
definition wide_equals :: string where "wide_equals = [CHR 0xEF, CHR 0xBC, CHR 0x9D]"

definition sign_pattern :: "string \<Rightarrow> string \<Rightarrow> string \<Rightarrow> regex" where
  "sign_pattern sign eq wide =
     (let equals = ROpt (ralt [lit ''='', lit wide_equals]) in
      ralt [rseq [lit sign, equals], lit eq, rseq [lit wide, equals]])"

definition normalizeTierLabel :: "string option \<Rightarrow> string" where
  "normalizeTierLabel label =
     (case label of
        None \<Rightarrow> []
      | Some l \<Rightarrow>
          map to_lower
            (replaceAll_rx (RPlus (RClass is_ws)) []
              (replaceAll_rx (sign_pattern ''>'' greater_equal_sign wide_greater) ''>''
                (replaceAll_rx (sign_pattern ''<'' less_equal_sign wide_less) ''<'' l))))"

section \<open>The visual editor\<close>

datatype CacheMode = CACHE_MODE_TIMED | CACHE_MODE_GENERIC

record TierConditionInput =
  in_var :: string
  in_op :: string
  in_value :: jsval

record VisualTier =
  vt_label :: string
  vt_conditions :: "TierConditionInput list"
  input_unit_cost :: jsnum
  output_unit_cost :: jsnum
  cache_mode :: CacheMode
  cache_read_unit_cost :: jsnum
  cache_create_unit_cost :: jsnum
  cache_create_1h_unit_cost :: jsnum
  image_unit_cost :: jsnum
  image_output_unit_cost :: jsnum
  audio_input_unit_cost :: jsnum
  audio_output_unit_cost :: jsnum

text \<open>A tier of which any field may be missing: the prices by field name.\<close>

record PartialTier =
  p_label :: "string option"
  p_conditions :: "TierConditionInput list option"
  p_cache_mode :: "CacheMode option"
  p_costs :: "(string \<times> jsnum) list"

definition getTierCacheMode :: "PartialTier option \<Rightarrow> CacheMode" where
  "getTierCacheMode tier =
     (case tier of
        None \<Rightarrow> CACHE_MODE_GENERIC
      | Some t \<Rightarrow>
          (case p_cache_mode t of
             Some m \<Rightarrow> m
           | None \<Rightarrow>
               (case map_of (p_costs t) ''cache_create_1h_unit_cost'' of
                  Some (Fin q) \<Rightarrow> if q > 0 then CACHE_MODE_TIMED else CACHE_MODE_GENERIC
                | Some PosInf \<Rightarrow> CACHE_MODE_TIMED
                | _ \<Rightarrow> CACHE_MODE_GENERIC)))"

text \<open>
  The spread \<^verbatim>\<open>...tier\<close> comes after the two base prices, the label, the mode and the conditions, so a
  field that is present keeps its value there; the other prices are set after it.
\<close>

definition normalizeVisualTier :: "PartialTier \<Rightarrow> VisualTier" where
  "normalizeVisualTier tier =
     (let cost = (\<lambda>f. num_or_zero (map_of (p_costs tier) f));
          base = (\<lambda>f. case map_of (p_costs tier) f of Some n \<Rightarrow> n | None \<Rightarrow> cost f) in
      \<lparr>vt_label = (case p_label tier of Some l \<Rightarrow> l | None \<Rightarrow> []),
       vt_conditions = (case p_conditions tier of Some cs \<Rightarrow> cs | None \<Rightarrow> []),
       input_unit_cost = base ''input_unit_cost'', output_unit_cost = base ''output_unit_cost'',
       cache_mode = getTierCacheMode (Some tier),
       cache_read_unit_cost = cost ''cache_read_unit_cost'',
       cache_create_unit_cost = cost ''cache_create_unit_cost'',
       cache_create_1h_unit_cost = cost ''cache_create_1h_unit_cost'',
       image_unit_cost = cost ''image_unit_cost'',
       image_output_unit_cost = cost ''image_output_unit_cost'',
       audio_input_unit_cost = cost ''audio_input_unit_cost'',
       audio_output_unit_cost = cost ''audio_output_unit_cost''\<rparr>)"

text \<open>The price of a tier by its field name.\<close>

definition tier_field :: "VisualTier \<Rightarrow> string \<Rightarrow> jsnum option" where
  "tier_field t f = map_of
     [(''input_unit_cost'', input_unit_cost t), (''output_unit_cost'', output_unit_cost t),
      (''cache_read_unit_cost'', cache_read_unit_cost t), (''cache_create_unit_cost'', cache_create_unit_cost t),
      (''cache_create_1h_unit_cost'', cache_create_1h_unit_cost t), (''image_unit_cost'', image_unit_cost t),
      (''image_output_unit_cost'', image_output_unit_cost t), (''audio_input_unit_cost'', audio_input_unit_cost t),
      (''audio_output_unit_cost'', audio_output_unit_cost t)] f"

text \<open>A complete tier, where a partial one is expected.\<close>

definition tier_as_partial :: "VisualTier \<Rightarrow> PartialTier" where
  "tier_as_partial t =
     \<lparr>p_label = Some (vt_label t), p_conditions = Some (vt_conditions t), p_cache_mode = Some (cache_mode t),
      p_costs = map (\<lambda>f. (f, the (tier_field t f)))
        ([''input_unit_cost'', ''output_unit_cost''] @ map fst BILLING_CACHE_VAR_MAP)\<rparr>"

definition createDefaultVisualConfig :: "VisualTier list" where
  "createDefaultVisualConfig =
     [normalizeVisualTier \<lparr>p_label = Some ''base'', p_conditions = Some [], p_cache_mode = Some CACHE_MODE_GENERIC,
        p_costs = [(''input_unit_cost'', Fin 0), (''output_unit_cost'', Fin 0)]\<rparr>]"

text \<open>A configuration is its list of tiers.\<close>

definition normalizeVisualConfig :: "VisualTier list option \<Rightarrow> VisualTier list" where
  "normalizeVisualConfig config =
     (case config of
        None \<Rightarrow> createDefaultVisualConfig
      | Some tiers \<Rightarrow>
          if length tiers = 0 then createDefaultVisualConfig
          else map (\<lambda>t. normalizeVisualTier (tier_as_partial t)) tiers)"

definition condition_complete :: "TierConditionInput \<Rightarrow> bool" where
  "condition_complete c \<longleftrightarrow> in_var c \<noteq> [] \<and> in_op c \<noteq> [] \<and> in_value c \<notin> {JUndefined, JNull, JStr []}"

definition condition_text :: "TierConditionInput \<Rightarrow> string" where
  "condition_text c = in_var c @ '' '' @ in_op c @ '' '' @ to_str (in_value c)"

definition buildConditionStr :: "TierConditionInput list \<Rightarrow> string" where
  "buildConditionStr conditions =
     (if length conditions = 0 then []
      else join '' && '' (map condition_text (filter condition_complete conditions)))"

definition price_term :: "string \<Rightarrow> jsnum \<Rightarrow> string" where
  "price_term v n = v @ '' * '' @ to_str (JNum n)"

definition buildTierBodyExpr :: "VisualTier \<Rightarrow> string" where
  "buildTierBodyExpr tier =
     (let ic = num_or_zero (Some (input_unit_cost tier)); oc = num_or_zero (Some (output_unit_cost tier)) in
      join '' + ''
        ([price_term ''p'' ic, price_term ''c'' oc]
         @ concat (map (\<lambda>(fld, exprVar).
             (let v = num_or_zero (tier_field tier fld) in
              if v \<noteq> Fin 0 then [price_term exprVar v] else [])) BILLING_CACHE_VAR_MAP)))"

definition tier_text :: "string \<Rightarrow> VisualTier \<Rightarrow> string" where
  "tier_text label tier = ''tier('' @ quote # label @ quote # '', '' @ buildTierBodyExpr tier @ '')''"

definition or_default :: "string \<Rightarrow> string \<Rightarrow> string" where
  "or_default s d = (if s = [] then d else s)"

fun tier_parts :: "nat \<Rightarrow> VisualTier list \<Rightarrow> string list" where
  "tier_parts i [] = []"
| "tier_parts i (tier # tiers) =
     (let body = tier_text (or_default (vt_label tier) (''tier_'' @ nat_str (i + 1))) tier;
          cond = buildConditionStr (vt_conditions tier) in
      (if tiers \<noteq> [] \<and> cond \<noteq> [] then cond @ '' ? '' @ body else body) # tier_parts (i + 1) tiers)"

definition generateExprFromVisualConfig :: "VisualTier list option \<Rightarrow> string" where
  "generateExprFromVisualConfig config =
     (case config of
        None \<Rightarrow> ''p * 0 + c * 0''
      | Some [] \<Rightarrow> ''p * 0 + c * 0''
      | Some [tier] \<Rightarrow>
          (let body = tier_text (or_default (vt_label tier) ''default'') tier;
               cond = buildConditionStr (vt_conditions tier) in
           if cond \<noteq> [] then cond @ '' ? '' @ body @ '' : p * 0 + c * 0'' else body)
      | Some tiers \<Rightarrow> join '' : '' (tier_parts 0 tiers))"

text \<open>The price terms in the order the generator writes them, each extra one optional.\<close>

definition opt_cache :: "nat \<Rightarrow> regex list" where
  "opt_cache n = map (\<lambda>(i, v). ROpt (rseq [ws_class, lit ''+'', ws_class, lit v, ws_class, lit ''*'', ws_class,
       RGroup (n + i) number_text])) (enumerate 0 (map snd BILLING_CACHE_VAR_MAP))"

definition bodyPat :: "nat \<Rightarrow> regex list" where
  "bodyPat n = [lit ''p'', ws_class, lit ''*'', ws_class, RGroup n number_text, ws_class, lit ''+'', ws_class,
     lit ''c'', ws_class, lit ''*'', ws_class, RGroup (n + 1) number_text] @ opt_cache (n + 2)"

definition singleRe :: regex where
  "singleRe = rseq ([lit (''tier('' @ [quote]), RGroup 1 (RStar (RClass not_quote)), lit (quote # '',''), ws_class]
     @ bodyPat 2 @ [lit '')''])"

definition visualTierRe :: regex where
  "visualTierRe = rseq (tier_head @ bodyPat 3 @ [lit '')''])"

definition captured_tier :: "captures \<Rightarrow> nat \<Rightarrow> string \<Rightarrow> TierConditionInput list \<Rightarrow> VisualTier" where
  "captured_tier m n label conditions = normalizeVisualTier
     \<lparr>p_label = Some label, p_conditions = Some conditions, p_cache_mode = None,
      p_costs = [(''input_unit_cost'', Number_str (cap m n)), (''output_unit_cost'', Number_str (cap m (n + 1)))]
        @ concat (map (\<lambda>(i, fld). case map_of m (n + 2 + i) of None \<Rightarrow> [] | Some v \<Rightarrow> [(fld, Number_str v)])
            (enumerate 0 (map fst BILLING_CACHE_VAR_MAP)))\<rparr>"

definition as_input :: "TierCondition \<Rightarrow> TierConditionInput" where
  "as_input c = \<lparr>in_var = tc_var c, in_op = tc_op c, in_value = JNum (tc_value c)\<rparr>"

definition without_space :: "string \<Rightarrow> string" where
  "without_space s = filter (\<lambda>c. \<not> is_ws c) s"

definition tryParseVisualConfig :: "string option \<Rightarrow> VisualTier list option" where
  "tryParseVisualConfig exprStr =
     (case exprStr of
        None \<Rightarrow> None
      | Some s \<Rightarrow>
          if s = [] then None
          else
            (let body = ev_body (stripExprVersion s) in
             case full_match singleRe body of
               Some m \<Rightarrow> Some (normalizeVisualConfig (Some [captured_tier m 2 (cap m 1) []]))
             | None \<Rightarrow>
                 (let tiers = map (\<lambda>m. captured_tier m 3 (cap m 2) (map as_input (parse_conditions (cap m 1))))
                        (exec_all (length body) anywhere visualTierRe None body) in
                  if length tiers = 0 then None
                  else
                    (let cfg = normalizeVisualConfig (Some tiers) in
                     if without_space (generateExprFromVisualConfig (Some cfg)) \<noteq> without_space body then None
                     else Some cfg))))"

section \<open>The extra variables of an expression\<close>

definition ESTIMATOR_VARS :: "(string \<times> string) list" where
  "ESTIMATOR_VARS =
     [(''cr'', ''cacheReadTokens''), (''cc'', ''cacheCreateTokens''), (''cc1h'', ''cacheCreate1hTokens''),
      (''img'', ''imageTokens''), (''img_o'', ''imageOutputTokens''), (''ai'', ''audioInputTokens''),
      (''ao'', ''audioOutputTokens'')]"

definition exprUsesExtraVars :: "string \<Rightarrow> bool" where
  "exprUsesExtraVars exprStr =
     (if exprStr = [] then False
      else exec_from word_start (rseq [RGroup 1 (ralt (map (\<lambda>f. lit (fst f)) ESTIMATOR_VARS)), RWordEnd]) None exprStr
        \<noteq> None)"

end
