(* ===== verification/Billing_Tier_Laws.thy ===== *)
theory Billing_Tier_Laws
  imports Billing_Tiers Billing_Laws
begin

text \<open>
  The tiers shown for an expression that the visual editor generated are the tiers of the editor.
\<close>

section \<open>White space and numbers\<close>

lemma seq_ws:
  "t = [] \<or> \<not> is_ws (hd t) \<Longrightarrow> rx_match (rseq (ws_class # rs)) (t, cs) = rx_match (rseq rs) (t, cs)"
  "t \<noteq> [] \<Longrightarrow> \<not> is_ws (hd t) \<Longrightarrow>
     rx_match (rseq (ws_class # rs)) (CHR '' '' # t, cs) = rx_match (rseq rs) (t, cs) @ rx_match (rseq rs) (CHR '' '' # t, cs)"
proof -
  assume t: "t = [] \<or> \<not> is_ws (hd t)"
  then have "forced (RClass is_ws) (singles []) t" by (simp add: forced_class)
  then have "rx_match ws_class (t, cs) = [(t, cs)]"
    using match_star_forced [of "RClass is_ws" "singles []" t cs]
    by (simp add: ws_class_def singles_def del: rx_match.simps)
  then show "rx_match (rseq (ws_class # rs)) (t, cs) = rx_match (rseq rs) (t, cs)"
    by (simp add: match_rseq(2))
next
  assume "t \<noteq> []" "\<not> is_ws (hd t)"
  then have "forced (RClass is_ws) (singles '' '') t" by (simp add: forced_class is_ws_def)
  then have "rx_match ws_class (CHR '' '' # t, cs) = [(t, cs), (CHR '' '' # t, cs)]"
    using match_star_forced [of "RClass is_ws" "singles '' ''" t cs]
    by (simp add: ws_class_def singles_def del: rx_match.simps)
  then show "rx_match (rseq (ws_class # rs)) (CHR '' '' # t, cs)
      = rx_match (rseq rs) (t, cs) @ rx_match (rseq rs) (CHR '' '' # t, cs)"
    by (simp add: match_rseq(2))
qed

text \<open>A price or a limit that is printed without an exponent.\<close>

definition price_ok :: "num \<Rightarrow> bool" where
  "price_ok q \<longleftrightarrow> num_ok q \<and> (q = 0 \<or> 1 / 1000000 \<le> q \<and> q < 10 ^ 21)"

definition price_char :: "char \<Rightarrow> bool" where
  "price_char c \<longleftrightarrow> is_digit c \<or> c = CHR ''.''"

lemma frac_str_digits: "0 \<le> f \<Longrightarrow> f < 1 \<Longrightarrow> list_all is_digit (frac_str k f)"
proof (induction k arbitrary: f)
  case (Suc k)
  let ?d = "nat \<lfloor>10 * f\<rfloor>"
  have fl: "0 \<le> \<lfloor>10 * f\<rfloor>" "\<lfloor>10 * f\<rfloor> < 10" using Suc.prems by (simp_all add: floor_less_iff)
  have d: "?d < 10" "of_nat ?d = (of_int \<lfloor>10 * f\<rfloor> :: num)"
    using fl nat_less_iff [OF fl(1), of 10] by simp_all
  have "0 \<le> 10 * f - of_int \<lfloor>10 * f\<rfloor>" "10 * f - of_int \<lfloor>10 * f\<rfloor> < 1" by linarith+
  then have "list_all is_digit (frac_str k (10 * f - of_nat ?d))"
    unfolding d(2) by (rule Suc.IH)
  then show ?case using d(1) by (simp add: Let_def)
qed simp

lemma price_text:
  assumes "price_ok q"
  shows "num_str q \<noteq> []" "list_all price_char (num_str q)" "Number_str (num_str q) = Fin q"
proof -
  show "Number_str (num_str q) = Fin q" using assms by (simp add: price_ok_def num_ok_def)
  show "num_str q \<noteq> []" using assms print_number_start by (simp add: price_ok_def)
  have "0 \<le> q" using assms by (auto simp: price_ok_def)
  have "list_all is_digit (nat_str n)" for n
    using all_digits_nat_str [of n] by (simp add: all_digits_def)
  moreover have "list_all is_digit (frac_str 20 (q - of_int \<lfloor>q\<rfloor>))"
    by (rule frac_str_digits) linarith+
  ultimately show "list_all price_char (num_str q)"
    using \<open>0 \<le> q\<close> by (auto simp: num_str_def Let_def price_char_def list_all_iff)
qed

lemma price_char_facts:
  assumes "price_char c"
  shows "num_char c" "cond_char c" "\<not> is_ws c" "c \<notin> set ''?&: *+)tplcai''"
  using assms by (auto simp: price_char_def num_char_def cond_char_def is_digit_def is_ws_def Let_def)

section \<open>Conditions of a tier\<close>

definition cond_text_ok :: "string \<Rightarrow> string \<Rightarrow> string \<Rightarrow> bool" where
  "cond_text_ok v op n \<longleftrightarrow> v \<in> {''p'', ''c'', ''len''} \<and> op \<in> {''<'', ''<='', ''>'', ''>=''}
     \<and> n \<noteq> [] \<and> list_all price_char n"

definition atom_text :: "string \<times> string \<times> string \<Rightarrow> string" where
  "atom_text a = (case a of (v, op, n) \<Rightarrow> v @ '' '' @ op @ '' '' @ n)"

definition atom_ok :: "string \<times> string \<times> string \<Rightarrow> bool" where
  "atom_ok a = (case a of (v, op, n) \<Rightarrow> cond_text_ok v op n)"

lemma price_hd:
  "n \<noteq> [] \<Longrightarrow> list_all price_char n \<Longrightarrow> price_char (hd n)"
  by (cases n) simp_all

lemma seq_var:
  "v \<in> {''p'', ''c'', ''len''} \<Longrightarrow>
     rx_match (rseq (cond_var # rs)) (v @ CHR '' '' # s, cs) = rx_match (rseq rs) (CHR '' '' # s, cs)"
  by (elim insertE; simp add: cond_var_def seq_alt seq_lit)

lemma seq_op:
  assumes "op \<in> {''<'', ''<='', ''>'', ''>=''}" "\<And>s. rx_match (rseq rs) (CHR ''='' # s, cs) = []"
  shows "rx_match (rseq (cond_op # rs)) (op @ CHR '' '' # s, cs) = rx_match (rseq rs) (CHR '' '' # s, cs)"
  using assms(1) by (elim insertE; simp add: cond_op_def seq_alt seq_lit assms(2))

lemma op_space: "rx_match (rseq (cond_op # rs)) (CHR '' '' # s, cs) = []"
  by (simp add: cond_op_def seq_alt seq_lit)

lemma op_start: "op \<in> {''<'', ''<='', ''>'', ''>=''} \<Longrightarrow> op \<noteq> [] \<and> \<not> is_ws (hd op)"
  by (elim insertE; simp add: is_ws_def)

lemma seq_atom:
  assumes "atom_ok a" "t = [] \<or> \<not> cond_char (hd t)"
  shows "\<exists>us. rx_match cond_atom (atom_text a @ t, cs) = map (\<lambda>u. (u, cs)) (t # us)
     \<and> (\<forall>u \<in> set us. u \<noteq> [] \<and> price_char (hd u))"
proof -
  obtain v op n where a: "a = (v, op, n)" by (cases a)
  have v: "v \<in> {''p'', ''c'', ''len''}" and op: "op \<in> {''<'', ''<='', ''>'', ''>=''}"
    and n: "n \<noteq> []" "list_all price_char n" using assms(1) by (auto simp: a atom_ok_def cond_text_ok_def)
  obtain d m where dm: "n = d # m" using n(1) by (cases n) auto
  have d: "\<not> is_ws d" using n(2) price_char_facts(3) by (simp add: dm)
  have C: "list_all cond_char n" using n(2) by (rule list.pred_mono_strong) (rule price_char_facts(2))
  have p: "rx_match (rseq [cond_number]) (n @ t, cs) = map (\<lambda>u. (u, cs)) (tails (singles (tl n)) t)"
    using plus_class [OF n(1) C assms(2), of cs] by (simp add: cond_number_def seq_one)
  have sp: "rx_match (rseq [cond_number]) (c # s, cs) = []" if "c \<in> {CHR '' '', CHR ''=''}" for c s
    using that by (auto simp: cond_number_def match_rseq(2) RPlus_def cond_char_def is_digit_def)
  have "rx_match (rseq [ws_class, cond_number]) (CHR ''='' # s, cs) = []" for s
    by (simp add: seq_ws(1) is_ws_def sp)
  then have "rx_match (rseq [cond_op, ws_class, cond_number]) (op @ CHR '' '' # n @ t, cs)
      = rx_match (rseq [cond_number]) (n @ t, cs)"
    using d by (simp add: seq_op [OF op] seq_ws(2) sp dm)
  moreover have "op @ CHR '' '' # n @ t \<noteq> []" "\<not> is_ws (hd (op @ CHR '' '' # n @ t))"
    using op_start [OF op] by simp_all
  ultimately have "rx_match cond_atom (v @ '' '' @ op @ '' '' @ n @ t, cs) = rx_match (rseq [cond_number]) (n @ t, cs)"
    by (simp add: cond_atom_def seq_var [OF v] seq_ws(2) op_space)
  moreover obtain us where us: "tails (singles m) t = t # us" "\<forall>u \<in> set us. u \<noteq> [] \<and> hd u \<in> set m"
    using first_tail by blast
  ultimately have "rx_match cond_atom (atom_text a @ t, cs) = map (\<lambda>u. (u, cs)) (t # us)"
    by (simp add: a atom_text_def p us(1)) (simp add: dm us(1))
  moreover have "price_char (hd u)" if "u \<in> set us" for u
    using us(2) that n(2) by (auto simp: dm list_all_iff)
  ultimately show ?thesis using us(2) by blast
qed

text \<open>
  The other matches of a list of conditions stop inside a number or before an operator; what
  follows the list in a tier matches at none of these places.
\<close>

definition astray :: "string \<Rightarrow> bool" where
  "astray u \<longleftrightarrow> u \<noteq> [] \<and> (price_char (hd u) \<or> startsWith u '' && '')"

definition more_atoms :: "(string \<times> string \<times> string) list \<Rightarrow> string" where
  "more_atoms as = concat (map (\<lambda>a. '' && '' @ atom_text a) as)"

abbreviation next_atom :: regex where "next_atom \<equiv> rseq [and_sep, cond_atom]"

lemma more_price: "price_char c \<Longrightarrow> rx_match next_atom (c # s, cs) = []"
proof -
  assume c: "price_char c"
  then have "c \<noteq> CHR ''&''" "\<not> is_ws c" using price_char_facts [OF c] by auto
  then show ?thesis by (simp add: and_sep_def seq_nest seq_ws(1) seq_lit)
qed

lemma atom_start: "atom_ok a \<Longrightarrow> \<exists>c s. atom_text a = c # s \<and> c \<in> {CHR ''p'', CHR ''c'', CHR ''l''}"
  by (cases a) (auto simp: atom_ok_def cond_text_ok_def atom_text_def)

lemma more_atom:
  assumes "atom_ok a"
  shows "rx_match next_atom ('' && '' @ atom_text a @ t, cs) = rx_match cond_atom (atom_text a @ t, cs)"
proof -
  obtain c s where a: "atom_text a = c # s" and c: "c \<in> {CHR ''p'', CHR ''c'', CHR ''l''}"
    using atom_start [OF assms] by blast
  have w: "\<not> is_ws c" using c by (auto simp: is_ws_def)
  have "rx_match cond_atom (CHR '' '' # s, cs) = []" for s
    by (simp add: cond_atom_def cond_var_def seq_alt seq_lit)
  then show ?thesis
    by (simp add: and_sep_def seq_nest seq_ws is_ws_def [of "CHR ''&''"] seq_lit a w seq_one)
qed

lemma star_stop: "f (u, cs) = [] \<Longrightarrow> star_match n f (u, cs) = [(u, cs)]"
  by (cases n) simp_all

lemma more_star:
  assumes "list_all atom_ok as" "rx_match next_atom (t, cs) = []" "t \<noteq> [] \<and> \<not> cond_char (hd t)"
    and "length (more_atoms as @ t) \<le> n"
  shows "\<exists>us. star_match n (rx_match next_atom) (more_atoms as @ t, cs) = map (\<lambda>u. (u, cs)) (t # us) \<and> list_all astray us"
  using assms
proof (induction as arbitrary: n)
  case Nil
  then show ?case by (intro exI [of _ "[]"]) (simp add: more_atoms_def star_stop)
next
  case (Cons a as)
  let ?r = "more_atoms as @ t" and ?s = "more_atoms (a # as) @ t"
  have s: "?s = '' && '' @ atom_text a @ ?r" by (simp add: more_atoms_def)
  obtain k where n: "n = Suc k" using Cons.prems(4) by (cases n) (simp_all add: more_atoms_def)
  have len: "length ?r \<le> k" using Cons.prems(4) by (simp add: n more_atoms_def)
  have "?r = [] \<or> \<not> cond_char (hd ?r)"
    using Cons.prems(3) by (cases as) (auto simp: more_atoms_def cond_char_def is_digit_def)
  then obtain vs where vs: "rx_match cond_atom (atom_text a @ ?r, cs) = map (\<lambda>u. (u, cs)) (?r # vs)"
    "\<forall>u \<in> set vs. u \<noteq> [] \<and> price_char (hd u)"
    using seq_atom [of a ?r cs] Cons.prems(1) by auto
  obtain us where us: "star_match k (rx_match next_atom) (?r, cs) = map (\<lambda>u. (u, cs)) (t # us)" "list_all astray us"
    using Cons.IH [OF _ Cons.prems(2,3) len] Cons.prems(1) by auto
  have stop: "star_match k (rx_match next_atom) (u, cs) = [(u, cs)]" if "u \<in> set vs" for u
  proof (rule star_stop)
    show "rx_match next_atom (u, cs) = []" using vs(2) that more_price by (cases u) auto
  qed
  have ls: "length ?r < length ?s" by (simp add: s)
  define rest where "rest = concat (map (\<lambda>u. if length u < length ?s then star_match k (rx_match next_atom) (u, cs) else []) vs)"
  have rest: "rest = map (\<lambda>u. (u, cs)) (filter (\<lambda>u. length u < length ?s) vs)"
    unfolding rest_def using stop by (induction vs) auto
  have "rx_match next_atom (?s, cs) = map (\<lambda>u. (u, cs)) (?r # vs)"
    unfolding s more_atom [OF Cons.prems(1) [unfolded list.pred_inject, THEN conjunct1]] by (rule vs(1))
  then have "star_match n (rx_match next_atom) (?s, cs)
      = map (\<lambda>u. (u, cs)) (t # us @ filter (\<lambda>u. length u < length ?s) vs @ [?s])"
    using us(1) rest ls by (simp add: n rest_def o_def)
  moreover have "list_all astray (us @ filter (\<lambda>u. length u < length ?s) vs @ [?s])"
    using us(2) vs(2) by (auto simp: list_all_iff astray_def s)
  ultimately show ?case by blast
qed

text \<open>The conditions of a tier as one text, the empty list as none.\<close>

definition atoms_text :: "(string \<times> string \<times> string) list \<Rightarrow> string" where
  "atoms_text as = join '' && '' (map atom_text as)"

lemma atoms_text_Cons: "atoms_text (a # as) = atom_text a @ more_atoms as"
proof (induction as arbitrary: a)
  case (Cons b as)
  then show ?case using Cons [of b] by (simp add: atoms_text_def more_atoms_def)
qed (simp add: atoms_text_def more_atoms_def)

definition after_conditions :: "string \<Rightarrow> bool" where
  "after_conditions t \<longleftrightarrow> t \<noteq> [] \<and> \<not> cond_char (hd t) \<and> (\<forall>cs. rx_match next_atom (t, cs) = [])"

lemma match_cond_group:
  assumes "list_all atom_ok as" "as \<noteq> []" "after_conditions t"
  shows "\<exists>us. rx_match cond_group (atoms_text as @ t, cs) = map (\<lambda>u. (u, cs)) (t # us) \<and> list_all astray us"
proof -
  obtain a bs where as: "as = a # bs" using assms(2) by (cases as) auto
  let ?r = "more_atoms bs @ t" and ?star = "\<lambda>u. star_match (length u) (rx_match next_atom) (u, cs)"
  have t: "t \<noteq> [] \<and> \<not> cond_char (hd t)" "rx_match next_atom (t, cs) = []"
    using assms(3) by (auto simp: after_conditions_def)
  have "?r = [] \<or> \<not> cond_char (hd ?r)"
    using t(1) by (cases bs) (auto simp: more_atoms_def cond_char_def is_digit_def)
  then obtain vs where vs: "rx_match cond_atom (atom_text a @ ?r, cs) = map (\<lambda>u. (u, cs)) (?r # vs)"
    "\<forall>u \<in> set vs. u \<noteq> [] \<and> price_char (hd u)"
    using seq_atom [of a ?r cs] assms(1) by (auto simp: as)
  obtain us where us: "?star ?r = map (\<lambda>u. (u, cs)) (t # us)" "list_all astray us"
    using more_star [of bs t cs "length ?r"] assms(1) t by (auto simp: as)
  have "?star u = [(u, cs)]" if "u \<in> set vs" for u
    using vs(2) that more_price by (intro star_stop) (cases u; auto)
  then have "concat (map ?star vs) = map (\<lambda>u. (u, cs)) vs" by (induction vs) auto
  then have "rx_match cond_group (atoms_text as @ t, cs) = map (\<lambda>u. (u, cs)) (t # us @ vs)"
    using us(1) by (simp add: cond_group_def match_rseq(2) [of cond_atom] seq_one as atoms_text_Cons vs(1) o_def)
  moreover have "list_all astray (us @ vs)" using us(2) vs(2) by (auto simp: list_all_iff astray_def)
  ultimately show ?thesis by blast
qed

lemma seq_conditions:
  assumes "list_all atom_ok as" "as \<noteq> []" "after_conditions t"
    and "\<And>u ds. astray u \<Longrightarrow> rx_match (rseq rs) (u, ds) = []"
  shows "rx_match (rseq (RGroup n cond_group # rs)) (atoms_text as @ t, cs)
     = rx_match (rseq rs) (t, (n, atoms_text as) # cs)"
proof -
  obtain us where us: "rx_match cond_group (atoms_text as @ t, cs) = map (\<lambda>u. (u, cs)) (t # us)" "list_all astray us"
    using match_cond_group [OF assms(1-3)] by blast
  then have "rx_match (rseq (RGroup n cond_group # rs)) (atoms_text as @ t, cs)
      = rx_match (rseq rs) (t, (n, atoms_text as) # cs)
        @ concat (map (\<lambda>u. rx_match (rseq rs) (u, (n, take (length (atoms_text as @ t) - length u) (atoms_text as @ t)) # cs)) us)"
    by (simp add: match_rseq(2) [of "RGroup n r" for r] o_def)
  also have "\<dots> = rx_match (rseq rs) (t, (n, atoms_text as) # cs)"
    using us(2) assms(4) by (simp add: list_all_iff concat_eq_Nil_conv)
  finally show ?thesis .
qed

section \<open>A tier of the expression\<close>

definition tier_call :: "string \<Rightarrow> string \<Rightarrow> string" where
  "tier_call l b = ''tier('' @ quote # l @ quote # '', '' @ b @ '')''"

definition body_ok :: "string \<Rightarrow> bool" where
  "body_ok b \<longleftrightarrow> b \<noteq> [] \<and> \<not> is_ws (hd b) \<and> CHR '')'' \<notin> set b"

definition call_tail :: "regex list" where
  "call_tail = [lit (''tier('' @ [quote]), RGroup 2 (RStar (RClass not_quote)), lit (quote # '',''), ws_class,
     RGroup 3 (RPlus (RClass (\<lambda>c. c \<noteq> CHR '')''))), lit '')'']"

lemma tierRe_eq: "tierRe = rseq (ROpt (rseq [RGroup 1 cond_group, ws_class, lit ''?'', ws_class]) # call_tail)"
  by (simp add: tierRe_def tier_head_def call_tail_def)

lemma match_call:
  assumes "list_all not_quote l" "body_ok b"
  shows "\<exists>ys. rx_match (rseq call_tail) (tier_call l b @ s, cs) = (s, (3, b) # (2, l) # cs) # ys"
proof -
  have b: "b \<noteq> []" "\<not> is_ws (hd b)" "list_all (\<lambda>c. c \<noteq> CHR '')'') b"
    using assms(2) by (auto simp: body_ok_def list_all_iff)
  have "rx_match (rseq call_tail) (tier_call l b @ s, cs)
      = rx_match (rseq [ws_class, RGroup 3 (RPlus (RClass (\<lambda>c. c \<noteq> CHR '')''))), lit '')''])
          (CHR '' '' # b @ CHR '')'' # s, (2, l) # cs)"
    using assms(1) by (simp add: call_tail_def tier_call_def seq_lit seq_star)
  also have "\<dots> = (s, (3, b) # (2, l) # cs) # rx_match (rseq [RGroup 3 (RPlus (RClass (\<lambda>c. c \<noteq> CHR '')''))), lit '')''])
          (CHR '' '' # b @ CHR '')'' # s, (2, l) # cs)"
    using b by (simp add: seq_ws(2) seq_plus seq_lit)
  finally show ?thesis by blast
qed

lemma match_tier:
  assumes "list_all not_quote l" "body_ok b"
  shows "\<exists>ys. rx_match tierRe (tier_call l b @ s, []) = (s, [(3, b), (2, l)]) # ys"
proof -
  have "rx_match cond_group (tier_call l b @ s, []) = []"
    by (simp add: cond_group_def cond_atom_def cond_var_def rx_struct seq_lit tier_call_def)
  then show ?thesis
    using match_call [OF assms, of s "[]"]
    by (simp add: tierRe_eq seq_opt seq_nest match_rseq(2) [of "RGroup n r" for n r])
qed

lemma astray_stuck: "astray u \<Longrightarrow> rx_match (rseq (ws_class # lit ''?'' # rs)) (u, ds) = []"
proof -
  assume "astray u"
  then consider c s where "u = c # s" "price_char c" | s where "u = '' && '' @ s"
    by (cases u) (auto simp: astray_def startsWith_iff)
  then show ?thesis
  proof cases
    case (1 c s)
    then have "c \<noteq> CHR ''?''" "\<not> is_ws c" using price_char_facts [OF 1(2)] by auto
    with 1 show ?thesis by (simp add: seq_ws(1) seq_lit)
  next
    case (2 s)
    then show ?thesis by (simp add: seq_ws(2) seq_lit is_ws_def)
  qed
qed

lemma match_conditional_tier:
  assumes "list_all not_quote l" "body_ok b" "list_all atom_ok as" "as \<noteq> []"
  shows "\<exists>ys. rx_match tierRe (atoms_text as @ '' ? '' @ tier_call l b @ s, []) = (s, [(3, b), (2, l), (1, atoms_text as)]) # ys"
proof -
  let ?t = "'' ? '' @ tier_call l b @ s" and ?cs = "[(1, atoms_text as)]"
  have "after_conditions ?t"
    by (simp add: after_conditions_def and_sep_def seq_nest seq_ws(2) seq_lit is_ws_def cond_char_def is_digit_def)
  then have "rx_match (rseq ([RGroup 1 cond_group, ws_class, lit ''?'', ws_class] @ call_tail)) (atoms_text as @ ?t, [])
      = rx_match (rseq ([ws_class, lit ''?'', ws_class] @ call_tail)) (?t, ?cs)"
    using seq_conditions [OF assms(3,4)] astray_stuck by simp
  also have "\<dots> = rx_match (rseq (ws_class # call_tail)) (CHR '' '' # tier_call l b @ s, ?cs)"
    by (simp add: seq_ws(2) seq_lit is_ws_def)
  also have "\<dots> = rx_match (rseq call_tail) (tier_call l b @ s, ?cs) @ rx_match (rseq call_tail) (CHR '' '' # tier_call l b @ s, ?cs)"
    by (rule seq_ws(2)) (simp_all add: tier_call_def is_ws_def)
  finally show ?thesis
    using match_call [OF assms(1,2), of s ?cs] by (auto simp: tierRe_eq seq_opt seq_nest)
qed

section \<open>All tiers of the expression\<close>

record Segment =
  sg_atoms :: "(string \<times> string \<times> string) list"
  sg_label :: string
  sg_body :: string

definition seg_text :: "Segment \<Rightarrow> string" where
  "seg_text x = (if sg_atoms x = [] then [] else atoms_text (sg_atoms x) @ '' ? '') @ tier_call (sg_label x) (sg_body x)"

definition seg_ok :: "Segment \<Rightarrow> bool" where
  "seg_ok x \<longleftrightarrow> list_all atom_ok (sg_atoms x) \<and> list_all not_quote (sg_label x) \<and> body_ok (sg_body x)"

definition seg_caps :: "Segment \<Rightarrow> captures" where
  "seg_caps x = [(3, sg_body x), (2, sg_label x)] @ (if sg_atoms x = [] then [] else [(1, atoms_text (sg_atoms x))])"

lemma exec_segment:
  assumes "seg_ok x"
  shows "\<exists>pr. exec_from anywhere tierRe prev (seg_text x @ s) = Some (seg_caps x, pr, s)"
proof -
  have "\<exists>ys. rx_match tierRe (seg_text x @ s, []) = (s, seg_caps x) # ys"
    using assms match_tier [of "sg_label x" "sg_body x" s] match_conditional_tier [of "sg_label x" "sg_body x" "sg_atoms x" s]
    by (cases "sg_atoms x = []") (simp_all add: seg_ok_def seg_text_def seg_caps_def)
  then show ?thesis by (auto simp: anywhere_def Let_def)
qed

lemma tierRe_skip: "c \<in> {CHR '' '', CHR '':''} \<Longrightarrow> rx_match tierRe (c # s, []) = []"
  by (auto simp: tierRe_eq call_tail_def cond_group_def cond_atom_def cond_var_def rx_struct seq_lit
      match_rseq(2) [of "RGroup n r" for n r])

lemma exec_separator:
  "exec_from anywhere tierRe prev ('' : '' @ s) = exec_from anywhere tierRe (Some CHR '' '') s"
  by (simp add: exec_from.simps [of _ _ _ "CHR '' '' # t" for t]
      exec_from.simps [of _ _ _ "CHR '':'' # t" for t] anywhere_def tierRe_skip del: exec_from.simps)

lemma exec_none: "exec_from anywhere r p s = None \<longleftrightarrow> exec_from anywhere r q s = None"
proof (induction s arbitrary: p q)
  case Nil
  show ?case by (simp add: anywhere_def split: list.split)
next
  case (Cons c s)
  show ?case
    by (simp add: exec_from.simps [of _ _ _ "c # s"] anywhere_def del: exec_from.simps split: list.split prod.split)
qed

lemma exec_segments:
  assumes t: "exec_from anywhere tierRe None t = None" and "list_all seg_ok xs" "xs \<noteq> []" "length xs \<le> n"
  shows "exec_all n anywhere tierRe prev (join '' : '' (map seg_text xs) @ t) = map seg_caps xs
     \<and> exec_all n anywhere tierRe prev ('' : '' @ join '' : '' (map seg_text xs) @ t) = map seg_caps xs"
  using assms(2-)
proof (induction xs arbitrary: n prev)
  case (Cons x xs)
  obtain k where n: "n = Suc k" "length xs \<le> k" using Cons.prems(3) by (cases n) auto
  have rest: "exec_all k anywhere tierRe pr (if xs = [] then t else '' : '' @ join '' : '' (map seg_text xs) @ t) = map seg_caps xs" for pr
  proof (cases "xs = []")
    case True
    have "exec_from anywhere tierRe pr t = None" using exec_none [of tierRe pr t None] t by simp
    with True show ?thesis by (cases k) simp_all
  next
    case False
    with Cons.IH [of k pr] Cons.prems(1) n(2) show ?thesis by simp
  qed
  have split: "join '' : '' (map seg_text (x # xs)) @ t
      = seg_text x @ (if xs = [] then t else '' : '' @ join '' : '' (map seg_text xs) @ t)"
    by (cases xs) simp_all
  have first: "exec_all n anywhere tierRe pr (join '' : '' (map seg_text (x # xs)) @ t) = map seg_caps (x # xs)" for pr
    using exec_segment [of x pr "if xs = [] then t else '' : '' @ join '' : '' (map seg_text xs) @ t"] rest Cons.prems(1)
    unfolding split n(1) by (auto simp del: exec_from.simps)
  have "exec_all n anywhere tierRe prev ('' : '' @ join '' : '' (map seg_text (x # xs)) @ t) = map seg_caps (x # xs)"
    using first [of "Some CHR '' ''"] unfolding n(1) exec_all.simps exec_separator .
  with first show ?case by blast
qed simp

section \<open>Reading the conditions\<close>

definition cond_of :: "string \<times> string \<times> string \<Rightarrow> TierCondition" where
  "cond_of a = (case a of (v, op, n) \<Rightarrow> \<lparr>tc_var = v, tc_op = op, tc_value = Number_str n\<rparr>)"

lemma parse_atom:
  assumes "atom_ok a"
  shows "parse_condition (atom_text a) = [cond_of a]"
proof -
  obtain v op n where a: "a = (v, op, n)" by (cases a)
  have v: "v \<in> {''p'', ''c'', ''len''}" and op: "op \<in> {''<'', ''<='', ''>'', ''>=''}"
    and n: "n \<noteq> []" "list_all price_char n" using assms by (auto simp: a atom_ok_def cond_text_ok_def)
  obtain d m where dm: "n = d # m" using n(1) by (cases n) auto
  have d: "\<not> is_ws d" using n(2) price_char_facts(3) by (simp add: dm)
  have C: "list_all cond_char n" using n(2) by (rule list.pred_mono_strong) (rule price_char_facts(2))
  have fail: "rx_match (rseq [ws_class, RGroup 3 cond_number]) (CHR ''='' # s, cs) = []"
    "rx_match (rseq [RGroup 3 cond_number]) (CHR '' '' # s, cs) = []" for s cs
    by (simp_all add: seq_ws(1) is_ws_def cond_number_def seq_one RPlus_def cond_char_def is_digit_def)
  have o: "rx_match (rseq [RGroup 2 cond_op, ws_class, RGroup 3 cond_number]) (op @ CHR '' '' # n, cs)
      = rx_match (rseq [RGroup 3 cond_number]) (n, (2, op) # cs)" for cs
    using op d by (elim insertE; simp add: cond_op_def seq_group_alt seq_group_lit fail seq_ws(2) dm)
  have "rx_match cond_pattern (atom_text a, [])
      = rx_match (rseq [ws_class, RGroup 2 cond_op, ws_class, RGroup 3 cond_number]) (CHR '' '' # op @ CHR '' '' # n, [(1, v)])"
    using v by (elim insertE; simp add: a atom_text_def cond_pattern_def cond_var_def seq_group_alt seq_group_lit)
  also have "\<dots> = rx_match (rseq [RGroup 3 (RPlus (RClass cond_char))]) (n, [(2, op), (1, v)])"
    using op_start [OF op]
    by (simp add: seq_ws(2) o) (simp add: cond_number_def cond_op_def seq_group_alt seq_group_lit)
  finally have m: "full_match cond_pattern (atom_text a) = Some [(3, n), (2, op), (1, v)]"
    using n(1) C by (intro full_group_end)
  have "trim (atom_text a) = atom_text a"
  proof (rule trim_ends)
    show "atom_text a \<noteq> []" by (simp add: a atom_text_def)
    show "\<not> is_ws (hd (atom_text a))" using v by (elim insertE; simp add: a atom_text_def is_ws_def)
    show "\<not> is_ws (last (atom_text a))"
      using n price_char_facts(3) [of "last n"] by (simp add: a atom_text_def list_all_iff)
  qed
  then show ?thesis using m by (simp add: parse_condition_def cond_of_def a cap_def)
qed

lemma split_word:
  "list_all (\<lambda>c. \<not> is_ws c \<and> c \<noteq> CHR ''&'') w \<Longrightarrow>
   split_rx (n + length w) and_sep part (w @ s) = split_rx n and_sep (rev w @ part) s"
proof (induction w arbitrary: part)
  case (Cons c w)
  then have "rx_match and_sep (c # w @ s, []) = []" by (simp add: and_sep_def seq_ws(1) seq_lit)
  with Cons show ?case by simp
qed simp

lemma split_gap:
  "\<not> is_ws c \<Longrightarrow> c \<noteq> CHR ''&'' \<Longrightarrow>
   split_rx (Suc n) and_sep part (CHR '' '' # c # s) = split_rx n and_sep (CHR '' '' # part) (c # s)"
  by (simp add: and_sep_def seq_ws(2) seq_lit)

lemma split_and:
  assumes "\<not> is_ws c"
  shows "split_rx (Suc n) and_sep part ('' && '' @ c # s) = rev part # split_rx n and_sep [] (c # s)"
proof -
  have "\<exists>ys. rx_match and_sep ('' && '' @ c # s, []) = (c # s, []) # ys"
    using assms by (simp add: and_sep_def seq_ws(2) seq_lit is_ws_def [of "CHR ''&''"] match_rseq(1))
  then show ?thesis by auto
qed

lemma split_atom:
  assumes "atom_ok a"
  shows "split_rx (n + length (atom_text a)) and_sep [] (atom_text a @ s) = split_rx n and_sep (rev (atom_text a)) s"
proof -
  obtain v op m where a: "a = (v, op, m)" by (cases a)
  have "v \<in> {''p'', ''c'', ''len''}" "op \<in> {''<'', ''<='', ''>'', ''>=''}"
    and mp: "m \<noteq> []" "list_all price_char m" using assms by (auto simp: a atom_ok_def cond_text_ok_def)
  then have v: "list_all (\<lambda>c. \<not> is_ws c \<and> c \<noteq> CHR ''&'') v"
    and op: "op \<noteq> []" "list_all (\<lambda>c. \<not> is_ws c \<and> c \<noteq> CHR ''&'') op"
    by (auto simp: is_ws_def)
  have "\<not> is_ws c \<and> c \<noteq> CHR ''&''" if "price_char c" for c
    using price_char_facts(3,4) [OF that] by auto
  then have m: "m \<noteq> []" "list_all (\<lambda>c. \<not> is_ws c \<and> c \<noteq> CHR ''&'') m"
    using mp by (auto simp: list_all_iff)
  obtain oc os where o: "op = oc # os" using op(1) by (cases op) auto
  obtain mc ms where mm: "m = mc # ms" using m(1) by (cases m) auto
  have len: "n + length (atom_text a) = Suc (Suc (n + length m) + length op) + length v"
    by (simp add: a atom_text_def)
  have "split_rx (n + length (atom_text a)) and_sep [] (atom_text a @ s)
      = split_rx (Suc (Suc (n + length m) + length op)) and_sep (rev v) (CHR '' '' # op @ CHR '' '' # m @ s)"
    unfolding len using split_word [OF v, of "Suc (Suc (n + length m) + length op)" "[]"] by (simp add: a atom_text_def)
  also have "\<dots> = split_rx (Suc (n + length m) + length op) and_sep (CHR '' '' # rev v) (op @ CHR '' '' # m @ s)"
    using op(2) split_gap [of oc] by (simp add: o)
  also have "\<dots> = split_rx (Suc (n + length m)) and_sep (rev op @ CHR '' '' # rev v) (CHR '' '' # m @ s)"
    by (rule split_word [OF op(2)])
  also have "\<dots> = split_rx (n + length m) and_sep (CHR '' '' # rev op @ CHR '' '' # rev v) (m @ s)"
    using m(2) split_gap [of mc] by (simp add: mm)
  also have "\<dots> = split_rx n and_sep (rev (atom_text a)) s"
    by (simp add: split_word [OF m(2)] a atom_text_def)
  finally show ?thesis .
qed

lemma split_atoms:
  "list_all atom_ok (a # as) \<Longrightarrow> length (atoms_text (a # as)) < n \<Longrightarrow>
   split_rx n and_sep [] (atoms_text (a # as)) = map atom_text (a # as)"
proof (induction as arbitrary: a n)
  case Nil
  then obtain k where "n = Suc k + length (atom_text a)"
    by (metis add.commute atoms_text_def join.simps(2) less_imp_Suc_add list.simps(8,9) add_Suc_right)
  moreover have "rx_match and_sep ([], []) = []" by (simp add: and_sep_def seq_ws(1) seq_lit)
  ultimately show ?case using Nil split_atom [of a "Suc k" "[]"] by (simp add: atoms_text_def)
next
  case (Cons b as)
  obtain c s where b: "atom_text b = c # s" "c \<in> {CHR ''p'', CHR ''c'', CHR ''l''}"
    using atom_start [of b] Cons.prems(1) by auto
  have c: "\<not> is_ws c" using b(2) by (auto simp: is_ws_def)
  have t: "atoms_text (a # b # as) = atom_text a @ '' && '' @ atoms_text (b # as)"
    by (simp add: atoms_text_def)
  have bs: "atoms_text (b # as) = c # s @ more_atoms as" by (simp add: atoms_text_Cons b(1))
  obtain k where k: "n = Suc k + length (atom_text a)" "length (atoms_text (b # as)) < k"
    using Cons.prems(2) unfolding t
    by (intro that [of "n - Suc (length (atom_text a))"]) simp_all
  have "split_rx n and_sep [] (atoms_text (a # b # as)) = split_rx (Suc k) and_sep (rev (atom_text a)) ('' && '' @ atoms_text (b # as))"
    unfolding t k(1) by (rule split_atom) (use Cons.prems(1) in simp)
  also have "\<dots> = atom_text a # split_rx k and_sep [] (atoms_text (b # as))"
    unfolding bs using split_and [OF c, of k "rev (atom_text a)" "s @ more_atoms as"] by simp
  finally show ?case using Cons.IH [of b k] Cons.prems(1) k(2) by simp
qed

lemma parse_atoms: "list_all atom_ok as \<Longrightarrow> parse_conditions (atoms_text as) = map cond_of as"
proof (cases as)
  case (Cons a bs)
  assume ok: "list_all atom_ok as"
  have "split_rx (length (atoms_text as) + 1) and_sep [] (atoms_text as) = map atom_text as"
    using split_atoms [of a bs "length (atoms_text as) + 1"] ok Cons by simp
  moreover have "atoms_text as \<noteq> []"
    using atom_start [of a] ok by (auto simp: Cons atoms_text_Cons)
  moreover have "concat (map parse_condition (map atom_text as)) = map cond_of as"
    using ok by (induction as) (simp_all add: parse_atom)
  ultimately show ?thesis by (simp add: parse_conditions_def)
qed (simp add: atoms_text_def parse_conditions_def)

section \<open>Reading the prices\<close>

definition term_text :: "string \<times> string \<Rightarrow> string" where
  "term_text x = (case x of (k, n) \<Rightarrow> k @ '' * '' @ n)"

definition price_keys :: "string list" where
  "price_keys = [''p'', ''c'', ''cr'', ''cc'', ''cc1h'', ''img'', ''img_o'', ''ai'', ''ao'']"

lemma pricing_keys: "map bv_key BILLING_PRICING_VARS = price_keys"
  by code_simp

definition term_ok :: "string \<times> string \<Rightarrow> bool" where
  "term_ok x = (case x of (k, n) \<Rightarrow> k \<in> set price_keys \<and> n \<noteq> [] \<and> list_all price_char n)"

lemma var_regex: "BILLING_VAR_REGEX = rseq [RGroup 1 (ralt (map lit price_keys)), ws_class, lit ''*'', ws_class, RGroup 2 number_text]"
proof -
  have "map (\<lambda>v. lit (bv_key v)) BILLING_PRICING_VARS = map lit (map bv_key BILLING_PRICING_VARS)" by simp
  then show ?thesis by (simp only: BILLING_VAR_REGEX_def pricing_keys)
qed

lemma group_plus_first:
  assumes "x \<noteq> []" "list_all C x" "s = [] \<or> \<not> C (hd s)"
  shows "\<exists>ys. rx_match (rseq [RGroup n (RPlus (RClass C))]) (x @ s, cs) = (s, (n, x) # cs) # ys"
proof -
  obtain us where "tails (singles (tl x)) s = s # us" using first_tail by blast
  then show ?thesis using plus_class [OF assms] by (simp add: seq_one)
qed

lemma match_key:
  assumes "k \<in> set price_keys"
  shows "rx_match BILLING_VAR_REGEX (k @ CHR '' '' # CHR ''*'' # s, cs)
     = rx_match (rseq [ws_class, RGroup 2 number_text]) (s, (1, k) # cs)"
proof -
  let ?rs = "[ws_class, lit ''*'', ws_class, RGroup 2 number_text]"
  have ok: "rx_match (rseq ?rs) (CHR '' '' # CHR ''*'' # s, ds) = rx_match (rseq [ws_class, RGroup 2 number_text]) (s, ds)" for ds
    by (simp add: seq_ws(2) seq_lit is_ws_def)
  have no: "rx_match (rseq ?rs) (c # u, ds) = []" if "is_word c" for c u ds
  proof -
    have "\<not> is_ws c" "c \<noteq> CHR ''*''" using that by (auto simp: is_word_def is_ws_def Let_def)
    then show ?thesis by (simp add: seq_ws(1) seq_lit)
  qed
  have w: "is_word CHR ''r''" "is_word CHR ''c''" "is_word CHR ''1''" "is_word CHR ''_''"
    by (simp_all add: is_word_def)
  have "k = ''p'' \<or> k = ''c'' \<or> k = ''cr'' \<or> k = ''cc'' \<or> k = ''cc1h'' \<or> k = ''img'' \<or> k = ''img_o'' \<or> k = ''ai'' \<or> k = ''ao''"
    using assms by (simp add: price_keys_def)
  then show ?thesis
    unfolding var_regex price_keys_def
    by (elim disjE; simp add: seq_group_alt seq_group_lit ok no w)
qed

lemma match_term:
  assumes "term_ok (k, n)" "s = [] \<or> \<not> num_char (hd s)"
  shows "\<exists>ys. rx_match BILLING_VAR_REGEX (term_text (k, n) @ s, cs) = (s, (2, n) # (1, k) # cs) # ys"
proof -
  have k: "k \<in> set price_keys" and n: "n \<noteq> []" "list_all price_char n" using assms(1) by (auto simp: term_ok_def)
  have C: "list_all num_char n" using n(2) by (rule list.pred_mono_strong) (rule price_char_facts(1))
  have h: "\<not> is_ws (hd (n @ s))" using price_hd [OF n] price_char_facts(3) n(1) by simp
  obtain ys where "rx_match (rseq [RGroup 2 number_text]) (n @ s, (1, k) # cs) = (s, (2, n) # (1, k) # cs) # ys"
    using group_plus_first [OF n(1) C assms(2)] unfolding number_text_def by blast
  then show ?thesis
    using match_key [OF k, of "CHR '' '' # n @ s" cs] h n(1) by (simp add: term_text_def seq_ws(2))
qed

lemma var_skip: "c \<in> {CHR '' '', CHR ''+''} \<Longrightarrow> rx_match BILLING_VAR_REGEX (c # s, []) = []"
  unfolding var_regex price_keys_def by (auto simp: seq_group_alt seq_group_lit)

lemma exec_plus:
  "exec_from word_start BILLING_VAR_REGEX prev ('' + '' @ s) = exec_from word_start BILLING_VAR_REGEX (Some CHR '' '') s"
  by (simp add: exec_from.simps [of _ _ _ "CHR '' '' # t" for t] exec_from.simps [of _ _ _ "CHR ''+'' # t" for t]
      var_skip del: exec_from.simps)

lemma exec_term:
  assumes "term_ok (k, n)" "s = [] \<or> \<not> num_char (hd s)" "word_start prev"
  shows "\<exists>pr. exec_from word_start BILLING_VAR_REGEX prev (term_text (k, n) @ s) = Some ([(2, n), (1, k)], pr, s)"
  using match_term [OF assms(1,2), of "[]"] assms(3) by (auto simp: Let_def)

lemma exec_terms:
  assumes "list_all term_ok ts" "ts \<noteq> []" "length ts \<le> m" "word_start prev"
  shows "exec_all m word_start BILLING_VAR_REGEX prev (join '' + '' (map term_text ts)) = map (\<lambda>(k, n). [(2, n), (1, k)]) ts"
  using assms
proof (induction ts arbitrary: m prev)
  case (Cons x ts)
  obtain k n where x: "x = (k, n)" by (cases x)
  obtain j where m: "m = Suc j" "length ts \<le> j" using Cons.prems(3) by (cases m) auto
  let ?r = "if ts = [] then [] else '' + '' @ join '' + '' (map term_text ts)"
  have split: "join '' + '' (map term_text (x # ts)) = term_text (k, n) @ ?r" by (cases ts) (simp_all add: x)
  have sep: "?r = [] \<or> \<not> num_char (hd ?r)" by simp
  obtain pr where first: "exec_from word_start BILLING_VAR_REGEX prev (term_text (k, n) @ ?r) = Some ([(2, n), (1, k)], pr, ?r)"
    using exec_term [OF _ sep Cons.prems(4), of k n] Cons.prems(1) x by auto
  have "exec_all j word_start BILLING_VAR_REGEX pr ?r = map (\<lambda>(k, n). [(2, n), (1, k)]) ts"
  proof (cases "ts = []")
    case True
    have "rx_match BILLING_VAR_REGEX ([], []) = []"
      unfolding var_regex price_keys_def by (simp add: seq_group_alt seq_group_lit)
    then show ?thesis using True by (cases j) simp_all
  next
    case False
    then obtain i where j: "j = Suc i" using m(2) by (cases j) auto
    have "exec_all j word_start BILLING_VAR_REGEX (Some CHR '' '') (join '' + '' (map term_text ts)) = map (\<lambda>(k, n). [(2, n), (1, k)]) ts"
      using Cons.prems(1) by (intro Cons.IH False m(2)) (simp_all add: word_start_def is_word_def)
    then show ?thesis using False unfolding j by (simp only: exec_all.simps exec_plus if_False)
  qed
  then show ?case unfolding split m(1) exec_all.simps first by (simp add: x)
qed simp

lemma coefficients:
  "distinct (map fst (cs @ map (\<lambda>(k, n). (k, Number_str n)) ts)) \<Longrightarrow>
   foldl add_coeff cs (map (\<lambda>(k, n). [(2, n), (1, k)]) ts) = cs @ map (\<lambda>(k, n). (k, Number_str n)) ts"
proof (induction ts arbitrary: cs)
  case (Cons x ts)
  obtain k n where x: "x = (k, n)" by (cases x)
  have "map_of cs k = None" using Cons.prems by (auto simp: x map_of_eq_None_iff)
  then have "add_coeff cs [(2, n), (1, k)] = cs @ [(k, Number_str n)]" by (simp add: add_coeff_def cap_def)
  with Cons.IH [of "cs @ [(k, Number_str n)]"] Cons.prems show ?case by (simp add: x)
qed simp

lemma parse_body:
  assumes "list_all term_ok ts" "ts \<noteq> []" "distinct (map fst ts)"
  shows "parseTierBody (join '' + '' (map term_text ts)) =
     map (\<lambda>(v, fld). (fld, num_or_zero (map_option Number_str (map_of ts v)))) BILLING_VAR_KEY_TO_FIELD"
proof -
  let ?b = "join '' + '' (map term_text ts)"
  have "length ts \<le> length ?b"
    by (induction ts rule: induct_list012) (auto simp: term_text_def split: prod.splits)
  then have e: "exec_all (length ?b) word_start BILLING_VAR_REGEX None ?b = map (\<lambda>(k, n). [(2, n), (1, k)]) ts"
    by (intro exec_terms assms(1,2)) (simp_all add: word_start_def)
  have "map fst (map (\<lambda>(k, n). (k, Number_str n)) ts) = map fst ts" by auto
  then have d: "distinct (map fst ([] @ map (\<lambda>(k, n). (k, Number_str n)) ts))"
    using assms(3) by (simp only: append_Nil)
  have c: "foldl add_coeff [] (map (\<lambda>(k, n). [(2, n), (1, k)]) ts) = map (\<lambda>(k, n). (k, Number_str n)) ts"
    using coefficients [OF d] by (simp only: append_Nil)
  have "map_of (map (\<lambda>(k, n). (k, Number_str n)) ts) v = map_option Number_str (map_of ts v)" for v
    by (induction ts) auto
  then show ?thesis unfolding parseTierBody_def e c Let_def by simp
qed

end
