(* ===== verification/Billing_Tier_Show.thy ===== *)
theory Billing_Tier_Show
  imports Billing_Tier_Laws
begin

text \<open>
  The visual editor and the price table agree: \<^verbatim>\<open>parseTiersFromExpr\<close> of \<^verbatim>\<open>billing-expr.ts\<close> reads from the
  expression that \<^verbatim>\<open>generateExprFromVisualConfig\<close> of \<^verbatim>\<open>tier-expr.ts\<close> writes the labels, conditions and
  prices of the configuration.
\<close>

section \<open>Configurations\<close>

definition cost_ok :: "jsnum \<Rightarrow> bool" where
  "cost_ok n = (case n of Fin q \<Rightarrow> price_ok q | _ \<Rightarrow> False)"

definition input_ok :: "TierConditionInput \<Rightarrow> bool" where
  "input_ok c \<longleftrightarrow> in_var c \<in> {''p'', ''c'', ''len''} \<and> in_op c \<in> {''<'', ''<='', ''>'', ''>=''}
     \<and> (case in_value c of JNum n \<Rightarrow> cost_ok n | _ \<Rightarrow> False)"

definition cost_fields :: "string list" where
  "cost_fields = map (\<lambda>v. the (bv_tierField v)) BILLING_PRICING_VARS"

definition tier_ok :: "VisualTier \<Rightarrow> bool" where
  "tier_ok t \<longleftrightarrow> list_all not_quote (vt_label t) \<and> list_all input_ok (vt_conditions t)
     \<and> list_all (\<lambda>f. case tier_field t f of Some n \<Rightarrow> cost_ok n | None \<Rightarrow> False) cost_fields"

text \<open>What the price table shows of a tier.\<close>

definition shown_condition :: "TierConditionInput \<Rightarrow> TierCondition" where
  "shown_condition c =
     \<lparr>tc_var = in_var c, tc_op = in_op c, tc_value = (case in_value c of JNum n \<Rightarrow> n | _ \<Rightarrow> NaN)\<rparr>"

definition shown_tier :: "string \<Rightarrow> TierConditionInput list \<Rightarrow> VisualTier \<Rightarrow> ParsedTier" where
  "shown_tier label conditions t =
     \<lparr>pt_label = label, pt_conditions = map shown_condition conditions,
      pt_prices = map (\<lambda>v. (the (bv_field v), the (tier_field t (the (bv_tierField v))))) BILLING_PRICING_VARS\<rparr>"

text \<open>The last of several tiers is the one that applies otherwise: its conditions are not written.\<close>

fun shown_from :: "nat \<Rightarrow> VisualTier list \<Rightarrow> ParsedTier list" where
  "shown_from i [] = []"
| "shown_from i (t # ts) =
     shown_tier (or_default (vt_label t) (''tier_'' @ nat_str (i + 1))) (if ts = [] then [] else vt_conditions t) t
     # shown_from (i + 1) ts"

fun shown_tiers :: "VisualTier list \<Rightarrow> ParsedTier list" where
  "shown_tiers [t] = [shown_tier (or_default (vt_label t) ''default'') (vt_conditions t) t]"
| "shown_tiers ts = shown_from 0 ts"

section \<open>Conditions\<close>

definition atom_of :: "TierConditionInput \<Rightarrow> string \<times> string \<times> string" where
  "atom_of c = (in_var c, in_op c, to_str (in_value c))"

lemma input_value:
  assumes "input_ok c"
  obtains q where "in_value c = JNum (Fin q)" "price_ok q"
  using assms by (auto simp: input_ok_def cost_ok_def split: jsval.splits jsnum.splits)

lemma atom_of_input:
  assumes "input_ok c"
  shows "atom_ok (atom_of c)" "cond_of (atom_of c) = shown_condition c" "condition_complete c"
    "condition_text c = atom_text (atom_of c)"
proof -
  obtain q where q: "in_value c = JNum (Fin q)" "price_ok q" by (rule input_value [OF assms])
  have vo: "in_var c \<in> {''p'', ''c'', ''len''}" "in_op c \<in> {''<'', ''<='', ''>'', ''>=''}"
    using assms by (simp_all add: input_ok_def)
  then show "atom_ok (atom_of c)"
    using price_text [OF q(2)] by (simp add: atom_ok_def atom_of_def cond_text_ok_def q)
  show "cond_of (atom_of c) = shown_condition c"
    using price_text(3) [OF q(2)] by (simp add: cond_of_def atom_of_def shown_condition_def q)
  show "condition_complete c" using vo by (auto simp: condition_complete_def q)
  show "condition_text c = atom_text (atom_of c)" by (simp add: condition_text_def atom_text_def atom_of_def)
qed

lemma inputs:
  assumes "list_all input_ok cs"
  shows "buildConditionStr cs = atoms_text (map atom_of cs)" "list_all atom_ok (map atom_of cs)"
    "map cond_of (map atom_of cs) = map shown_condition cs" "buildConditionStr cs = [] \<longleftrightarrow> cs = []"
proof -
  have "filter condition_complete cs = cs" "map condition_text cs = map atom_text (map atom_of cs)"
    using assms atom_of_input(3,4) by (simp_all add: list_all_iff)
  then show b: "buildConditionStr cs = atoms_text (map atom_of cs)"
    unfolding buildConditionStr_def atoms_text_def by (simp only: Let_def) (cases cs; simp)
  show ok: "list_all atom_ok (map atom_of cs)" "map cond_of (map atom_of cs) = map shown_condition cs"
    using assms atom_of_input(1,2) by (auto simp: list_all_iff)
  show "buildConditionStr cs = [] \<longleftrightarrow> cs = []"
  proof (cases cs)
    case (Cons c ds)
    then obtain a s where "atom_text (atom_of c) = a # s" using atom_start [of "atom_of c"] ok(1) by auto
    then have "atoms_text (map atom_of cs) \<noteq> []" using Cons by (cases ds) (simp_all add: atoms_text_def)
    then show ?thesis using Cons b by simp
  qed (simp add: buildConditionStr_def)
qed

section \<open>Prices\<close>

definition cost :: "VisualTier \<Rightarrow> string \<Rightarrow> num" where
  "cost t f = (case tier_field t f of Some (Fin q) \<Rightarrow> q | _ \<Rightarrow> 0)"

lemma tier_cost:
  assumes "tier_ok t" "f \<in> set cost_fields"
  shows "tier_field t f = Some (Fin (cost t f))" "price_ok (cost t f)"
proof -
  have "case tier_field t f of Some n \<Rightarrow> cost_ok n | None \<Rightarrow> False"
    using assms by (simp add: tier_ok_def list_all_iff)
  then obtain q where "tier_field t f = Some (Fin q)" "price_ok q"
    by (auto simp: cost_ok_def split: option.splits jsnum.splits)
  then show "tier_field t f = Some (Fin (cost t f))" "price_ok (cost t f)" by (simp_all add: cost_def)
qed

definition chosen :: "(string \<Rightarrow> bool) \<Rightarrow> (string \<Rightarrow> string) \<Rightarrow> (string \<times> string) list \<Rightarrow> (string \<times> string) list" where
  "chosen P g m = concat (map (\<lambda>(f, v). if P f then [(v, g f)] else []) m)"

lemma chosen_simps [simp]:
  "chosen P g [] = []" "chosen P g ((f, v) # m) = (if P f then [(v, g f)] else []) @ chosen P g m"
  by (simp_all add: chosen_def)

lemma chosen_keys: "fst ` set (chosen P g m) \<subseteq> snd ` set m"
  by (force simp: chosen_def split: if_splits)

lemma chosen_distinct: "distinct (map snd m) \<Longrightarrow> distinct (map fst (chosen P g m))"
proof (induction m)
  case (Cons a m)
  obtain f v where a: "a = (f, v)" by (cases a)
  have "v \<notin> fst ` set (chosen P g m)" using chosen_keys [of P g m] Cons.prems by (auto simp: a)
  then show ?case using Cons by (simp add: a)
qed simp

lemma chosen_lookup:
  "distinct (map snd m) \<Longrightarrow> (f, v) \<in> set m \<Longrightarrow> map_of (chosen P g m) v = (if P f then Some (g f) else None)"
proof (induction m)
  case (Cons a m)
  obtain f' v' where a: "a = (f', v')" by (cases a)
  have "map_of (chosen P g m) v' = None"
    using chosen_keys [of P g m] Cons.prems(1) by (auto simp: a map_of_eq_None_iff)
  then show ?case using Cons by (force simp: a map_add_def)
qed simp

definition terms :: "VisualTier \<Rightarrow> (string \<times> string) list" where
  "terms t = [(''p'', num_str (cost t ''input_unit_cost'')), (''c'', num_str (cost t ''output_unit_cost''))]
     @ chosen (\<lambda>f. cost t f \<noteq> 0) (\<lambda>f. num_str (cost t f)) BILLING_CACHE_VAR_MAP"

lemma cache_map: "BILLING_CACHE_VAR_MAP =
   [(''cache_read_unit_cost'', ''cr''), (''cache_create_unit_cost'', ''cc''), (''cache_create_1h_unit_cost'', ''cc1h''),
    (''image_unit_cost'', ''img''), (''image_output_unit_cost'', ''img_o''), (''audio_input_unit_cost'', ''ai''),
    (''audio_output_unit_cost'', ''ao'')]"
  by code_simp

lemma fields_eq: "cost_fields = [''input_unit_cost'', ''output_unit_cost''] @ map fst BILLING_CACHE_VAR_MAP"
  by code_simp

lemma num_or_zero_Fin [simp]: "num_or_zero (Some (Fin q)) = Fin q" "num_or_zero None = Fin 0"
  by (simp_all add: num_or_zero_def)

lemma base_field: "tier_field t ''input_unit_cost'' = Some (input_unit_cost t)"
  "tier_field t ''output_unit_cost'' = Some (output_unit_cost t)"
  by (simp_all add: tier_field_def)

lemma body_terms:
  assumes "tier_ok t"
  shows "buildTierBodyExpr t = join '' + '' (map term_text (terms t))"
proof -
  have base: "input_unit_cost t = Fin (cost t ''input_unit_cost'')" "output_unit_cost t = Fin (cost t ''output_unit_cost'')"
    using tier_cost(1) [OF assms, of "''input_unit_cost''"] tier_cost(1) [OF assms, of "''output_unit_cost''"]
    by (simp_all add: fields_eq base_field)
  have extra: "concat (map (\<lambda>(fld, exprVar). let v = num_or_zero (tier_field t fld) in if v \<noteq> Fin 0 then [price_term exprVar v] else []) m)
      = map term_text (chosen (\<lambda>f. cost t f \<noteq> 0) (\<lambda>f. num_str (cost t f)) m)"
    if "set (map fst m) \<subseteq> set cost_fields" for m
    using that tier_cost(1) [OF assms]
    by (induction m) (auto simp: Let_def term_text_def price_term_def)
  have "set (map fst BILLING_CACHE_VAR_MAP) \<subseteq> set cost_fields" by (auto simp: fields_eq)
  from extra [OF this] show ?thesis
    by (simp add: buildTierBodyExpr_def terms_def base term_text_def price_term_def)
qed

lemma terms_ok:
  assumes "tier_ok t"
  shows "list_all term_ok (terms t)" "distinct (map fst (terms t))" "terms t \<noteq> []"
proof -
  have p: "num_str (cost t f) \<noteq> [] \<and> list_all price_char (num_str (cost t f))" if "f \<in> set cost_fields" for f
    using price_text(1,2) [OF tier_cost(2) [OF assms that]] by blast
  show "list_all term_ok (terms t)"
    using p by (simp add: terms_def term_ok_def cache_map price_keys_def fields_eq)
  have "''p'' \<notin> snd ` set BILLING_CACHE_VAR_MAP" "''c'' \<notin> snd ` set BILLING_CACHE_VAR_MAP"
    "distinct (map snd BILLING_CACHE_VAR_MAP)"
    by (simp_all add: cache_map)
  with chosen_keys [of "\<lambda>f. cost t f \<noteq> 0" "\<lambda>f. num_str (cost t f)" BILLING_CACHE_VAR_MAP] chosen_distinct
  show "distinct (map fst (terms t))"
    unfolding terms_def by (simp del: chosen_simps) blast
  show "terms t \<noteq> []" by (simp add: terms_def)
qed

text \<open>The variables with the price field of the tier each of them carries.\<close>

definition priced :: "(string \<times> string) list" where
  "priced = [(''input_unit_cost'', ''p''), (''output_unit_cost'', ''c'')] @ BILLING_CACHE_VAR_MAP"

lemma pricing_priced:
  "v \<in> set BILLING_PRICING_VARS \<Longrightarrow> (the (bv_tierField v), bv_key v) \<in> set priced"
proof -
  have "list_all (\<lambda>v. (the (bv_tierField v), bv_key v) \<in> set priced) BILLING_PRICING_VARS" by code_simp
  then show "v \<in> set BILLING_PRICING_VARS \<Longrightarrow> ?thesis" by (simp add: list_all_iff)
qed

lemma term_price:
  assumes "tier_ok t" "(f, v) \<in> set priced"
  shows "num_or_zero (map_option Number_str (map_of (terms t) v)) = Fin (cost t f)"
proof -
  have num: "Number_str (num_str (cost t f)) = Fin (cost t f)" if "f \<in> set cost_fields"
    using price_text(3) [OF tier_cost(2) [OF assms(1) that]] .
  have f: "f \<in> set cost_fields" using assms(2) by (force simp: priced_def fields_eq)
  consider "f = ''input_unit_cost''" "v = ''p''" | "f = ''output_unit_cost''" "v = ''c''" | "(f, v) \<in> set BILLING_CACHE_VAR_MAP"
    using assms(2) by (auto simp: priced_def)
  then show ?thesis
  proof cases
    case 3
    have "v \<noteq> ''p''" "v \<noteq> ''c''" "distinct (map snd BILLING_CACHE_VAR_MAP)" using 3 by (auto simp: cache_map)
    then have "map_of (terms t) v = (if cost t f \<noteq> 0 then Some (num_str (cost t f)) else None)"
      using chosen_lookup [OF _ 3, of "\<lambda>f. cost t f \<noteq> 0" "\<lambda>f. num_str (cost t f)"] by (simp add: terms_def)
    then show ?thesis using num [OF f] by simp
  qed (use num [OF f] in \<open>simp_all add: terms_def\<close>)
qed

lemma prices_shown:
  assumes "tier_ok t"
  shows "parseTierBody (buildTierBodyExpr t) = pt_prices (shown_tier l cs t)"
proof -
  have "num_or_zero (map_option Number_str (map_of (terms t) (bv_key v))) = the (tier_field t (the (bv_tierField v)))"
    if "v \<in> set BILLING_PRICING_VARS" for v
  proof -
    have "the (bv_tierField v) \<in> set cost_fields" using that by (simp add: cost_fields_def)
    then show ?thesis using term_price [OF assms pricing_priced [OF that]] tier_cost(1) [OF assms] by simp
  qed
  then show ?thesis
    unfolding body_terms [OF assms] parse_body [OF terms_ok(1,3,2) [OF assms]] BILLING_VAR_KEY_TO_FIELD_def
    by (simp add: shown_tier_def)
qed

lemma body_plain:
  assumes "tier_ok t"
  shows "body_ok (buildTierBodyExpr t)"
proof -
  have one: "CHR '')'' \<notin> set (term_text x)" if "term_ok x" for x
    using that price_char_facts(1) [of "CHR '')''"]
    by (cases x) (auto simp: term_ok_def term_text_def list_all_iff price_keys_def num_char_def is_digit_def)
  have "CHR '')'' \<notin> set (join '' + '' (map term_text ts))" if "list_all term_ok ts" for ts
    using that
  proof (induction ts)
    case (Cons x ts)
    then show ?case using one by (cases ts) simp_all
  qed simp
  from this [OF terms_ok(1) [OF assms]] show ?thesis
    unfolding body_terms [OF assms] body_ok_def
    by (cases "chosen (\<lambda>f. cost t f \<noteq> 0) (\<lambda>f. num_str (cost t f)) BILLING_CACHE_VAR_MAP")
      (simp_all add: terms_def term_text_def is_ws_def)
qed

section \<open>Tiers\<close>

definition segment :: "string \<Rightarrow> TierConditionInput list \<Rightarrow> VisualTier \<Rightarrow> Segment" where
  "segment l cs t = \<lparr>sg_atoms = map atom_of cs, sg_label = l, sg_body = buildTierBodyExpr t\<rparr>"

lemma segment:
  assumes "tier_ok t" "list_all not_quote l" "list_all input_ok cs"
  shows "seg_ok (segment l cs t)" "parsed_tier (seg_caps (segment l cs t)) = shown_tier l cs t"
    "seg_text (segment l cs t) =
      (if buildConditionStr cs \<noteq> [] then buildConditionStr cs @ '' ? '' @ tier_text l t else tier_text l t)"
proof -
  note i = inputs [OF assms(3)]
  show "seg_ok (segment l cs t)"
    using assms i(2) body_plain by (simp add: seg_ok_def segment_def)
  have "parse_conditions (cap (seg_caps (segment l cs t)) 1) = map shown_condition cs"
    using parse_atoms [OF i(2)] i(3) by (cases cs) (simp_all add: seg_caps_def segment_def cap_def parse_conditions_def)
  moreover have "pt_prices (shown_tier l cs t) = parseTierBody (cap (seg_caps (segment l cs t)) 3)"
    using prices_shown [OF assms(1), of l cs] by (simp add: seg_caps_def segment_def cap_def)
  ultimately show "parsed_tier (seg_caps (segment l cs t)) = shown_tier l cs t"
    by (simp add: parsed_tier_def seg_caps_def segment_def cap_def shown_tier_def)
  show "seg_text (segment l cs t) =
      (if buildConditionStr cs \<noteq> [] then buildConditionStr cs @ '' ? '' @ tier_text l t else tier_text l t)"
    unfolding i(4) by (simp add: seg_text_def segment_def i(1) tier_call_def tier_text_def)
qed

fun tier_segments :: "nat \<Rightarrow> VisualTier list \<Rightarrow> Segment list" where
  "tier_segments i [] = []"
| "tier_segments i (t # ts) =
     segment (or_default (vt_label t) (''tier_'' @ nat_str (i + 1))) (if ts = [] then [] else vt_conditions t) t
     # tier_segments (i + 1) ts"

lemma default_label:
  "list_all not_quote l \<Longrightarrow> list_all not_quote (or_default l (''tier_'' @ nat_str n))"
  "list_all not_quote l \<Longrightarrow> list_all not_quote (or_default l ''default'')"
proof -
  have "not_quote c" if "is_digit c" for c using that by (auto simp: not_quote_def quote_def is_digit_def)
  with nat_str_digits [of n] have "list_all not_quote (nat_str n)" by (rule list.pred_mono_strong)
  then show "list_all not_quote l \<Longrightarrow> list_all not_quote (or_default l (''tier_'' @ nat_str n))"
    "list_all not_quote l \<Longrightarrow> list_all not_quote (or_default l ''default'')"
    by (simp_all add: or_default_def not_quote_def quote_def)
qed

lemma segments_ok:
  "list_all tier_ok ts \<Longrightarrow> list_all seg_ok (tier_segments i ts) \<and> map seg_text (tier_segments i ts) = tier_parts i ts
     \<and> map parsed_tier (map seg_caps (tier_segments i ts)) = shown_from i ts"
proof (induction ts arbitrary: i)
  case (Cons t ts)
  let ?l = "or_default (vt_label t) (''tier_'' @ nat_str (i + 1))" and ?cs = "if ts = [] then [] else vt_conditions t"
  have "tier_ok t" "list_all not_quote ?l" "list_all input_ok ?cs"
    using Cons.prems default_label(1) [of "vt_label t" "i + 1"] by (simp_all add: tier_ok_def)
  note s = segment [OF this]
  show ?case
    using Cons.IH [of "i + 1"] Cons.prems s by (simp add: Let_def buildConditionStr_def [of "[]"])
qed simp

lemma seg_text_start:
  assumes "seg_ok x"
  obtains c s where "seg_text x = c # s" "c \<noteq> CHR ''v''"
proof (cases "sg_atoms x")
  case Nil
  then show ?thesis using that by (simp add: seg_text_def tier_call_def)
next
  case (Cons a as)
  then obtain v op n where a: "a = (v, op, n)" "v \<in> {''p'', ''c'', ''len''}"
    using assms by (cases a) (auto simp: seg_ok_def atom_ok_def cond_text_ok_def)
  then show ?thesis using that Cons by (auto simp: seg_text_def atoms_text_Cons atom_text_def)
qed

lemma strip_plain: "c \<noteq> CHR ''v'' \<Longrightarrow> ev_body (stripExprVersion (c # s)) = c # s"
  by (simp add: stripExprVersion_def full_match_def seq_lit)

lemma read_segments:
  assumes "exec_from anywhere tierRe None t = None" "list_all seg_ok xs" "xs \<noteq> []"
  shows "parseTiersFromExpr (join '' : '' (map seg_text xs) @ t) = map parsed_tier (map seg_caps xs)"
proof -
  let ?e = "join '' : '' (map seg_text xs) @ t"
  obtain x ys where x: "xs = x # ys" using assms(3) by (cases xs) auto
  obtain c s where "seg_text x = c # s" "c \<noteq> CHR ''v''" using seg_text_start assms(2) x by auto
  then obtain u where e: "?e = c # u" "c \<noteq> CHR ''v''" unfolding x by (cases ys) auto
  have "length ys \<le> length (join '' : '' (map seg_text ys))" for ys :: "Segment list"
  proof (induction ys)
    case (Cons y ys)
    then show ?case by (cases ys) (simp_all add: seg_text_def tier_call_def)
  qed simp
  then have "length xs \<le> length ?e" by (simp add: trans_le_add1)
  from exec_segments [OF assms this] show ?thesis
    using strip_plain [OF e(2)] unfolding e(1) by (simp add: parseTiersFromExpr_def)
qed

lemma generated_read:
  assumes "list_all tier_ok tiers"
  shows "parseTiersFromExpr (generateExprFromVisualConfig (Some tiers)) = shown_tiers tiers"
proof (cases tiers rule: remdups_adj.cases)
  case (2 t)
  have "tier_ok t" "list_all not_quote (or_default (vt_label t) ''default'')" "list_all input_ok (vt_conditions t)"
    using assms 2 default_label(2) by (simp_all add: tier_ok_def)
  note s = segment [OF this]
  have "exec_from anywhere tierRe None t = None" if "t \<in> {[], '' : p * 0 + c * 0''}" for t
    using that by (elim insertE; (simp only:)?; code_simp)
  note r = read_segments [OF this, of _ "[segment (or_default (vt_label t) ''default'') (vt_conditions t) t]"]
  show ?thesis
    using s r [of "[]"] r [of "'' : p * 0 + c * 0''"]
    by (cases "buildConditionStr (vt_conditions t) = []")
      (simp_all add: 2 generateExprFromVisualConfig_def Let_def)
next
  case 1
  have "parseTiersFromExpr ''p * 0 + c * 0'' = []" by code_simp
  then show ?thesis by (simp add: 1 generateExprFromVisualConfig_def)
next
  case (3 a b ts)
  have "exec_from anywhere tierRe None [] = None" by code_simp
  note r = read_segments [OF this, of "tier_segments 0 tiers"]
  have "generateExprFromVisualConfig (Some tiers) = join '' : '' (tier_parts 0 tiers)"
    "shown_tiers tiers = shown_from 0 tiers" "tier_segments 0 tiers \<noteq> []"
    by (simp_all add: 3 generateExprFromVisualConfig_def)
  with r segments_ok [OF assms, of 0] show ?thesis by (simp only: append_Nil2 simp_thms)
qed


definition sample_tiers :: "VisualTier list" where
  "sample_tiers =
     [\<lparr>vt_label = ''short'', vt_conditions = [\<lparr>in_var = ''len'', in_op = ''<'', in_value = JNum (Fin 200)\<rparr>],
       input_unit_cost = Fin (5/2), output_unit_cost = Fin 15, cache_mode = CACHE_MODE_GENERIC,
       cache_read_unit_cost = Fin (1/4), cache_create_unit_cost = Fin 0, cache_create_1h_unit_cost = Fin 0,
       image_unit_cost = Fin 0, image_output_unit_cost = Fin 0, audio_input_unit_cost = Fin 0, audio_output_unit_cost = Fin 0\<rparr>,
      \<lparr>vt_label = [], vt_conditions = [],
       input_unit_cost = Fin 5, output_unit_cost = Fin 30, cache_mode = CACHE_MODE_GENERIC,
       cache_read_unit_cost = Fin 0, cache_create_unit_cost = Fin 0, cache_create_1h_unit_cost = Fin 0,
       image_unit_cost = Fin 0, image_output_unit_cost = Fin 0, audio_input_unit_cost = Fin 0, audio_output_unit_cost = Fin 0\<rparr>]"

lemma sample_prices: "list_all price_ok [0, 5, 15, 30, 200, 5/2, 1/4]"
  by code_simp

lemma sample_tiers_ok: "list_all tier_ok sample_tiers"
  using sample_prices
  by (simp add: sample_tiers_def tier_ok_def input_ok_def cost_ok_def fields_eq cache_map tier_field_def
      not_quote_def quote_def)


end
