(* ===== verification/Billing_Estimate.thy ===== *)
theory Billing_Estimate
  imports Billing_Tiers
begin

text \<open>
  The cost estimate of the visual editor, \<^verbatim>\<open>evalExprLocally\<close> of \<^verbatim>\<open>tier-expr.ts\<close>.  It hands the text of the
  expression to the \<^verbatim>\<open>Function\<close> constructor of the language.  The part of the expression language in which
  billing expressions are written is modelled: decimal literals, the variables of the environment, calls of
  \<^verbatim>\<open>tier\<close> with a literal label, \<^verbatim>\<open>*\<close>, \<^verbatim>\<open>+\<close>, the comparisons, \<^verbatim>\<open>&&\<close>, the conditional and parentheses.  A text outside it
  is evaluated by a parameter, the \<^verbatim>\<open>host\<close>.
\<close>

section \<open>Arithmetic\<close>

fun js_plus :: "jsnum \<Rightarrow> jsnum \<Rightarrow> jsnum" where
  "js_plus (Fin a) (Fin b) = Fin (a + b)"
| "js_plus NaN b = NaN"
| "js_plus a NaN = NaN"
| "js_plus PosInf NegInf = NaN"
| "js_plus NegInf PosInf = NaN"
| "js_plus (Fin a) b = b"
| "js_plus a b = a"

definition inf_times :: "bool \<Rightarrow> jsnum \<Rightarrow> jsnum" where
  "inf_times neg b =
     (case b of
        NaN \<Rightarrow> NaN
      | PosInf \<Rightarrow> if neg then NegInf else PosInf
      | NegInf \<Rightarrow> if neg then PosInf else NegInf
      | Fin q \<Rightarrow> if q = 0 then NaN else if (q < 0) = neg then PosInf else NegInf)"

fun js_times :: "jsnum \<Rightarrow> jsnum \<Rightarrow> jsnum" where
  "js_times (Fin a) (Fin b) = Fin (a * b)"
| "js_times NaN b = NaN"
| "js_times PosInf b = inf_times False b"
| "js_times NegInf b = inf_times True b"
| "js_times (Fin a) b = (case b of PosInf \<Rightarrow> inf_times False (Fin a) | NegInf \<Rightarrow> inf_times True (Fin a) | x \<Rightarrow> NaN)"

fun js_less :: "jsnum \<Rightarrow> jsnum \<Rightarrow> bool" where
  "js_less (Fin a) (Fin b) = (a < b)"
| "js_less NaN b = False"
| "js_less a NaN = False"
| "js_less NegInf b = (b \<noteq> NegInf)"
| "js_less a PosInf = (a \<noteq> PosInf)"
| "js_less a b = False"

definition js_less_eq :: "jsnum \<Rightarrow> jsnum \<Rightarrow> bool" where
  "js_less_eq a b \<longleftrightarrow> js_less a b \<or> a = b \<and> a \<noteq> NaN"

definition compare_nums :: "string \<Rightarrow> jsnum \<Rightarrow> jsnum \<Rightarrow> bool" where
  "compare_nums op a b =
     (if op = ''<'' then js_less a b else if op = ''<='' then js_less_eq a b
      else if op = ''>'' then js_less b a else js_less_eq b a)"

section \<open>Tokens\<close>

datatype token = T_num string | T_id string | T_str string | T_rel string
  | T_lpar | T_rpar | T_comma | T_quest | T_colon | T_star | T_plus | T_and

definition id_start :: "char \<Rightarrow> bool" where
  "id_start c \<longleftrightarrow> 65 \<le> (of_char c :: nat) \<and> of_char c \<le> (90 :: nat)
     \<or> 97 \<le> (of_char c :: nat) \<and> of_char c \<le> (122 :: nat) \<or> c = CHR ''_'' \<or> c = CHR ''$''"

definition id_char :: "char \<Rightarrow> bool" where
  "id_char c \<longleftrightarrow> id_start c \<or> is_digit c"

text \<open>A numeric literal extends over every following letter, digit and point; it is one when all of it is a decimal.\<close>

definition numeral_char :: "char \<Rightarrow> bool" where
  "numeral_char c \<longleftrightarrow> id_char c \<or> c = CHR ''.''"

text \<open>Characters of a string literal that stand for themselves.\<close>

definition plain_char :: "char \<Rightarrow> bool" where
  "plain_char c \<longleftrightarrow> not_quote c \<and> c \<notin> {CHR 0x5C, CHR 0x0A, CHR 0x0D}"

definition punctuator :: "string \<Rightarrow> (token \<times> string) option" where
  "punctuator s =
     (case s of
        [] \<Rightarrow> None
      | c # r \<Rightarrow>
          if c = CHR ''('' then Some (T_lpar, r) else if c = CHR '')'' then Some (T_rpar, r)
          else if c = CHR '','' then Some (T_comma, r) else if c = CHR ''?'' then Some (T_quest, r)
          else if c = CHR '':'' then Some (T_colon, r) else if c = CHR ''*'' then Some (T_star, r)
          else if c = CHR ''+'' then Some (T_plus, r)
          else if startsWith s ''&&'' then Some (T_and, tl r)
          else if startsWith s ''<='' then Some (T_rel ''<='', tl r)
          else if startsWith s ''>='' then Some (T_rel ''>='', tl r)
          else if c = CHR ''<'' then Some (T_rel ''<'', r) else if c = CHR ''>'' then Some (T_rel ''>'', r)
          else None)"

lemma punctuator_shorter: "punctuator s = Some (t, r) \<Longrightarrow> length r < length s"
  by (auto simp: punctuator_def split: list.splits if_splits)

function tokens :: "string \<Rightarrow> token list option" where
  "tokens [] = Some []"
| "tokens (c # s) =
     (if is_ws c then tokens s
      else if id_start c
        then map_option (Cons (T_id (takeWhile id_char (c # s)))) (tokens (dropWhile id_char s))
      else if is_digit c
        then (let w = takeWhile numeral_char (c # s) in
              if lex_number w = Some (w, []) then map_option (Cons (T_num w)) (tokens (dropWhile numeral_char s))
              else None)
      else if c = quote
        then (let w = takeWhile plain_char s in
              case dropWhile plain_char s of
                q # r \<Rightarrow> if q = quote then map_option (Cons (T_str w)) (tokens r) else None
              | [] \<Rightarrow> None)
      else (case punctuator (c # s) of
              Some (t, r) \<Rightarrow> map_option (Cons t) (tokens r)
            | None \<Rightarrow> None))"
  by pat_completeness auto
termination
proof (relation "measure length")
  fix c q :: char and s r w
  assume "dropWhile plain_char s = q # r"
  then have "length (q # r) \<le> length s" by (metis length_dropWhile_le)
  then show "(r, c # s) \<in> measure length" by simp
qed (auto simp: le_imp_less_Suc length_dropWhile_le dest: punctuator_shorter)

declare tokens.simps(2) [simp del]

section \<open>Expressions\<close>

datatype jsexpr = J_num jsnum | J_var string | J_tier string jsexpr | J_prod "jsexpr list" | J_sum "jsexpr list"
  | J_rel string jsexpr jsexpr | J_and "jsexpr list" | J_cond jsexpr jsexpr jsexpr

text \<open>What follows a token, and a comparison with what follows it.\<close>

definition after :: "token \<Rightarrow> token list \<Rightarrow> token list option" where
  "after t ts = (case ts of u # r \<Rightarrow> if u = t then Some r else None | [] \<Rightarrow> None)"

fun after_rel :: "token list \<Rightarrow> (string \<times> token list) option" where
  "after_rel (T_rel op # r) = Some (op, r)"
| "after_rel ts = None"

fun tier_label :: "token list \<Rightarrow> (string \<times> token list) option" where
  "tier_label (T_lpar # T_str l # T_comma # r) = Some (l, r)"
| "tier_label ts = None"

definition closed :: "(jsexpr \<times> token list) option \<Rightarrow> (jsexpr \<times> token list) option" where
  "closed x = Option.bind x (\<lambda>(e, r). map_option (Pair e) (after T_rpar r))"

function (sequential) p_cond :: "string list \<Rightarrow> nat \<Rightarrow> token list \<Rightarrow> (jsexpr \<times> token list) option"
and p_and :: "string list \<Rightarrow> nat \<Rightarrow> token list \<Rightarrow> (jsexpr list \<times> token list) option"
and p_rel :: "string list \<Rightarrow> nat \<Rightarrow> token list \<Rightarrow> (jsexpr \<times> token list) option"
and p_sum :: "string list \<Rightarrow> nat \<Rightarrow> token list \<Rightarrow> (jsexpr list \<times> token list) option"
and p_prod :: "string list \<Rightarrow> nat \<Rightarrow> token list \<Rightarrow> (jsexpr list \<times> token list) option"
and p_prim :: "string list \<Rightarrow> nat \<Rightarrow> token list \<Rightarrow> (jsexpr \<times> token list) option" where
  "p_cond vars 0 ts = None"
| "p_cond vars (Suc n) ts =
     (case p_and vars n ts of
        None \<Rightarrow> None
      | Some (es, r) \<Rightarrow>
          (case after T_quest r of
             None \<Rightarrow> Some (J_and es, r)
           | Some r1 \<Rightarrow>
               (case p_cond vars n r1 of
                  None \<Rightarrow> None
                | Some (a, r2) \<Rightarrow>
                    (case after T_colon r2 of
                       None \<Rightarrow> None
                     | Some r3 \<Rightarrow> map_option (apfst (J_cond (J_and es) a)) (p_cond vars n r3)))))"
| "p_and vars 0 ts = None"
| "p_and vars (Suc n) ts =
     (case p_rel vars n ts of
        None \<Rightarrow> None
      | Some (e, r) \<Rightarrow>
          (case after T_and r of
             None \<Rightarrow> Some ([e], r)
           | Some r1 \<Rightarrow> map_option (apfst (Cons e)) (p_and vars n r1)))"
| "p_rel vars 0 ts = None"
| "p_rel vars (Suc n) ts =
     (case p_sum vars n ts of
        None \<Rightarrow> None
      | Some (es, r) \<Rightarrow>
          (case after_rel r of
             None \<Rightarrow> Some (J_sum es, r)
           | Some (op, r1) \<Rightarrow> map_option (apfst (\<lambda>fs. J_rel op (J_sum es) (J_sum fs))) (p_sum vars n r1)))"
| "p_sum vars 0 ts = None"
| "p_sum vars (Suc n) ts =
     (case p_prod vars n ts of
        None \<Rightarrow> None
      | Some (es, r) \<Rightarrow>
          (case after T_plus r of
             None \<Rightarrow> Some ([J_prod es], r)
           | Some r1 \<Rightarrow> map_option (apfst (Cons (J_prod es))) (p_sum vars n r1)))"
| "p_prod vars 0 ts = None"
| "p_prod vars (Suc n) ts =
     (case p_prim vars n ts of
        None \<Rightarrow> None
      | Some (e, r) \<Rightarrow>
          (case after T_star r of
             None \<Rightarrow> Some ([e], r)
           | Some r1 \<Rightarrow> map_option (apfst (Cons e)) (p_prod vars n r1)))"
| "p_prim vars 0 ts = None"
| "p_prim vars (Suc n) ts =
     (case ts of
        T_num w # r \<Rightarrow> Some (J_num (Number_str w), r)
      | T_lpar # r \<Rightarrow> closed (p_cond vars n r)
      | T_id v # r \<Rightarrow>
          if v \<in> set vars then Some (J_var v, r)
          else if v \<noteq> ''tier'' then None
          else
            (case tier_label r of
               None \<Rightarrow> None
             | Some (l, r1) \<Rightarrow> map_option (apfst (J_tier l)) (closed (p_cond vars n r1)))
      | _ \<Rightarrow> None)"
  by pat_completeness auto
termination
  by (relation "measure (let f = \<lambda>(vars, n, ts). n in case_sum (case_sum f (case_sum f f)) (case_sum f (case_sum f f)))")
    (simp_all add: Let_def)

text \<open>
  At most six calls lead from one token to the next. That the fuel is enough is part of \<open>parse_chain\<close> for the generated
  texts; a text on which it ran out would be left to the host.
\<close>

definition parse_js :: "string list \<Rightarrow> string \<Rightarrow> jsexpr option" where
  "parse_js vars s =
     (case tokens s of
        None \<Rightarrow> None
      | Some ts \<Rightarrow> (case p_cond vars (7 * length ts + 7) ts of Some (e, []) \<Rightarrow> Some e | _ \<Rightarrow> None))"

section \<open>Evaluation\<close>

datatype jsresult = V_num jsnum | V_bool bool

fun result_truthy :: "jsresult \<Rightarrow> bool" where
  "result_truthy (V_num n) = jsnum_truthy n"
| "result_truthy (V_bool b) = b"

fun as_num :: "jsresult \<Rightarrow> jsnum option" where
  "as_num (V_num n) = Some n"
| "as_num (V_bool b) = None"

text \<open>A chain of one operator, applied from the left; a single operand is the value itself.\<close>

fun chain :: "(jsnum \<Rightarrow> jsnum \<Rightarrow> jsnum) \<Rightarrow> jsresult list \<Rightarrow> jsresult option" where
  "chain f [] = None"
| "chain f [v] = Some v"
| "chain f (v # w # vs) =
     (case (as_num v, as_num w) of (Some a, Some b) \<Rightarrow> chain f (V_num (f a b) # vs) | _ \<Rightarrow> None)"

text \<open>The second component is the label the last call of \<^verbatim>\<open>tier\<close> recorded.\<close>

function (sequential) eval_js :: "(string \<Rightarrow> jsnum option) \<Rightarrow> jsexpr \<Rightarrow> string \<Rightarrow> (jsresult \<times> string) option"
and eval_operands :: "(string \<Rightarrow> jsnum option) \<Rightarrow> jsexpr list \<Rightarrow> string \<Rightarrow> (jsresult list \<times> string) option"
and eval_and :: "(string \<Rightarrow> jsnum option) \<Rightarrow> jsexpr list \<Rightarrow> string \<Rightarrow> (jsresult \<times> string) option" where
  "eval_js env (J_num n) m = Some (V_num n, m)"
| "eval_js env (J_var v) m = map_option (\<lambda>n. (V_num n, m)) (env v)"
| "eval_js env (J_tier l e) m = map_option (\<lambda>(v, m'). (v, l)) (eval_js env e m)"
| "eval_js env (J_prod es) m =
     (case eval_operands env es m of
        None \<Rightarrow> None | Some (vs, m') \<Rightarrow> map_option (\<lambda>v. (v, m')) (chain js_times vs))"
| "eval_js env (J_sum es) m =
     (case eval_operands env es m of
        None \<Rightarrow> None | Some (vs, m') \<Rightarrow> map_option (\<lambda>v. (v, m')) (chain js_plus vs))"
| "eval_js env (J_rel op a b) m =
     (case eval_js env a m of
        None \<Rightarrow> None
      | Some (x, m') \<Rightarrow>
          (case eval_js env b m' of
             None \<Rightarrow> None
           | Some (y, m'') \<Rightarrow>
               (case (as_num x, as_num y) of
                  (Some x', Some y') \<Rightarrow> Some (V_bool (compare_nums op x' y'), m'')
                | _ \<Rightarrow> None)))"
| "eval_js env (J_and es) m = eval_and env es m"
| "eval_js env (J_cond c a b) m =
     (case eval_js env c m of
        None \<Rightarrow> None
      | Some (v, m') \<Rightarrow> if result_truthy v then eval_js env a m' else eval_js env b m')"
| "eval_operands env [] m = Some ([], m)"
| "eval_operands env (e # es) m =
     (case eval_js env e m of
        None \<Rightarrow> None
      | Some (v, m') \<Rightarrow> map_option (apfst (Cons v)) (eval_operands env es m'))"
| "eval_and env [] m = None"
| "eval_and env (e # es) m =
     (case eval_js env e m of
        None \<Rightarrow> None
      | Some (v, m') \<Rightarrow> if es \<noteq> [] \<and> result_truthy v then eval_and env es m' else Some (v, m'))"
  by pat_completeness auto
termination
  by (relation "measure (case_sum (\<lambda>(env, e, m). size e)
        (case_sum (\<lambda>(env, es, m). size_list size es) (\<lambda>(env, es, m). size_list size es)))") auto

section \<open>The estimate\<close>

datatype EnvValue = E_num jsnum | E_tier | E_math string

datatype thrown = Thrown_Error string | Thrown_value jsval

fun thrown_message :: "thrown \<Rightarrow> string" where
  "thrown_message (Thrown_Error message) = message"
| "thrown_message (Thrown_value v) = to_str v"

record EvalResult =
  er_cost :: jsnum
  er_matchedTier :: string
  er_error :: "string option"

type_synonym host = "string \<Rightarrow> (string \<times> EnvValue) list \<Rightarrow> thrown + jsval \<times> string"

definition env_num :: "(string \<times> EnvValue) list \<Rightarrow> string \<Rightarrow> jsnum option" where
  "env_num env v = (case map_of env v of Some (E_num n) \<Rightarrow> Some n | _ \<Rightarrow> None)"

fun result_value :: "jsresult \<Rightarrow> jsval" where
  "result_value (V_num n) = JNum n"
| "result_value (V_bool b) = JBool b"

text \<open>The call of the function made of the text: its value and the recorded label.\<close>

definition run_function :: "host \<Rightarrow> (string \<times> EnvValue) list \<Rightarrow> string \<Rightarrow> thrown + jsval \<times> string" where
  "run_function host env exprStr =
     (let vars = filter (\<lambda>v. env_num env v \<noteq> None) (map fst env) in
      case parse_js vars exprStr of
        None \<Rightarrow> host exprStr env
      | Some e \<Rightarrow>
          (case eval_js (env_num env) e [] of
             Some (v, label) \<Rightarrow> Inr (result_value v, label)
           | None \<Rightarrow> host exprStr env))"

definition estimate_env :: "jsnum \<Rightarrow> jsnum \<Rightarrow> (string \<times> jsnum) list \<Rightarrow> (string \<times> EnvValue) list" where
  "estimate_env promptTokens completionTokens extraTokenValues =
     (let cacheReadTokens = num_or_zero (map_of extraTokenValues ''cacheReadTokens'');
          cacheCreateTokens = num_or_zero (map_of extraTokenValues ''cacheCreateTokens'');
          cacheCreate1hTokens = num_or_zero (map_of extraTokenValues ''cacheCreate1hTokens'');
          len = js_plus (js_plus (js_plus promptTokens cacheReadTokens) cacheCreateTokens) cacheCreate1hTokens in
      [(''p'', E_num promptTokens), (''c'', E_num completionTokens), (''len'', E_num len), (''tier'', E_tier)]
      @ map (\<lambda>f. (f, E_math f)) [''max'', ''min'', ''abs'', ''ceil'', ''floor'']
      @ map (\<lambda>(v, stateKey). (v, E_num (num_or_zero (map_of extraTokenValues stateKey)))) ESTIMATOR_VARS)"

definition evalExprLocally :: "host \<Rightarrow> string \<Rightarrow> jsnum \<Rightarrow> jsnum \<Rightarrow> (string \<times> jsnum) list \<Rightarrow> EvalResult" where
  "evalExprLocally host exprStr promptTokens completionTokens extraTokenValues =
     (if exprStr = [] \<or> trim exprStr = [] then \<lparr>er_cost = Fin 0, er_matchedTier = [], er_error = None\<rparr>
      else
        (case run_function host (estimate_env promptTokens completionTokens extraTokenValues) exprStr of
           Inr (v, matchedTier) \<Rightarrow>
             \<lparr>er_cost = num_or_zero (Some (Number v)), er_matchedTier = matchedTier, er_error = None\<rparr>
         | Inl e \<Rightarrow> \<lparr>er_cost = Fin 0, er_matchedTier = [], er_error = Some (thrown_message e)\<rparr>))"

end
