(* ===== verification/Billing_Estimate_Laws.thy ===== *)
theory Billing_Estimate_Laws
  imports Billing_Tier_Show Billing_Estimate
begin

text \<open>
  The estimate of a generated expression: its tokens, the expression they form, its value, and that it is the price
  of the first tier of the price table whose conditions hold.
\<close>

section \<open>Tokens of the generated text\<close>

text \<open>The tokens of a text in front of any other, and in front of one that does not continue its last token.\<close>

definition lexes_any :: "string \<Rightarrow> token list \<Rightarrow> bool" where
  "lexes_any u ts \<longleftrightarrow> (\<forall>s. tokens (u @ s) = map_option ((@) ts) (tokens s))"

definition stops :: "string \<Rightarrow> bool" where
  "stops s \<longleftrightarrow> s = [] \<or> \<not> numeral_char (hd s)"

definition lexes :: "string \<Rightarrow> token list \<Rightarrow> bool" where
  "lexes u ts \<longleftrightarrow> (\<forall>s. stops s \<longrightarrow> tokens (u @ s) = map_option ((@) ts) (tokens s))"

lemma lexes_anyD: "lexes_any u ts \<Longrightarrow> lexes u ts"
  by (simp add: lexes_any_def lexes_def)

lemma map_option_append: "map_option ((@) ts) (map_option ((@) us) x) = map_option ((@) (ts @ us)) x"
  by (cases x) simp_all

lemma any_any: "lexes_any u ts \<Longrightarrow> lexes_any v us \<Longrightarrow> lexes_any (u @ v) (ts @ us)"
  by (simp add: lexes_any_def map_option_append)

lemma any_lexes: "lexes_any u ts \<Longrightarrow> lexes v us \<Longrightarrow> lexes (u @ v) (ts @ us)"
  by (simp add: lexes_any_def lexes_def map_option_append)

lemma lexes_any_after: "lexes u ts \<Longrightarrow> lexes_any v us \<Longrightarrow> v \<noteq> [] \<Longrightarrow> stops v \<Longrightarrow> lexes_any (u @ v) (ts @ us)"
  by (auto simp: lexes_any_def lexes_def map_option_append stops_def)

lemma lexes_lexes: "lexes u ts \<Longrightarrow> lexes v us \<Longrightarrow> v \<noteq> [] \<Longrightarrow> stops v \<Longrightarrow> lexes (u @ v) (ts @ us)"
  by (auto simp: lexes_def map_option_append stops_def)

lemma lexes_tokens: "lexes u ts \<Longrightarrow> tokens u = Some ts"
  by (auto simp: lexes_def stops_def dest: spec [of _ "[]"])

lemma punct_any:
  "lexes_any '' '' []" "lexes_any ''('' [T_lpar]" "lexes_any '')'' [T_rpar]" "lexes_any '','' [T_comma]"
  "lexes_any ''?'' [T_quest]" "lexes_any '':'' [T_colon]" "lexes_any ''*'' [T_star]" "lexes_any ''+'' [T_plus]"
  "lexes_any ''&&'' [T_and]" "lexes_any ''<='' [T_rel ''<='']" "lexes_any ''>='' [T_rel ''>='']"
  by (simp_all add: lexes_any_def tokens.simps(2) is_ws_def id_start_def is_digit_def quote_def punctuator_def
      map_option_case option.map_id0 fun_eq_iff split: option.split)

lemma op_any: "op \<in> {''<'', ''<='', ''>'', ''>=''} \<Longrightarrow> lexes_any ('' '' @ op @ '' '') [T_rel op]"
  by (elim insertE; simp add: lexes_any_def tokens.simps(2) is_ws_def id_start_def is_digit_def quote_def punctuator_def
      map_option_case split: option.split)

lemma spaced_any: "lexes_any u [t] \<Longrightarrow> lexes_any ('' '' @ u @ '' '') [t]"
  using any_any [OF punct_any(1) any_any [OF _ punct_any(1)], of u "[t]"] by simp

lemma id_start_char: "id_start c \<Longrightarrow> \<not> is_ws c" "id_start c \<Longrightarrow> id_char c" "id_char c \<Longrightarrow> numeral_char c"
  by (auto simp: id_start_def is_ws_def id_char_def numeral_char_def)

lemma lexes_id:
  assumes "w = c # v" "id_start c" "list_all id_char v"
  shows "lexes w [T_id w]"
proof -
  have "takeWhile id_char (w @ s) = w \<and> dropWhile id_char (v @ s) = s" if "stops s" for s
  proof -
    have "takeWhile id_char s = [] \<and> dropWhile id_char s = s"
      using that id_start_char(3) by (cases s) (auto simp: stops_def)
    then show ?thesis using assms id_start_char(2) by (simp add: list_all_iff)
  qed
  then show ?thesis using assms(2) id_start_char(1)
    by (auto simp: lexes_def assms(1) tokens.simps(2) map_option_case split: option.split)
qed

lemma var_lexes: "v \<in> {''p'', ''c'', ''len''} \<union> set price_keys \<union> {''tier''} \<Longrightarrow> lexes v [T_id v]"
  unfolding price_keys_def
  by (simp, elim disjE; simp, rule lexes_id [OF refl]; simp add: id_start_def id_char_def is_digit_def)

text \<open>The text of a decimal.\<close>

definition text_num :: "string \<Rightarrow> num" where
  "text_num w = (case Number_str w of Fin q \<Rightarrow> q | _ \<Rightarrow> 0)"

definition num_text :: "string \<Rightarrow> bool" where
  "num_text w \<longleftrightarrow> w \<noteq> [] \<and> list_all price_char w \<and> lex_number w = Some (w, []) \<and> Number_str w = Fin (text_num w)"

lemma lexes_num:
  assumes "num_text w"
  shows "lexes w [T_num w]"
proof -
  obtain c v where w: "w = c # v" "is_digit c \<or> c = CHR ''-''"
    using assms by (auto simp: num_text_def elim: lex_number_start)
  then have c: "is_digit c" using assms by (auto simp: num_text_def price_char_def)
  have lit: "numeral_char d" if "d \<in> set w" for d
    using assms that by (auto simp: num_text_def list_all_iff price_char_def numeral_char_def id_char_def)
  have "takeWhile numeral_char (w @ s) = w \<and> dropWhile numeral_char (v @ s) = s" if "stops s" for s
  proof -
    have "takeWhile numeral_char s = [] \<and> dropWhile numeral_char s = s" using that by (cases s) (auto simp: stops_def)
    then show ?thesis using lit w(1) by simp
  qed
  moreover have "\<not> is_ws c" "\<not> id_start c" using c is_digit_not_ws by (auto simp: is_digit_def id_start_def Let_def)
  ultimately show ?thesis using c assms
    by (auto simp: lexes_def w(1) tokens.simps(2) Let_def num_text_def map_option_case split: option.split)
qed

lemma str_any:
  assumes "list_all plain_char l"
  shows "lexes_any (quote # l @ [quote]) [T_str l]"
proof -
  have q: "\<not> plain_char quote" by (simp add: plain_char_def not_quote_def)
  have "takeWhile plain_char (l @ quote # s) = l \<and> dropWhile plain_char (l @ quote # s) = quote # s" for s
    using assms q by (simp add: list_all_iff)
  moreover have "\<not> is_ws quote" "\<not> id_start quote" "\<not> is_digit quote"
    by (simp_all add: quote_def is_ws_def id_start_def is_digit_def)
  ultimately show ?thesis by (auto simp: lexes_any_def tokens.simps(2) Let_def map_option_case split: option.split)
qed

text \<open>Lists of parts between separators.\<close>

fun join_tokens :: "token \<Rightarrow> token list list \<Rightarrow> token list" where
  "join_tokens t [] = []"
| "join_tokens t [x] = x"
| "join_tokens t (x # y # xs) = x @ t # join_tokens t (y # xs)"

lemma lexes_join:
  assumes "lexes_any sep [t]" "sep \<noteq> []" "stops sep" "xs \<noteq> []" "list_all (\<lambda>x. lexes (f x) (g x)) xs"
  shows "lexes (join sep (map f xs)) (join_tokens t (map g xs))"
  using assms(4,5)
proof (induction xs rule: induct_list012)
  case (3 x y xs)
  then have "lexes (sep @ join sep (map f (y # xs))) ([t] @ join_tokens t (map g (y # xs)))"
    by (intro any_lexes [OF assms(1)]) simp
  moreover have "stops (sep @ join sep (map f (y # xs)))" using assms(2,3) by (simp add: stops_def)
  ultimately show ?case using lexes_lexes [of "f x" "g x"] 3(4) assms(2) by simp
qed simp_all

definition atom_tokens :: "string \<times> string \<times> string \<Rightarrow> token list" where
  "atom_tokens a = (case a of (v, op, n) \<Rightarrow> [T_id v, T_rel op, T_num n])"

definition term_tokens :: "string \<times> string \<Rightarrow> token list" where
  "term_tokens x = (case x of (k, n) \<Rightarrow> [T_id k, T_star, T_num n])"

definition atom_plain :: "string \<times> string \<times> string \<Rightarrow> bool" where
  "atom_plain a = (case a of (v, op, n) \<Rightarrow>
     v \<in> {''p'', ''c'', ''len''} \<and> op \<in> {''<'', ''<='', ''>'', ''>=''} \<and> num_text n)"

definition term_plain :: "string \<times> string \<Rightarrow> bool" where
  "term_plain x = (case x of (k, n) \<Rightarrow> k \<in> set price_keys \<and> num_text n)"

lemma space_stops: "stops (CHR '' '' # s)"
  by (simp add: stops_def numeral_char_def id_char_def id_start_def is_digit_def)

lemma lexes_spaced: "lexes u ts \<Longrightarrow> lexes_any ('' '' @ x) us \<Longrightarrow> lexes v vs \<Longrightarrow> lexes (u @ ('' '' @ x) @ v) (ts @ us @ vs)"
  using lexes_lexes [OF _ any_lexes, of u ts "'' '' @ x" us v vs] by (simp add: space_stops)

lemma lexes_atom: "atom_plain a \<Longrightarrow> lexes (atom_text a) (atom_tokens a)"
proof -
  obtain v op n where a: "a = (v, op, n)" by (cases a)
  assume "atom_plain a"
  then have "v \<in> {''p'', ''c'', ''len''} \<union> set price_keys \<union> {''tier''}" "op \<in> {''<'', ''<='', ''>'', ''>=''}" "num_text n"
    by (auto simp: a atom_plain_def)
  from lexes_spaced [OF var_lexes [OF this(1)] op_any [OF this(2)] lexes_num [OF this(3)]] show ?thesis
    by (simp add: a atom_text_def atom_tokens_def)
qed

lemma lexes_term: "term_plain x \<Longrightarrow> lexes (term_text x) (term_tokens x)"
  using lexes_spaced [OF var_lexes spaced_any [OF punct_any(7)] lexes_num]
  by (cases x) (simp add: term_plain_def term_text_def term_tokens_def)

text \<open>A tier with its conditions, label and terms.\<close>

type_synonym part = "(string \<times> string \<times> string) list \<times> string \<times> (string \<times> string) list"

definition call_tokens :: "string \<Rightarrow> (string \<times> string) list \<Rightarrow> token list" where
  "call_tokens l ts = [T_id ''tier'', T_lpar, T_str l, T_comma] @ join_tokens T_plus (map term_tokens ts) @ [T_rpar]"

definition terms_text :: "(string \<times> string) list \<Rightarrow> string" where
  "terms_text ts = join '' + '' (map term_text ts)"

lemma lexes_terms:
  assumes "list_all term_plain ts" "ts \<noteq> []"
  shows "lexes (terms_text ts) (join_tokens T_plus (map term_tokens ts))"
  unfolding terms_text_def
  using assms lexes_term spaced_any [OF punct_any(8)]
  by (intro lexes_join) (auto simp: space_stops list_all_iff)

lemma lexes_call:
  assumes "list_all plain_char l" "list_all term_plain ts" "ts \<noteq> []"
  shows "lexes_any (tier_call l (terms_text ts)) (call_tokens l ts)"
proof -
  have "lexes (''tier'') [T_id ''tier'']" by (rule var_lexes) simp
  moreover have "lexes_any (''('' @ (quote # l @ [quote]) @ '','' @ '' '') ([T_lpar] @ [T_str l] @ [T_comma] @ [])"
    by (intro any_any punct_any str_any assms(1))
  moreover have "lexes_any (terms_text ts @ '')'') (join_tokens T_plus (map term_tokens ts) @ [T_rpar])"
    by (intro lexes_any_after lexes_terms assms(2,3) punct_any)
      (simp_all add: stops_def numeral_char_def id_char_def id_start_def is_digit_def)
  ultimately have "lexes_any (''tier'' @ (''('' @ (quote # l @ [quote]) @ '','' @ '' '') @ terms_text ts @ '')'')
      ([T_id ''tier''] @ ([T_lpar] @ [T_str l] @ [T_comma] @ []) @ join_tokens T_plus (map term_tokens ts) @ [T_rpar])"
    by (rule lexes_any_after [OF _ any_any])
      (simp_all add: stops_def numeral_char_def id_char_def id_start_def is_digit_def)
  then show ?thesis by (simp add: tier_call_def call_tokens_def)
qed

definition part_text :: "part \<Rightarrow> string" where
  "part_text x = (case x of (as, l, ts) \<Rightarrow> atoms_text as @ '' ? '' @ tier_call l (terms_text ts))"

definition part_tokens :: "part \<Rightarrow> token list" where
  "part_tokens x = (case x of (as, l, ts) \<Rightarrow> join_tokens T_and (map atom_tokens as) @ T_quest # call_tokens l ts)"

definition part_plain :: "part \<Rightarrow> bool" where
  "part_plain x = (case x of (as, l, ts) \<Rightarrow>
     list_all atom_plain as \<and> as \<noteq> [] \<and> list_all plain_char l \<and> list_all term_plain ts \<and> ts \<noteq> [])"

lemma lexes_part:
  assumes "part_plain x"
  shows "lexes_any (part_text x) (part_tokens x)"
proof -
  obtain as l ts where x: "x = (as, l, ts)" by (cases x)
  have "lexes (atoms_text as) (join_tokens T_and (map atom_tokens as))"
    unfolding atoms_text_def using assms lexes_atom spaced_any [OF punct_any(9)]
    by (intro lexes_join) (auto simp: space_stops list_all_iff x part_plain_def)
  moreover have "lexes_any ('' ? '' @ tier_call l (terms_text ts)) ([T_quest] @ call_tokens l ts)"
    using assms spaced_any [OF punct_any(5)] by (intro any_any lexes_call) (auto simp: x part_plain_def)
  ultimately show ?thesis
    using lexes_any_after by (fastforce simp: x part_text_def part_tokens_def space_stops)
qed

text \<open>Conditional parts in front of an alternative.\<close>

definition chain_text :: "part list \<Rightarrow> string \<Rightarrow> string" where
  "chain_text xs s = concat (map (\<lambda>x. part_text x @ '' : '') xs) @ s"

definition chain_tokens :: "part list \<Rightarrow> token list \<Rightarrow> token list" where
  "chain_tokens xs ts = concat (map (\<lambda>x. part_tokens x @ [T_colon]) xs) @ ts"

lemma lexes_chain: "list_all part_plain xs \<Longrightarrow> lexes s ts \<Longrightarrow> lexes (chain_text xs s) (chain_tokens xs ts)"
proof (induction xs)
  case (Cons x xs)
  have "lexes_any (part_text x @ '' : '') (part_tokens x @ [T_colon])"
    using any_any [OF lexes_part spaced_any [OF punct_any(6)]] Cons.prems(1) by simp
  from any_lexes [OF this Cons.IH] Cons.prems show ?case by (simp add: chain_text_def chain_tokens_def)
qed (simp add: chain_text_def chain_tokens_def)

section \<open>The expression they form\<close>

definition term_expr :: "string \<times> string \<Rightarrow> jsexpr" where
  "term_expr x = (case x of (k, n) \<Rightarrow> J_prod [J_var k, J_num (Number_str n)])"

definition atom_expr :: "string \<times> string \<times> string \<Rightarrow> jsexpr" where
  "atom_expr a = (case a of (v, op, n) \<Rightarrow> J_rel op (J_sum [J_prod [J_var v]]) (J_sum [J_prod [J_num (Number_str n)]]))"

definition terms_expr :: "(string \<times> string) list \<Rightarrow> jsexpr" where
  "terms_expr ts = J_and [J_sum (map term_expr ts)]"

definition call_expr :: "string \<Rightarrow> (string \<times> string) list \<Rightarrow> jsexpr" where
  "call_expr l ts = J_and [J_sum [J_prod [J_tier l (terms_expr ts)]]]"

fun chain_expr :: "part list \<Rightarrow> jsexpr \<Rightarrow> jsexpr" where
  "chain_expr [] e = e"
| "chain_expr ((as, l, ts) # xs) e = J_cond (J_and (map atom_expr as)) (call_expr l ts) (chain_expr xs e)"

text \<open>What may follow a complete expression.\<close>

definition ends :: "token list \<Rightarrow> bool" where
  "ends r \<longleftrightarrow> r = [] \<or> hd r \<in> {T_rpar, T_colon}"

lemma after_simps [simp]: "after t [] = None" "after t (u # r) = (if u = t then Some r else None)"
  by (simp_all add: after_def)

lemma ends_after:
  assumes "ends r"
  shows "after T_star r = None" "after T_plus r = None" "after T_and r = None" "after T_quest r = None" "after_rel r = None"
  using assms by (cases r; auto simp: ends_def)+

lemma p_term:
  assumes "fst x \<in> set vars" "3 \<le> n" "after T_star r = None"
  shows "p_prod vars n (term_tokens x @ r) = Some ([J_var (fst x), J_num (Number_str (snd x))], r)"
proof -
  obtain m where "n = Suc (Suc (Suc m))" using assms(2) by (auto simp: numeral_3_eq_3 le_iff_add)
  then show ?thesis using assms by (cases x) (simp add: term_tokens_def)
qed

lemma p_terms:
  assumes "ts \<noteq> []" "list_all (\<lambda>x. fst x \<in> set vars) ts" "length ts + 3 \<le> n" "after T_star r = None" "after T_plus r = None"
  shows "p_sum vars n (join_tokens T_plus (map term_tokens ts) @ r) = Some (map term_expr ts, r)"
  using assms(1-3)
proof (induction ts arbitrary: n rule: induct_list012)
  case (2 x)
  then obtain m where "n = Suc m" "3 \<le> m" by (cases n) auto
  then show ?case using p_term [of x vars m r] 2 assms(4,5) by (simp add: term_expr_def split: prod.split)
next
  case (3 x y ts)
  then obtain m where m: "n = Suc m" "length (y # ts) + 3 \<le> m" by (cases n) auto
  then show ?case
    using p_term [of x vars m "T_plus # join_tokens T_plus (map term_tokens (y # ts)) @ r"] 3
    by (simp add: term_expr_def split: prod.split)
qed simp

lemma p_body:
  assumes "ts \<noteq> []" "list_all (\<lambda>x. fst x \<in> set vars) ts" "length ts + 6 \<le> n" "ends r"
  shows "p_cond vars n (join_tokens T_plus (map term_tokens ts) @ r) = Some (terms_expr ts, r)"
proof -
  obtain m where m: "n = Suc (Suc (Suc m))" "length ts + 3 \<le> m"
    using assms(3) by (cases n; cases "n - 1"; cases "n - 2") auto
  from p_terms [OF assms(1,2) m(2) ends_after(1,2) [OF assms(4)]] show ?thesis
    by (simp add: m(1) ends_after [OF assms(4)] terms_expr_def)
qed

lemma p_call:
  assumes "ts \<noteq> []" "list_all (\<lambda>x. fst x \<in> set vars) ts" "length ts + 12 \<le> n" "ends r" "''tier'' \<notin> set vars"
  shows "p_cond vars n (call_tokens l ts @ r) = Some (call_expr l ts, r)"
proof -
  define m where "m = n - 6"
  then have n: "n = Suc (Suc (Suc (Suc (Suc (Suc m)))))" "length ts + 6 \<le> m" using assms(3) by simp_all
  have "p_cond vars m (join_tokens T_plus (map term_tokens ts) @ T_rpar # r) = Some (terms_expr ts, T_rpar # r)"
    using p_body [OF assms(1,2) n(2), of "T_rpar # r"] by (simp add: ends_def)
  then show ?thesis
    using assms(5) by (simp add: n(1) call_tokens_def call_expr_def closed_def ends_after [OF assms(4)])
qed

lemma p_atom:
  assumes "fst a \<in> set vars" "4 \<le> n" "r = T_and # r' \<or> r = T_quest # r'"
  shows "p_rel vars n (atom_tokens a @ r) = Some (atom_expr a, r)"
proof -
  define m where "m = n - 4"
  then have n: "n = Suc (Suc (Suc (Suc m)))" using assms(2) by simp
  show ?thesis using assms(1,3) by (cases a) (auto simp: n atom_tokens_def atom_expr_def)
qed

lemma p_atoms:
  assumes "as \<noteq> []" "list_all (\<lambda>a. fst a \<in> set vars) as" "length as + 4 \<le> n"
  shows "p_and vars n (join_tokens T_and (map atom_tokens as) @ T_quest # r) = Some (map atom_expr as, T_quest # r)"
  using assms
proof (induction as arbitrary: n rule: induct_list012)
  case (2 a)
  then obtain m where "n = Suc m" "4 \<le> m" by (cases n) auto
  then show ?case using p_atom [of a vars m "T_quest # r"] 2 by simp
next
  case (3 a b as)
  then obtain m where m: "n = Suc m" "length (b # as) + 4 \<le> m" by (cases n) auto
  then show ?case
    using p_atom [of a vars m "T_and # join_tokens T_and (map atom_tokens (b # as)) @ T_quest # r"] 3 by simp
qed simp

definition part_known :: "string list \<Rightarrow> part \<Rightarrow> bool" where
  "part_known vars x = (case x of (as, l, ts) \<Rightarrow>
     as \<noteq> [] \<and> ts \<noteq> [] \<and> list_all (\<lambda>a. fst a \<in> set vars) as \<and> list_all (\<lambda>x. fst x \<in> set vars) ts)"

lemma join_tokens_length: "length xs \<le> length (join_tokens t (map f xs)) + 1"
  by (induction xs rule: induct_list012) simp_all

lemma terms_length: "length ts \<le> length (join_tokens T_plus (map term_tokens ts))"
  by (induction ts rule: induct_list012) (auto simp: term_tokens_def split: prod.split)

lemma p_chain:
  assumes "list_all (part_known vars) xs" "''tier'' \<notin> set vars" "length (chain_tokens xs f) + 13 \<le> n"
    "\<And>m. length f + 13 \<le> m \<Longrightarrow> p_cond vars m f = Some (e, [])"
  shows "p_cond vars n (chain_tokens xs f) = Some (chain_expr xs e, [])"
  using assms(1,3)
proof (induction xs arbitrary: n)
  case Nil
  then show ?case using assms(4) by (simp add: chain_tokens_def)
next
  case (Cons x xs)
  obtain as l ts where x: "x = (as, l, ts)" by (cases x)
  have eq: "chain_tokens (x # xs) f
      = join_tokens T_and (map atom_tokens as) @ T_quest # call_tokens l ts @ T_colon # chain_tokens xs f"
    by (simp add: chain_tokens_def part_tokens_def x)
  obtain m where n: "n = Suc m" using Cons.prems(2) by (cases n) auto
  have m: "length as + 4 \<le> m" "length ts + 12 \<le> m" "length (chain_tokens xs f) + 13 \<le> m"
    using Cons.prems(2) join_tokens_length [of as T_and atom_tokens] terms_length [of ts]
    unfolding n eq call_tokens_def by simp_all
  have k: "as \<noteq> []" "list_all (\<lambda>a. fst a \<in> set vars) as" "ts \<noteq> []" "list_all (\<lambda>x. fst x \<in> set vars) ts"
    using Cons.prems(1) by (simp_all add: x part_known_def)
  have "p_cond vars m (call_tokens l ts @ T_colon # chain_tokens xs f) = Some (call_expr l ts, T_colon # chain_tokens xs f)"
    using p_call [OF k(3,4) m(2) _ assms(2)] by (simp add: ends_def)
  then show ?case
    using p_atoms [OF k(1,2) m(1)] Cons.IH [OF _ m(3)] Cons.prems(1) unfolding eq n by (simp add: x)
qed

section \<open>Its value\<close>

lemma chain_plus:
  "chain js_plus (map (\<lambda>a. V_num (Fin a)) (a # as)) = Some (V_num (Fin (sum_list (a # as))))"
  by (induction as arbitrary: a) (simp_all add: add.assoc)

definition terms_value :: "(string \<Rightarrow> num) \<Rightarrow> (string \<times> string) list \<Rightarrow> num" where
  "terms_value x ts = (\<Sum>(k, n)\<leftarrow>ts. x k * text_num n)"

definition atom_holds :: "(string \<Rightarrow> num) \<Rightarrow> string \<times> string \<times> string \<Rightarrow> bool" where
  "atom_holds x a = (case a of (v, op, n) \<Rightarrow> compare_nums op (Fin (x v)) (Fin (text_num n)))"

text \<open>An environment that gives the billing variables finite values.\<close>

definition env_ok :: "(string \<Rightarrow> jsnum option) \<Rightarrow> (string \<Rightarrow> num) \<Rightarrow> bool" where
  "env_ok env x \<longleftrightarrow> (\<forall>v \<in> {''p'', ''c'', ''len''} \<union> set price_keys. env v = Some (Fin (x v)))"

lemma eval_term:
  "env_ok env x \<Longrightarrow> term_plain y \<Longrightarrow> eval_js env (term_expr y) m = Some (V_num (Fin (x (fst y) * text_num (snd y))), m)"
  by (cases y) (simp add: term_expr_def term_plain_def env_ok_def num_text_def)

lemma eval_terms:
  assumes "env_ok env x" "list_all term_plain ts" "ts \<noteq> []"
  shows "eval_js env (terms_expr ts) m = Some (V_num (Fin (terms_value x ts)), m)"
proof -
  have ops: "eval_operands env (map term_expr us) m
      = Some (map (\<lambda>a. V_num (Fin a)) (map (\<lambda>(k, n). x k * text_num n) us), m)" if "list_all term_plain us" for us
    using that by (induction us) (auto simp: eval_term [OF assms(1)])
  obtain y us where "ts = y # us" using assms(3) by (cases ts) auto
  then show ?thesis
    using ops [OF assms(2)] chain_plus [of "case y of (k, n) \<Rightarrow> x k * text_num n" "map (\<lambda>(k, n). x k * text_num n) us"]
    by (simp add: terms_expr_def terms_value_def)
qed

lemma eval_call:
  assumes "env_ok env x" "list_all term_plain ts" "ts \<noteq> []"
  shows "eval_js env (call_expr l ts) m = Some (V_num (Fin (terms_value x ts)), l)"
  by (simp add: call_expr_def eval_terms [OF assms])

lemma eval_atom:
  "env_ok env x \<Longrightarrow> atom_plain a \<Longrightarrow> eval_js env (atom_expr a) m = Some (V_bool (atom_holds x a), m)"
  by (cases a) (auto simp: atom_expr_def atom_plain_def env_ok_def num_text_def atom_holds_def)

lemma eval_atoms:
  assumes "env_ok env x" "list_all atom_plain as" "as \<noteq> []"
  shows "eval_and env (map atom_expr as) m = Some (V_bool (list_all (atom_holds x) as), m)"
  using assms(2,3)
proof (induction as)
  case (Cons a as)
  then show ?case using eval_atom [OF assms(1)] by (cases as) auto
qed simp

definition part_applies :: "(string \<Rightarrow> num) \<Rightarrow> part \<Rightarrow> bool" where
  "part_applies x y = list_all (atom_holds x) (fst y)"

lemma eval_chain:
  assumes "env_ok env x" "list_all part_plain xs"
  shows "eval_js env (chain_expr xs e) m =
     (case find (part_applies x) xs of
        Some (as, l, ts) \<Rightarrow> Some (V_num (Fin (terms_value x ts)), l)
      | None \<Rightarrow> eval_js env e m)"
  using assms(2)
proof (induction xs)
  case (Cons y xs)
  obtain as l ts where y: "y = (as, l, ts)" by (cases y)
  have "list_all atom_plain as" "as \<noteq> []" "list_all term_plain ts" "ts \<noteq> []"
    using Cons.prems by (simp_all add: y part_plain_def)
  then show ?case
    using Cons eval_atoms [OF assms(1)] eval_call [OF assms(1)] by (simp add: y part_applies_def)
qed simp

section \<open>The text as a chain of parts\<close>

text \<open>The alternative a chain ends in: a tier, or the price of nothing.\<close>

definition nothing :: "(string \<times> string) list" where
  "nothing = [(''p'', ''0''), (''c'', ''0'')]"

datatype ending = Tier_end string "(string \<times> string) list" | Nothing_end

fun ending_text :: "ending \<Rightarrow> string" where
  "ending_text (Tier_end l ts) = tier_call l (terms_text ts)"
| "ending_text Nothing_end = terms_text nothing"

fun ending_tokens :: "ending \<Rightarrow> token list" where
  "ending_tokens (Tier_end l ts) = call_tokens l ts"
| "ending_tokens Nothing_end = join_tokens T_plus (map term_tokens nothing)"

fun ending_expr :: "ending \<Rightarrow> jsexpr" where
  "ending_expr (Tier_end l ts) = call_expr l ts"
| "ending_expr Nothing_end = terms_expr nothing"

fun ending_value :: "(string \<Rightarrow> num) \<Rightarrow> ending \<Rightarrow> num \<times> string" where
  "ending_value x (Tier_end l ts) = (terms_value x ts, l)"
| "ending_value x Nothing_end = (0, [])"

fun ending_plain :: "ending \<Rightarrow> bool" where
  "ending_plain (Tier_end l ts) \<longleftrightarrow> list_all plain_char l \<and> list_all term_plain ts \<and> ts \<noteq> []"
| "ending_plain Nothing_end \<longleftrightarrow> True"

lemma nothing_plain: "list_all term_plain nothing" "nothing \<noteq> []" "terms_value x nothing = 0"
proof -
  have "lex_number ''0'' = Some (''0'', [])" "Number_str ''0'' = Fin 0" by code_simp+
  then show "list_all term_plain nothing" "nothing \<noteq> []" "terms_value x nothing = 0"
    by (simp_all add: nothing_def term_plain_def num_text_def price_keys_def price_char_def is_digit_def
        terms_value_def text_num_def)
qed

lemma plain_known:
  assumes "{''p'', ''c'', ''len''} \<union> set price_keys \<subseteq> set vars"
  shows "list_all term_plain ts \<Longrightarrow> list_all (\<lambda>x. fst x \<in> set vars) ts" "part_plain y \<Longrightarrow> part_known vars y"
proof -
  show t: "list_all term_plain us \<Longrightarrow> list_all (\<lambda>x. fst x \<in> set vars) us" for us
    using assms by (auto simp: list_all_iff term_plain_def)
  have "list_all atom_plain as \<Longrightarrow> list_all (\<lambda>x. fst x \<in> set vars) as" for as
    using assms by (fastforce simp: list_all_iff atom_plain_def)
  with t show "part_plain y \<Longrightarrow> part_known vars y" by (cases y) (simp add: part_plain_def part_known_def)
qed

lemma parse_chain:
  assumes "{''p'', ''c'', ''len''} \<union> set price_keys \<subseteq> set vars" "''tier'' \<notin> set vars"
    "list_all part_plain xs" "ending_plain z"
  shows "parse_js vars (chain_text xs (ending_text z)) = Some (chain_expr xs (ending_expr z))"
proof -
  note known = plain_known [OF assms(1)]
  have lex: "lexes (ending_text z) (ending_tokens z)"
    using assms(4) lexes_anyD [OF lexes_call] lexes_terms [OF nothing_plain(1,2)] by (cases z) simp_all
  have parse: "p_cond vars m (ending_tokens z) = Some (ending_expr z, [])" if "length (ending_tokens z) + 13 \<le> m" for m
  proof (cases z)
    case (Tier_end l ts)
    then show ?thesis
      using p_call [of ts vars m "[]" l] that assms(2,4) known(1) terms_length [of ts] by (simp add: ends_def call_tokens_def)
  next
    case Nothing_end
    then show ?thesis
      using p_body [OF nothing_plain(2) known(1) [OF nothing_plain(1)], of m "[]"] that terms_length [of nothing]
      by (simp add: ends_def)
  qed
  have "chain_tokens xs (ending_tokens z) \<noteq> []"
    by (cases z) (simp_all add: chain_tokens_def call_tokens_def nothing_def term_tokens_def)
  then have "length (chain_tokens xs (ending_tokens z)) + 13 \<le> 7 * length (chain_tokens xs (ending_tokens z)) + 7"
    by (cases "chain_tokens xs (ending_tokens z)") simp_all
  moreover have "list_all (part_known vars) xs" using assms(3) known(2) by (simp add: list_all_iff)
  ultimately have "p_cond vars (7 * length (chain_tokens xs (ending_tokens z)) + 7) (chain_tokens xs (ending_tokens z))
      = Some (chain_expr xs (ending_expr z), [])"
    using p_chain [OF _ assms(2) _ parse] by blast
  then show ?thesis by (simp add: parse_js_def lexes_tokens [OF lexes_chain [OF assms(3) lex]])
qed

end
