(* ===== verification/Billing_Estimator.thy ===== *)
theory Billing_Estimator
  imports Billing_Estimate_Laws
begin

text \<open>
  The estimate of the expression a configuration generates agrees with the price table shown for the same
  expression.
\<close>

section \<open>Token counts\<close>

definition extra_count :: "(string \<times> num) list \<Rightarrow> string \<Rightarrow> num" where
  "extra_count extra k = (case map_of extra k of Some q \<Rightarrow> q | None \<Rightarrow> 0)"

definition token_count :: "num \<Rightarrow> num \<Rightarrow> (string \<times> num) list \<Rightarrow> string \<Rightarrow> num" where
  "token_count p c extra v =
     (if v = ''p'' then p else if v = ''c'' then c
      else if v = ''len''
        then p + extra_count extra ''cacheReadTokens'' + extra_count extra ''cacheCreateTokens''
               + extra_count extra ''cacheCreate1hTokens''
      else extra_count extra (the (map_of ESTIMATOR_VARS v)))"

lemma extra_number: "num_or_zero (map_of (map (apsnd Fin) extra) k) = Fin (extra_count extra k)"
proof -
  have "map_of (map (apsnd Fin) extra) k = map_option Fin (map_of extra k)"
    by (induction extra) auto
  then show ?thesis by (simp add: extra_count_def split: option.split)
qed

abbreviation counts_env :: "num \<Rightarrow> num \<Rightarrow> (string \<times> num) list \<Rightarrow> (string \<times> EnvValue) list" where
  "counts_env p c extra \<equiv> estimate_env (Fin p) (Fin c) (map (apsnd Fin) extra)"

lemma counts_env_ok: "env_ok (env_num (counts_env p c extra)) (token_count p c extra)"
  by (simp add: env_ok_def env_num_def estimate_env_def token_count_def ESTIMATOR_VARS_def price_keys_def extra_number)

lemma counts_env_vars:
  "filter (\<lambda>v. env_num (counts_env p c extra) v \<noteq> None) (map fst (counts_env p c extra))
    = [''p'', ''c'', ''len'', ''cr'', ''cc'', ''cc1h'', ''img'', ''img_o'', ''ai'', ''ao'']"
  by (simp add: env_num_def estimate_env_def ESTIMATOR_VARS_def)

section \<open>The value of a chain\<close>

definition chain_value :: "(string \<Rightarrow> num) \<Rightarrow> part list \<Rightarrow> ending \<Rightarrow> num \<times> string" where
  "chain_value x xs z =
     (case find (part_applies x) xs of Some (as, l, ts) \<Rightarrow> (terms_value x ts, l) | None \<Rightarrow> ending_value x z)"

lemma chain_text_start: "\<exists>c \<in> set (chain_text xs (ending_text z)). \<not> is_ws c"
proof -
  have "CHR ''('' \<in> set (ending_text z) \<or> CHR ''p'' \<in> set (ending_text z)"
    by (cases z) (simp_all add: tier_call_def terms_text_def nothing_def term_text_def)
  moreover have "\<not> is_ws CHR ''(''" "\<not> is_ws CHR ''p''" by (simp_all add: is_ws_def)
  ultimately show ?thesis by (auto simp: chain_text_def)
qed

lemma estimate_chain:
  assumes "list_all part_plain xs" "ending_plain z"
  shows "evalExprLocally host (chain_text xs (ending_text z)) (Fin p) (Fin c) (map (apsnd Fin) extra) =
     \<lparr>er_cost = Fin (fst (chain_value (token_count p c extra) xs z)),
      er_matchedTier = snd (chain_value (token_count p c extra) xs z), er_error = None\<rparr>"
proof -
  let ?s = "chain_text xs (ending_text z)" and ?x = "token_count p c extra" and ?env = "counts_env p c extra"
  have "parse_js (filter (\<lambda>v. env_num ?env v \<noteq> None) (map fst ?env)) ?s = Some (chain_expr xs (ending_expr z))"
    unfolding counts_env_vars by (rule parse_chain) (auto simp: price_keys_def assms)
  moreover have "eval_js (env_num ?env) (chain_expr xs (ending_expr z)) []
      = Some (V_num (Fin (fst (chain_value ?x xs z))), snd (chain_value ?x xs z))"
    using eval_call [OF counts_env_ok] eval_terms [OF counts_env_ok nothing_plain(1,2)] assms(2)
    unfolding eval_chain [OF counts_env_ok assms(1)] chain_value_def
    by (cases z) (simp_all add: nothing_plain(3) split: option.split)
  ultimately have "run_function host ?env ?s = Inr (JNum (Fin (fst (chain_value ?x xs z))), snd (chain_value ?x xs z))"
    by (simp add: run_function_def Let_def)
  moreover have "trim ?s \<noteq> []" "?s \<noteq> []" using chain_text_start [of xs z] by (auto simp: trim_eq_Nil)
  ultimately show ?thesis by (simp add: evalExprLocally_def)
qed

section \<open>Tiers\<close>

definition tier_plain :: "VisualTier \<Rightarrow> bool" where
  "tier_plain t \<longleftrightarrow> tier_ok t \<and> list_all plain_char (vt_label t)"

lemma price_num_text: "price_ok q \<Longrightarrow> num_text (num_str q) \<and> text_num (num_str q) = q"
  using price_text [of q] by (simp add: num_text_def text_num_def price_ok_def num_ok_def)

lemma atoms_plain:
  assumes "list_all input_ok cs"
  shows "list_all atom_plain (map atom_of cs)"
    "list_all (atom_holds x) (map atom_of cs) \<longleftrightarrow>
       list_all (\<lambda>c. compare_nums (tc_op c) (Fin (x (tc_var c))) (tc_value c)) (map shown_condition cs)"
proof -
  have "atom_plain (atom_of c) \<and> (atom_holds x (atom_of c)
      \<longleftrightarrow> compare_nums (in_op c) (Fin (x (in_var c))) (tc_value (shown_condition c)))" if i: "input_ok c" for c
  proof -
    obtain q where q: "in_value c = JNum (Fin q)" "price_ok q" by (rule input_value [OF i])
    then show ?thesis using i price_num_text [OF q(2)]
      by (simp add: input_ok_def atom_plain_def atom_of_def atom_holds_def shown_condition_def)
  qed
  with assms show "list_all atom_plain (map atom_of cs)"
    "list_all (atom_holds x) (map atom_of cs) \<longleftrightarrow>
       list_all (\<lambda>c. compare_nums (tc_op c) (Fin (x (tc_var c))) (tc_value c)) (map shown_condition cs)"
    by (auto simp: list_all_iff shown_condition_def)
qed

lemma chosen_member: "(v, w) \<in> set (chosen P g m) \<Longrightarrow> \<exists>f \<in> fst ` set m. w = g f"
  by (induction m) (auto split: if_splits)

lemma tier_terms_plain:
  assumes "tier_ok t"
  shows "list_all term_plain (terms t)"
proof -
  have fields: "num_text (num_str (cost t f))" if "f \<in> set cost_fields" for f
    using price_num_text [OF tier_cost(2) [OF assms that]] by simp
  have "num_text n" if kn: "(k, n) \<in> set (terms t)" for k n
  proof -
    from kn consider "n = num_str (cost t ''input_unit_cost'')" | "n = num_str (cost t ''output_unit_cost'')"
      | "(k, n) \<in> set (chosen (\<lambda>f. cost t f \<noteq> 0) (\<lambda>f. num_str (cost t f)) BILLING_CACHE_VAR_MAP)"
      unfolding terms_def by (auto simp del: chosen_simps)
    then show ?thesis
    proof cases
      case 3
      from chosen_member [OF this] obtain f where "f \<in> fst ` set BILLING_CACHE_VAR_MAP" "n = num_str (cost t f)" by blast
      then show ?thesis using fields [of f] by (simp add: fields_eq)
    qed (use fields in \<open>simp_all add: fields_eq\<close>)
  qed
  then have "term_plain y" if "y \<in> set (terms t)" "term_ok y" for y
    using that by (cases y) (simp add: term_ok_def term_plain_def)
  with terms_ok(1) [OF assms] show ?thesis by (simp add: list_all_iff)
qed

text \<open>A tier of the price table applies when its conditions hold, and costs its prices for the counted tokens.\<close>

definition tier_applies :: "(string \<Rightarrow> num) \<Rightarrow> ParsedTier \<Rightarrow> bool" where
  "tier_applies x pt = list_all (\<lambda>c. compare_nums (tc_op c) (Fin (x (tc_var c))) (tc_value c)) (pt_conditions pt)"

definition table_price :: "ParsedTier \<Rightarrow> BillingVar \<Rightarrow> num" where
  "table_price pt v = (case map_of (pt_prices pt) (the (bv_field v)) of Some (Fin q) \<Rightarrow> q | _ \<Rightarrow> 0)"

definition table_cost :: "(string \<Rightarrow> num) \<Rightarrow> ParsedTier \<Rightarrow> num" where
  "table_cost x pt = (\<Sum>v\<leftarrow>BILLING_PRICING_VARS. x (bv_key v) * table_price pt v)"

lemma chosen_value:
  assumes "\<And>f v. (f, v) \<in> set m \<Longrightarrow> price_ok (cost t f)"
  shows "terms_value x (chosen (\<lambda>f. cost t f \<noteq> 0) (\<lambda>f. num_str (cost t f)) m) = (\<Sum>(f, v)\<leftarrow>m. x v * cost t f)"
  using assms
proof (induction m)
  case (Cons a m)
  obtain f v where a: "a = (f, v)" by (cases a)
  have "text_num (num_str (cost t f)) = cost t f" using price_num_text Cons.prems [of f v] by (simp add: a)
  moreover have "terms_value x (chosen (\<lambda>f. cost t f \<noteq> 0) (\<lambda>f. num_str (cost t f)) m) = (\<Sum>(f, v)\<leftarrow>m. x v * cost t f)"
    by (rule Cons.IH) (use Cons.prems in auto)
  ultimately show ?case by (simp add: a terms_value_def)
qed (simp add: terms_value_def)

lemma pricing_pairs: "map (\<lambda>v. (the (bv_tierField v), bv_key v)) BILLING_PRICING_VARS = priced"
  by code_simp

lemma pricing_fields: "distinct (map (\<lambda>v. the (bv_field v)) BILLING_PRICING_VARS)"
proof -
  have fields: "map (\<lambda>v. the (bv_field v)) BILLING_PRICING_VARS =
      [''inputPrice'', ''outputPrice'', ''cacheReadPrice'', ''cacheCreatePrice'', ''cacheCreate1hPrice'', ''imagePrice'',
       ''imageOutputPrice'', ''audioInputPrice'', ''audioOutputPrice'']"
    by code_simp
  show ?thesis unfolding fields by simp
qed

lemma map_of_pairs:
  "distinct (map f xs) \<Longrightarrow> v \<in> set xs \<Longrightarrow> map_of (map (\<lambda>v. (f v, g v)) xs) (f v) = Some (g v)"
  by (induction xs) (auto simp: rev_image_eqI)

lemma table_cost_shown:
  assumes "tier_ok t"
  shows "table_cost x (shown_tier l cs t) = terms_value x (terms t)"
proof -
  have price: "table_price (shown_tier l cs t) v = cost t (the (bv_tierField v))" if "v \<in> set BILLING_PRICING_VARS" for v
  proof -
    have "map_of (pt_prices (shown_tier l cs t)) (the (bv_field v)) = Some (the (tier_field t (the (bv_tierField v))))"
      unfolding shown_tier_def ParsedTier.select_convs by (rule map_of_pairs [OF pricing_fields that])
    moreover have "the (bv_tierField v) \<in> set cost_fields" using that by (simp add: cost_fields_def)
    ultimately show ?thesis using tier_cost(1) [OF assms] by (simp add: table_price_def)
  qed
  have "table_cost x (shown_tier l cs t) = (\<Sum>v\<leftarrow>BILLING_PRICING_VARS. x (bv_key v) * cost t (the (bv_tierField v)))"
    unfolding table_cost_def by (intro arg_cong [where f = sum_list] map_cong) (simp_all only: price)
  also have "\<dots> = (\<Sum>(f, v)\<leftarrow>map (\<lambda>v. (the (bv_tierField v), bv_key v)) BILLING_PRICING_VARS. x v * cost t f)"
    by (simp add: o_def)
  also have "\<dots> = terms_value x (terms t)"
  proof -
    have ok: "price_ok (cost t f)" if "f \<in> set cost_fields" for f using tier_cost(2) [OF assms that] .
    have "terms_value x (chosen (\<lambda>f. cost t f \<noteq> 0) (\<lambda>f. num_str (cost t f)) BILLING_CACHE_VAR_MAP)
        = (\<Sum>(f, v)\<leftarrow>BILLING_CACHE_VAR_MAP. x v * cost t f)"
      by (rule chosen_value) (force intro: ok simp: fields_eq)
    moreover have "text_num (num_str (cost t f)) = cost t f" if "f \<in> set cost_fields" for f
      using price_num_text [OF ok [OF that]] by simp
    ultimately show ?thesis unfolding pricing_pairs by (simp add: priced_def terms_def terms_value_def fields_eq)
  qed
  finally show ?thesis .
qed

section \<open>The generated expression\<close>

text \<open>The tier the table chooses for the counted tokens: its cost and label.\<close>

definition table_choice :: "(string \<Rightarrow> num) \<Rightarrow> ParsedTier list \<Rightarrow> num \<times> string" where
  "table_choice x pts =
     (case find (tier_applies x) pts of Some pt \<Rightarrow> (table_cost x pt, pt_label pt) | None \<Rightarrow> (0, []))"

lemma tier_text_call: "tier_ok t \<Longrightarrow> tier_text l t = tier_call l (terms_text (terms t))"
  by (simp add: tier_text_def tier_call_def terms_text_def body_terms)

lemma default_plain:
  "list_all plain_char l \<Longrightarrow> list_all plain_char (or_default l (''tier_'' @ nat_str n))"
  "list_all plain_char l \<Longrightarrow> list_all plain_char (or_default l ''default'')"
proof -
  have "plain_char c" if "is_digit c" for c
    using that by (auto simp: plain_char_def not_quote_def quote_def is_digit_def)
  with nat_str_digits [of n] have "list_all plain_char (nat_str n)" by (rule list.pred_mono_strong)
  then show "list_all plain_char l \<Longrightarrow> list_all plain_char (or_default l (''tier_'' @ nat_str n))"
    "list_all plain_char l \<Longrightarrow> list_all plain_char (or_default l ''default'')"
    by (simp_all add: or_default_def plain_char_def not_quote_def quote_def)
qed

definition part_of :: "string \<Rightarrow> VisualTier \<Rightarrow> part" where
  "part_of l t = (map atom_of (vt_conditions t), l, terms t)"

lemma part_of:
  assumes "tier_plain t" "list_all plain_char l" "vt_conditions t \<noteq> []"
  shows "part_plain (part_of l t)" "part_applies x (part_of l t) \<longleftrightarrow> tier_applies x (shown_tier l (vt_conditions t) t)"
    "buildConditionStr (vt_conditions t) @ '' ? '' @ tier_text l t = part_text (part_of l t)"
    "buildConditionStr (vt_conditions t) \<noteq> []"
proof -
  have ok: "tier_ok t" "list_all input_ok (vt_conditions t)" using assms(1) by (simp_all add: tier_plain_def tier_ok_def)
  show "part_plain (part_of l t)"
    using atoms_plain(1) [OF ok(2)] tier_terms_plain [OF ok(1)] terms_ok(3) [OF ok(1)] assms(2,3)
    by (simp add: part_plain_def part_of_def)
  show "part_applies x (part_of l t) \<longleftrightarrow> tier_applies x (shown_tier l (vt_conditions t) t)"
    using atoms_plain(2) [OF ok(2)] by (simp add: part_applies_def part_of_def tier_applies_def shown_tier_def)
  show "buildConditionStr (vt_conditions t) @ '' ? '' @ tier_text l t = part_text (part_of l t)"
    by (simp add: part_text_def part_of_def inputs(1) [OF ok(2)] tier_text_call [OF ok(1)])
  show "buildConditionStr (vt_conditions t) \<noteq> []" using inputs(4) [OF ok(2)] assms(3) by simp
qed

lemma ending_of_tier:
  assumes "tier_plain t" "list_all plain_char l"
  shows "ending_plain (Tier_end l (terms t))" "ending_text (Tier_end l (terms t)) = tier_text l t"
    "ending_value x (Tier_end l (terms t)) = table_choice x [shown_tier l [] t]"
proof -
  have ok: "tier_ok t" using assms(1) by (simp add: tier_plain_def)
  show "ending_plain (Tier_end l (terms t))"
    using tier_terms_plain [OF ok] terms_ok(3) [OF ok] assms(2) by simp
  show "ending_text (Tier_end l (terms t)) = tier_text l t" by (simp add: tier_text_call [OF ok])
  show "ending_value x (Tier_end l (terms t)) = table_choice x [shown_tier l [] t]"
    using table_cost_shown [OF ok, of x l "[]"] by (simp add: table_choice_def tier_applies_def) (simp add: shown_tier_def)
qed

lemma chain_value_Cons:
  assumes "tier_plain t" "list_all plain_char l" "vt_conditions t \<noteq> []" "chain_value x xs z = table_choice x pts"
  shows "chain_value x (part_of l t # xs) z = table_choice x (shown_tier l (vt_conditions t) t # pts)"
  using assms(4) part_of(2) [OF assms(1-3), of x] table_cost_shown [of t x l "vt_conditions t"] assms(1)
  by (simp add: chain_value_def table_choice_def tier_plain_def) (simp add: part_of_def shown_tier_def)

definition tier_name :: "nat \<Rightarrow> VisualTier \<Rightarrow> string" where
  "tier_name i t = or_default (vt_label t) (''tier_'' @ nat_str (i + 1))"

fun parts :: "nat \<Rightarrow> VisualTier list \<Rightarrow> part list" where
  "parts i (t # u # ts) = part_of (tier_name i t) t # parts (i + 1) (u # ts)"
| "parts i ts = []"

fun ending_of :: "nat \<Rightarrow> VisualTier list \<Rightarrow> ending" where
  "ending_of i (t # u # ts) = ending_of (i + 1) (u # ts)"
| "ending_of i [t] = Tier_end (tier_name i t) (terms t)"
| "ending_of i [] = Nothing_end"

lemma tier_name_plain: "tier_plain t \<Longrightarrow> list_all plain_char (tier_name i t)"
  using default_plain(1) by (simp add: tier_name_def tier_plain_def)

lemma parts_of_tiers:
  assumes "list_all tier_plain ts" "list_all (\<lambda>t. vt_conditions t \<noteq> []) (butlast ts)" "ts \<noteq> []"
  shows "list_all part_plain (parts i ts) \<and> ending_plain (ending_of i ts)
     \<and> join '' : '' (tier_parts i ts) = chain_text (parts i ts) (ending_text (ending_of i ts))
     \<and> chain_value x (parts i ts) (ending_of i ts) = table_choice x (shown_from i ts)"
  using assms
proof (induction ts arbitrary: i rule: induct_list012)
  case (2 t)
  then have t: "tier_plain t" by simp
  note e = ending_of_tier [OF t tier_name_plain [OF t, of i]]
  have "tier_parts i [t] = [tier_text (tier_name i t) t]" by (simp add: tier_name_def Let_def)
  then show ?case
    using e by (simp add: chain_text_def chain_value_def del: ending_text.simps ending_value.simps ending_plain.simps tier_parts.simps)
      (simp add: tier_name_def)
next
  case (3 t u ts)
  then have t: "tier_plain t" "vt_conditions t \<noteq> []" by simp_all
  note p = part_of [OF t(1) tier_name_plain [OF t(1), of i] t(2)]
  have IH: "list_all part_plain (parts (i + 1) (u # ts)) \<and> ending_plain (ending_of (i + 1) (u # ts))
     \<and> join '' : '' (tier_parts (i + 1) (u # ts)) = chain_text (parts (i + 1) (u # ts)) (ending_text (ending_of (i + 1) (u # ts)))
     \<and> chain_value x (parts (i + 1) (u # ts)) (ending_of (i + 1) (u # ts)) = table_choice x (shown_from (i + 1) (u # ts))"
    using 3(3-) by (intro 3(2)) (simp_all split: if_splits)
  have "tier_parts i (t # u # ts) = part_text (part_of (tier_name i t) t) # tier_parts (i + 1) (u # ts)"
    using p(3,4) by (subst tier_parts.simps(2)) (simp add: tier_name_def Let_def del: tier_parts.simps)
  then have "join '' : '' (tier_parts i (t # u # ts))
      = part_text (part_of (tier_name i t) t) @ '' : '' @ join '' : '' (tier_parts (i + 1) (u # ts))"
    by (simp only:) (subst join_Cons, simp_all add: Let_def)
  moreover have "shown_from i (t # u # ts) = shown_tier (tier_name i t) (vt_conditions t) t # shown_from (i + 1) (u # ts)"
    by (simp add: tier_name_def)
  ultimately show ?case
    using IH p(1) chain_value_Cons [OF t(1) tier_name_plain [OF t(1)] t(2)]
    by (simp add: chain_text_def del: tier_parts.simps shown_from.simps)
qed simp

lemma generated_chain:
  assumes "list_all tier_plain tiers" "list_all (\<lambda>t. vt_conditions t \<noteq> []) (butlast tiers)"
  obtains xs z where "generateExprFromVisualConfig (Some tiers) = chain_text xs (ending_text z)"
    "list_all part_plain xs" "ending_plain z" "\<And>x. chain_value x xs z = table_choice x (shown_tiers tiers)"
proof (cases tiers rule: remdups_adj.cases)
  case 1
  then show ?thesis
    using that [of "[]" Nothing_end]
    by (simp add: generateExprFromVisualConfig_def chain_text_def terms_text_def nothing_def term_text_def
        chain_value_def table_choice_def)
next
  case (2 t)
  let ?l = "or_default (vt_label t) ''default''"
  have t: "tier_plain t" "list_all plain_char ?l"
    using assms(1) default_plain(2) by (simp_all add: 2 tier_plain_def)
  show ?thesis
  proof (cases "vt_conditions t = []")
    case True
    note e = ending_of_tier [OF t]
    have "generateExprFromVisualConfig (Some tiers) = tier_text ?l t"
      by (simp add: 2 generateExprFromVisualConfig_def True buildConditionStr_def Let_def)
    then show ?thesis
      using that [of "[]" "Tier_end ?l (terms t)"] e
      by (simp add: chain_text_def chain_value_def 2 True del: ending_text.simps ending_value.simps ending_plain.simps)
  next
    case False
    note p = part_of [OF t False]
    have "generateExprFromVisualConfig (Some tiers) = chain_text [part_of ?l t] (ending_text Nothing_end)"
      using p(3,4) by (simp add: 2 generateExprFromVisualConfig_def Let_def chain_text_def terms_text_def nothing_def
          term_text_def flip: append_assoc)
    moreover have "chain_value x [part_of ?l t] Nothing_end = table_choice x (shown_tiers tiers)" for x
      using chain_value_Cons [OF t False, of x "[]" Nothing_end "[]"]
      by (simp add: 2) (simp add: chain_value_def table_choice_def)
    ultimately show ?thesis using that [of "[part_of ?l t]" Nothing_end] p(1) by simp
  qed
next
  case (3 t u ts)
  have "generateExprFromVisualConfig (Some tiers) = join '' : '' (tier_parts 0 tiers)" "shown_tiers tiers = shown_from 0 tiers"
    "tiers \<noteq> []"
    by (simp_all add: 3 generateExprFromVisualConfig_def)
  with parts_of_tiers [OF assms(1,2), of 0] show ?thesis
    using that [of "parts 0 tiers" "ending_of 0 tiers"] by simp
qed

text \<open>
  C3: the cost estimate of the visual editor agrees with the price table. For every configuration in which all tiers but
  the last have conditions, with complete conditions, labels without double quote, backslash and line break, and prices that are
  nonnegative decimals printed without an exponent, and for all token counts, \<^verbatim>\<open>evalExprLocally\<close> of the generated expression
  reports the first tier that \<^verbatim>\<open>parseTiersFromExpr\<close> shows for this expression whose conditions hold, with the sum of the
  prices shown times the counted tokens as the cost; it reports the cost 0 and no tier when none applies, and never an error.
  The evaluator of the host is not consulted.
\<close>

theorem estimate_agrees_with_table:
  assumes "list_all tier_plain tiers" "list_all (\<lambda>t. vt_conditions t \<noteq> []) (butlast tiers)"
    "expr = generateExprFromVisualConfig (Some tiers)"
  shows "evalExprLocally host expr (Fin p) (Fin c) (map (apsnd Fin) extra) =
    \<lparr>er_cost = Fin (fst (table_choice (token_count p c extra) (parseTiersFromExpr expr))),
     er_matchedTier = snd (table_choice (token_count p c extra) (parseTiersFromExpr expr)), er_error = None\<rparr>"
proof -
  obtain xs z where "expr = chain_text xs (ending_text z)" "list_all part_plain xs" "ending_plain z"
    "\<And>x. chain_value x xs z = table_choice x (shown_tiers tiers)"
    using generated_chain [OF assms(1,2)] assms(3) by metis
  moreover have "parseTiersFromExpr expr = shown_tiers tiers"
    unfolding assms(3) using assms(1) by (intro generated_read) (simp add: list_all_iff tier_plain_def)
  ultimately show ?thesis using estimate_chain [of xs z host p c extra] by simp
qed

lemma sample_tiers_plain:
  "list_all tier_plain sample_tiers" "list_all (\<lambda>t. vt_conditions t \<noteq> []) (butlast sample_tiers)"
proof -
  have "list_all (\<lambda>t. list_all plain_char (vt_label t)) sample_tiers"
    by (simp add: sample_tiers_def plain_char_def not_quote_def quote_def)
  with sample_tiers_ok show "list_all tier_plain sample_tiers" by (simp add: list_all_iff tier_plain_def)
  show "list_all (\<lambda>t. vt_conditions t \<noteq> []) (butlast sample_tiers)" by (simp add: sample_tiers_def)
qed

lemma sample_choice: "table_choice (token_count 100 7 []) (shown_tiers sample_tiers) = (355, ''short'')"
  by code_simp

theorem estimate_agrees_with_table_witness:
  "evalExprLocally (\<lambda>s env. Inl (Thrown_Error ''unexpected'')) (generateExprFromVisualConfig (Some sample_tiers))
     (Fin 100) (Fin 7) [] = \<lparr>er_cost = Fin 355, er_matchedTier = ''short'', er_error = None\<rparr>"
  using estimate_agrees_with_table [OF sample_tiers_plain refl, of "\<lambda>s env. Inl (Thrown_Error ''unexpected'')" 100 7 "[]"]
  by (simp add: generated_read [OF sample_tiers_ok] sample_choice)

text \<open>
  A tier without conditions in front of another one: the text is the two calls with a colon between them, which is
  no expression.
\<close>

lemma unconditional_tier_in_front:
  assumes "tier_plain t" "tier_plain u" "vt_conditions t = []"
    "{''p'', ''c'', ''len''} \<union> set price_keys \<subseteq> set vars" "''tier'' \<notin> set vars"
  shows "parse_js vars (generateExprFromVisualConfig (Some [t, u])) = None"
proof -
  let ?c = "\<lambda>i t. call_tokens (tier_name i t) (terms t)"
  have call: "lexes_any (tier_call (tier_name i v) (terms_text (terms v))) (?c i v)" if "tier_plain v" for i v
    using that tier_terms_plain terms_ok(3) by (intro lexes_call tier_name_plain) (simp_all add: tier_plain_def)
  have "generateExprFromVisualConfig (Some [t, u])
      = tier_call (tier_name 0 t) (terms_text (terms t)) @ '' : '' @ tier_call (tier_name 1 u) (terms_text (terms u))"
    using tier_text_call assms by (simp add: generateExprFromVisualConfig_def Let_def buildConditionStr_def tier_name_def tier_plain_def)
  then have lex: "tokens (generateExprFromVisualConfig (Some [t, u])) = Some (?c 0 t @ [T_colon] @ ?c 1 u)"
    using lexes_tokens [OF lexes_anyD, OF any_any [OF call any_any [OF spaced_any [OF punct_any(6)] call]]] assms(1,2) by simp
  have "list_all (\<lambda>x. fst x \<in> set vars) (terms t)" "terms t \<noteq> []"
    using plain_known(1) [OF assms(4)] tier_terms_plain terms_ok(3) assms(1) by (simp_all add: tier_plain_def)
  from p_call [OF this(2,1) _ _ assms(5)]
  have "p_cond vars n (?c 0 t @ T_colon # r) = Some (call_expr (tier_name 0 t) (terms t), T_colon # r)"
    if "length (terms t) + 12 \<le> n" for n r
    using that by (simp add: ends_def)
  moreover have "length (terms t) + 12 \<le> 7 * length (?c 0 t @ [T_colon] @ ?c 1 u) + 7"
    using terms_length [of "terms t"] by (simp add: call_tokens_def)
  ultimately show ?thesis by (simp add: parse_js_def lex)
qed

end
