(* ===== verification/Group_Timeline.thy ===== *)
theory Group_Timeline
  imports Js_Prelude
begin

text \<open>
  The availability timeline of a monitored group, \<^verbatim>\<open>features/group-monitoring/lib/timeline.ts\<close>: buckets are merged
  into bars so that a narrow card has room for them.
\<close>

section \<open>Model\<close>

datatype GroupMonitoringState = Healthy | Degraded | Down | No_data

record GroupMonitoringBucket =
  bk_ts :: num
  bk_request_count :: num
  bk_success_count :: num
  bk_state :: GroupMonitoringState
  avg_ttft_ms :: "num option"
  avg_latency_ms :: "num option"
  avg_output_tps :: "num option"

record GroupMonitoringThresholds =
  healthy_rate :: num
  degraded_rate :: num
  min_bucket_requests :: num

record GroupMonitoringTimelineBar =
  bar_ts :: num
  bar_end_ts :: num
  bar_request_count :: num
  bar_success_count :: num
  bar_span :: nat
  bar_state :: GroupMonitoringState

text \<open>\<^verbatim>\<open>Math.round\<close>: the nearest integer, upwards from the middle.\<close>

definition math_round :: "num \<Rightarrow> num" where
  "math_round x = of_int \<lfloor>x + 1 / 2\<rfloor>"

definition barState :: "num \<Rightarrow> num \<Rightarrow> GroupMonitoringThresholds \<Rightarrow> GroupMonitoringState" where
  "barState requestCount successCount thresholds =
     (if requestCount < min_bucket_requests thresholds \<or> requestCount \<le> 0 then No_data
      else
        (let rate = math_round (successCount / requestCount * 100 * 100) / 100 in
         if rate \<ge> healthy_rate thresholds then Healthy
         else if rate \<ge> degraded_rate thresholds then Degraded
         else Down))"

definition slice_bar ::
  "num \<Rightarrow> GroupMonitoringThresholds \<Rightarrow> GroupMonitoringBucket list \<Rightarrow> GroupMonitoringTimelineBar" where
  "slice_bar bucketSeconds thresholds slice =
     (let (requestCount, successCount) =
        foldl (\<lambda>(r, s) bucket. (r + bk_request_count bucket, s + bk_success_count bucket)) (0, 0) slice in
      \<lparr>bar_ts = bk_ts (hd slice), bar_end_ts = bk_ts (hd slice) + of_nat (length slice) * bucketSeconds,
       bar_request_count = requestCount, bar_success_count = successCount, bar_span = length slice,
       bar_state = barState requestCount successCount thresholds\<rparr>)"

text \<open>The slices the loop visits. The step is never 0.\<close>

function slices :: "nat \<Rightarrow> GroupMonitoringBucket list \<Rightarrow> GroupMonitoringBucket list list" where
  "slices step buckets =
     (if buckets = [] \<or> step = 0 then [] else take step buckets # slices step (drop step buckets))"
  by pat_completeness auto
termination by (relation "measure (\<lambda>(step, buckets). length buckets)") auto

declare slices.simps [simp del]

definition timeline_step :: "nat \<Rightarrow> num \<Rightarrow> nat" where
  "timeline_step n capacity = nat (max 1 \<lceil>of_nat n / max 1 capacity\<rceil>)"

definition mergeTimelineBuckets ::
  "GroupMonitoringBucket list \<Rightarrow> num \<Rightarrow> num \<Rightarrow> GroupMonitoringThresholds \<Rightarrow> GroupMonitoringTimelineBar list" where
  "mergeTimelineBuckets buckets capacity bucketSeconds thresholds =
     (if length buckets = 0 then []
      else map (slice_bar bucketSeconds thresholds) (slices (timeline_step (length buckets) capacity) buckets))"

section \<open>Properties\<close>

text \<open>Buckets that follow each other without a gap, and bars that do.\<close>

fun contiguous :: "num \<Rightarrow> GroupMonitoringBucket list \<Rightarrow> bool" where
  "contiguous s (a # b # bs) \<longleftrightarrow> bk_ts b = bk_ts a + s \<and> contiguous s (b # bs)"
| "contiguous s bs \<longleftrightarrow> True"

fun gapless :: "GroupMonitoringTimelineBar list \<Rightarrow> bool" where
  "gapless (a # b # bs) \<longleftrightarrow> bar_ts b = bar_end_ts a \<and> gapless (b # bs)"
| "gapless bs \<longleftrightarrow> True"

lemma timeline_step_pos: "0 < timeline_step n capacity"
  by (simp add: timeline_step_def)

lemma slices_Nil [simp]: "slices step [] = []"
  by (simp add: slices.simps)

lemma slices_step: "bs \<noteq> [] \<Longrightarrow> 0 < step \<Longrightarrow> slices step bs = take step bs # slices step (drop step bs)"
  by (subst slices.simps) simp

lemma concat_slices: "0 < step \<Longrightarrow> concat (slices step bs) = bs"
proof (induction step bs rule: slices.induct)
  case (1 step bs)
  then show ?case by (cases "bs = []") (simp_all add: slices_step)
qed

lemma slices_not_Nil: "0 < step \<Longrightarrow> x \<in> set (slices step bs) \<Longrightarrow> x \<noteq> []"
proof (induction step bs rule: slices.induct)
  case (1 step bs)
  then show ?case by (cases "bs = []") (auto simp: slices_step)
qed

text \<open>The number of slices is the length over the step, rounded up.\<close>

lemma slices_length: "0 < step \<Longrightarrow> step * length (slices step bs) < length bs + step"
proof (induction step bs rule: slices.induct)
  case (1 step bs)
  show ?case
  proof (cases "bs = []")
    case False
    with 1 have "step * length (slices step (drop step bs)) < length (drop step bs) + step" by simp
    moreover have "step * length (slices step bs) = step + step * length (slices step (drop step bs))"
      using False 1(2) by (simp add: slices_step)
    ultimately show ?thesis using 1(2) False by (cases "step \<le> length bs") (auto simp: Suc_le_eq)
  qed (use 1(2) in simp)
qed

lemma merge_count:
  assumes "bs \<noteq> []"
  shows "int (length (slices (timeline_step (length bs) capacity) bs)) \<le> \<lceil>max 1 capacity\<rceil>"
proof -
  define n k d c where "n = length bs" and "k = length (slices (timeline_step (length bs) capacity) bs)"
    and "d = timeline_step (length bs) capacity" and "c = \<lceil>max 1 capacity\<rceil>"
  have "\<lceil>of_nat n / max 1 capacity\<rceil> \<le> int d"
    unfolding d_def n_def timeline_step_def by (simp only: int_nat_eq max_def split: if_split) linarith
  then have "of_nat n / max 1 capacity \<le> (of_nat d :: num)" by (simp add: ceiling_le_iff)
  then have "of_nat n \<le> of_nat d * max 1 capacity" by (simp add: pos_divide_le_eq)
  also have "\<dots> \<le> of_nat d * of_int c" unfolding c_def by (intro mult_left_mono le_of_int_ceiling) simp
  finally have "of_int (int n) \<le> (of_int (int d * c) :: num)" by simp
  then have "int n \<le> int d * c" by (simp only: of_int_le_iff)
  moreover have "int d * int k < int n + int d"
    using slices_length [OF timeline_step_pos, of "length bs" capacity bs]
    unfolding d_def k_def n_def by (simp flip: of_nat_mult of_nat_add)
  ultimately have "int d * int k < int d * (c + 1)" by (simp add: distrib_left)
  then have "int k < c + 1" by (simp add: mult_less_cancel_left)
  then show ?thesis by (simp add: k_def c_def)
qed

text \<open>The counters of a bar are the sums over its slice.\<close>

lemma slice_bar_simps:
  "bar_request_count (slice_bar s th bs) = sum_list (map bk_request_count bs)"
  "bar_success_count (slice_bar s th bs) = sum_list (map bk_success_count bs)"
  "bar_span (slice_bar s th bs) = length bs"
  "bar_state (slice_bar s th bs) = barState (sum_list (map bk_request_count bs)) (sum_list (map bk_success_count bs)) th"
  "bar_ts (slice_bar s th bs) = bk_ts (hd bs)"
  "bar_end_ts (slice_bar s th bs) = bk_ts (hd bs) + of_nat (length bs) * s"
proof -
  have "foldl (\<lambda>(r, s) b. (r + bk_request_count b, s + bk_success_count b)) (x, y) bs
      = (x + sum_list (map bk_request_count bs), y + sum_list (map bk_success_count bs))" for x y
    by (induction bs arbitrary: x y) (simp_all add: add.assoc)
  then show "bar_request_count (slice_bar s th bs) = sum_list (map bk_request_count bs)"
    "bar_success_count (slice_bar s th bs) = sum_list (map bk_success_count bs)"
    "bar_span (slice_bar s th bs) = length bs"
    "bar_state (slice_bar s th bs) = barState (sum_list (map bk_request_count bs)) (sum_list (map bk_success_count bs)) th"
    "bar_ts (slice_bar s th bs) = bk_ts (hd bs)"
    "bar_end_ts (slice_bar s th bs) = bk_ts (hd bs) + of_nat (length bs) * s"
    by (simp_all add: slice_bar_def)
qed

lemma sum_of_slices: "0 < step \<Longrightarrow> (\<Sum>x\<leftarrow>slices step bs. sum_list (map f x)) = (\<Sum>b\<leftarrow>bs. f b :: 'a :: comm_monoid_add)"
proof -
  assume "0 < step"
  moreover have "(\<Sum>x\<leftarrow>xs. sum_list (map f x)) = sum_list (map f (concat xs))" for xs
    by (induction xs) simp_all
  ultimately show ?thesis by (simp add: concat_slices)
qed

lemma contiguous_drop: "contiguous s bs \<Longrightarrow> contiguous s (drop n bs)"
proof (induction n arbitrary: bs)
  case (Suc n)
  then show ?case by (cases "(s, bs)" rule: contiguous.cases) auto
qed simp

lemma contiguous_ts: "contiguous s bs \<Longrightarrow> n < length bs \<Longrightarrow> bk_ts (hd (drop n bs)) = bk_ts (hd bs) + of_nat n * s"
proof (induction n arbitrary: bs)
  case (Suc n)
  obtain a b cs where bs: "bs = a # b # cs" using Suc.prems(2) by (cases bs; cases "tl bs") auto
  then show ?case using Suc.IH [of "b # cs"] Suc.prems by (simp add: algebra_simps)
qed simp

lemma slices_gapless:
  "0 < step \<Longrightarrow> contiguous s bs \<Longrightarrow> gapless (map (slice_bar s th) (slices step bs))"
proof (induction step bs rule: slices.induct)
  case (1 step bs)
  show ?case
  proof (cases "drop step bs = []")
    case True
    then show ?thesis using 1(2) by (cases "bs = []") (simp_all add: slices_step)
  next
    case False
    then have len: "step < length bs" by simp
    have "slices step bs = take step bs # take step (drop step bs) # slices step (drop step (drop step bs))"
      using False 1(2) by (subst slices_step) (auto simp: slices_step [of "drop step bs"])
    moreover have "gapless (map (slice_bar s th) (slices step (drop step bs)))"
      using 1(1) [OF _ 1(2) contiguous_drop [OF 1(3)]] 1(2) len by (cases "bs = []") auto
    moreover have "hd (take step bs) = hd bs" "hd (take step (drop step bs)) = hd (drop step bs)"
      using 1(2) by (cases bs; cases step; simp)+
    ultimately show ?thesis
      using contiguous_ts [OF 1(3) len] len False 1(2) by (simp add: slice_bar_simps slices_step [of "drop step bs"])
  qed
qed

text \<open>
  C40: merging the buckets of the timeline loses nothing. There are at most as many bars as there is room for, the
  requests, successes and buckets of the bars add up to those of the timeline, every bar is coloured from its own summed
  counters, and bars of buckets without gaps follow each other without gaps.
\<close>

theorem timeline_merge_exact:
  assumes "contiguous bucketSeconds buckets"
    "bars = mergeTimelineBuckets buckets capacity bucketSeconds thresholds"
  shows "int (length bars) \<le> \<lceil>max 1 capacity\<rceil>
    \<and> sum_list (map bar_request_count bars) = sum_list (map bk_request_count buckets)
    \<and> sum_list (map bar_success_count bars) = sum_list (map bk_success_count buckets)
    \<and> sum_list (map bar_span bars) = length buckets
    \<and> list_all (\<lambda>bar. bar_state bar = barState (bar_request_count bar) (bar_success_count bar) thresholds) bars
    \<and> gapless bars"
proof (cases "buckets = []")
  case True
  then show ?thesis using assms(2) by (simp add: mergeTimelineBuckets_def le_max_iff_disj)
next
  case False
  let ?s = "slices (timeline_step (length buckets) capacity) buckets"
  have bars: "bars = map (slice_bar bucketSeconds thresholds) ?s"
    using assms(2) False by (simp add: mergeTimelineBuckets_def)
  have "sum_list (map bar_span bars) = length buckets"
    using sum_of_slices [OF timeline_step_pos, of "\<lambda>_. 1 :: nat" "length buckets" capacity buckets]
    by (simp add: bars slice_bar_simps o_def sum_list_triv)
  then show ?thesis
    using merge_count [OF False, of capacity] slices_gapless [OF timeline_step_pos assms(1)]
      sum_of_slices [OF timeline_step_pos, of bk_request_count] sum_of_slices [OF timeline_step_pos, of bk_success_count]
    by (simp add: bars slice_bar_simps o_def list_all_iff)
qed

definition sample_buckets :: "GroupMonitoringBucket list" where
  "sample_buckets = map (\<lambda>i. \<lparr>bk_ts = of_nat i * 300, bk_request_count = 10, bk_success_count = of_nat i,
     bk_state = Healthy, avg_ttft_ms = None, avg_latency_ms = None, avg_output_tps = None\<rparr>) [5, 6, 7, 8, 9]"

theorem timeline_merge_exact_witness:
  "contiguous 300 sample_buckets
   \<and> length (mergeTimelineBuckets sample_buckets 2 300 \<lparr>healthy_rate = 90, degraded_rate = 70, min_bucket_requests = 5\<rparr>) \<le> 2
   \<and> sum_list (map bar_span (mergeTimelineBuckets sample_buckets 2 300
       \<lparr>healthy_rate = 90, degraded_rate = 70, min_bucket_requests = 5\<rparr>)) = 5"
proof -
  have c: "contiguous 300 sample_buckets" by (simp add: sample_buckets_def)
  from timeline_merge_exact [OF this refl, of 2 "\<lparr>healthy_rate = 90, degraded_rate = 70, min_bucket_requests = 5\<rparr>"] c
  show ?thesis by (simp add: sample_buckets_def)
qed

end
