(* ===== verification/Spec2Isabelle.thy ===== *)
theory Spec2Isabelle
  imports Status_Code_Rules Auth_Progress Http_Client Flow_Mask Advanced_Custom_Edit Advanced_Custom_Text Channel_Rows
    Model_Redirect Status_Code_Guard Billing_Editor Billing_Estimator Group_Timeline
begin

text \<open>
  Verification of the web console of FlowAPI, an API gateway for language models. The console is a TypeScript application
  under \<^verbatim>\<open>web/src\<close>; the development models its parts that compute rather than draw: who is signed in, how
  requests are sent, what the dashboard, the channel table and the price tables show, and what the channel and pricing
  editors store. Paths below are relative to \<^verbatim>\<open>web/src\<close>.

  \<^bold>\<open>The runtime.\<close> Values of the language are modelled once. \<open>Js_Prelude\<close> has strings, exact numbers with the special values
  of the language, values of unknown type (\<open>jsval\<close>), insertion-ordered maps and sets; \<open>Js_Number\<close> and \<open>Js_Json\<close> (with
  \<open>Js_Json_Laws\<close>) the conversion of numbers and JSON texts; \<open>Js_Regex\<close> a backtracking matcher in the order of the
  engine. \<open>Js_Collections\<close> has the interfaces several components rely on as locales: \<open>keyed_store\<close> for the loops that
  group rows by key, \<open>comparator\<close>, \<open>consistent\<close> and \<open>collation\<close> for sorting; they are interpreted on the maps
  of the runtime, the order of status code ranges and the order of code units. \<open>Billing_Laws\<close> has \<open>top_split\<close>, the contract of
  cutting a text at its top-level separators, interpreted for the conditions and for the factors of an expression. Numbers are rational, so results
  hold for the exact values; rounding of binary fractions is not modelled.

  \<^bold>\<open>Status codes.\<close> \<open>Status_Code_Rules\<close> models \<^verbatim>\<open>lib/http-status-code-rules.ts\<close>: an accepted text covers exactly the codes
  of its tokens, its printed form is canonical, is read back, and a bad token rejects the whole. \<open>Status_Code_Guard\<close>
  models \<^verbatim>\<open>features/channels/lib/status-code-risk-guard.ts\<close> and characterises its results on any text.

  \<^bold>\<open>Session.\<close> \<open>Auth_Store\<close> models \<^verbatim>\<open>stores/auth-store.ts\<close> and the guards on received credentials; \<open>Auth_Session\<close> every operation of
  \<^verbatim>\<open>lib/auth-session.ts\<close>, the messages of \<^verbatim>\<open>lib/auth-session-sync.ts\<close> and their subscriber in \<^verbatim>\<open>routes/__root.tsx\<close>; the record \<open>Tab\<close>
  is the store with the module variables, and an asynchronous refresh is a program counter (\<open>run_pc\<close>) in it. \<open>Auth_Machine\<close> is the step relation of
  one tab: the refresh process (\<open>run_step\<close>) and all other operations (\<open>tab_step\<close>), in any order. An invariant by rule
  induction gives that credentials are consistent, that a newer operation wins over a refresh in flight, that a refresh ends after at most 18
  steps and 8 requests, what each outcome leaves and which token requests get after it. \<open>Auth_Progress\<close> shows for infinite fair interleavings that the
  refresh promise is always released. \<open>Http_Client\<close> models \<^verbatim>\<open>lib/http-client.ts\<close> and \<^verbatim>\<open>lib/server-error-message.ts\<close> on top of the
  tab: shared GET requests never cross sessions (identifiers of sessions have no colon), and a request is repeated at most once.

  \<^bold>\<open>Dashboard.\<close> \<open>Flow_Model\<close> models \<^verbatim>\<open>features/dashboard/lib/flow.ts\<close>, \<^verbatim>\<open>flow-selection.ts\<close> and the data of the chart
  specification: usage rows become paths, paths a graph. \<open>Flow_Sums\<close> shows what the loops add up; \<open>Flow_Graph\<close> that the graph is exactly the
  sum of its paths and conserves the flow, and what the shares are fractions of; \<open>Flow_View\<close> what filters and the node limit keep; \<open>Flow_Mask\<close> that highlighting
  follows the selection and that masking hides every sensitive label and changes nothing else. \<open>Group_Timeline\<close> models
  \<^verbatim>\<open>features/group-monitoring/lib/timeline.ts\<close>: merged bars keep all counters and fit the card.

  \<^bold>\<open>Channels.\<close> \<open>Advanced_Custom\<close> models the routing table of \<^verbatim>\<open>features/channels/lib/advanced-custom.ts\<close>, its normal
  form and its one-pass validator; \<open>Advanced_Custom_Valid\<close> and \<open>Advanced_Custom_Accept\<close> show that the validator refines a predicate on the list of routes
  and that its errors point to the first offending route, and that what the form of
  \<^verbatim>\<open>components/dialogs/advanced-custom-editor-dialog.tsx\<close> offers is accepted; \<open>Advanced_Custom_Edit\<close> that the operations of the form keep what they do not replace and keep a
  valid table valid as long as a route is left; \<open>Advanced_Custom_Text\<close> that the JSON text is read back. \<open>Channel_Utils\<close> models \<^verbatim>\<open>channel-utils.ts\<close> with its tables;
  \<open>Channel_Rows\<close> shows that the tag mode partitions the channels with the right totals and that repeated keys are removed without losing one, and what is counted as removed. \<open>Model_Redirect\<close>
  models \<^verbatim>\<open>model-redirect-rules.ts\<close> and \<^verbatim>\<open>model-mapping-validation.ts\<close>: round trip of the text and exactly what the validator accepts.

  \<^bold>\<open>Billing.\<close> \<open>Billing_Rules\<close> and \<open>Billing_Tiers\<close> model \<^verbatim>\<open>features/pricing/lib/billing-expr.ts\<close> and the visual editor of
  \<^verbatim>\<open>tier-expr.ts\<close>; \<open>Billing_Estimate\<close> its cost estimate with the part of the expression language that billing expressions use.
  \<open>Billing_Editor\<close> shows which request rules are read back and when an expression is split again; \<open>Billing_Tier_Laws\<close> and \<open>Billing_Tier_Show\<close> that the
  price table shows the tiers of the editor; \<open>Billing_Estimate_Laws\<close> and \<open>Billing_Estimator\<close> that the estimate of a generated expression is the
  price of the first tier of that table whose conditions hold.

  \<^bold>\<open>Fuel and bounds.\<close> The JSON parser starts with fuel for the length of the text, shown to be enough (\<open>p_value_fuel\<close>).
  The loops of the matcher (repetition, all matches, split and replace) take the length of the text as fuel; every
  round consumes a character, and the laws on generated texts prove the complete result. The expression parser starts with seven times the number
  of tokens and seven; \<open>parse_chain\<close> shows this enough for generated texts. All other loops are structural or have a termination proof.

  \<^bold>\<open>Parameters.\<close> Code outside the sources is an argument of the definitions: collation of the locale, translation,
  colours and icons of libraries, the \<^verbatim>\<open>RegExp\<close> constructor on administrator patterns, the answers of the server and of the browser lock, the clock, and the
  evaluator of the host for texts outside the modelled expression language.

  \<^bold>\<open>Not modelled.\<close> React components, dialogs, drawers, routes, contexts and hooks draw or connect state of libraries (React, TanStack); the \<^verbatim>\<open>api.ts\<close> files only name an endpoint; types, constants, translations and the generated route tree are data. Of
  modelled files: the styles of the chart, the transport of cross-tab messages, the \<^verbatim>\<open>URL\<close> constructor of the route check and
  the currency formatters, which rest on \<^verbatim>\<open>Intl\<close>. Other helpers (the channel form with its zod schema, price and currency formatting, charts,
  upstream ratio synchronisation, permissions, legacy routes, wallet, keys, users, models, usage logs) are independent of the
  modelled parts and are left out. The gateway itself is written in Go (\<^verbatim>\<open>controller\<close>, \<^verbatim>\<open>relay\<close>, \<^verbatim>\<open>service\<close>, \<^verbatim>\<open>model\<close> and the other directories beside \<^verbatim>\<open>web\<close>);
  the console meets it only through HTTP, and its answers are inputs here.
\<close>

end
